(* ===== verification/Go_Strings.thy ===== *)
theory Go_Strings
  imports Main "HOL-Library.Sublist" "HOL-Library.Char_ord" "HOL-Library.List_Lexorder"
begin

text \<open>
  Prelude, part 1: the pieces of the Go language and of its packages \<open>strings\<close>,
  \<open>strconv\<close> and \<open>unicode/utf8\<close> that bssh uses. A Go \<open>string\<close> is a
  sequence of bytes, here \<^typ>\<open>string\<close> (a \<^typ>\<open>char\<close> is one byte); runes are
  read from it by a UTF-8 decoder with Go's treatment of invalid input (one byte, U+FFFD).
  A Go call that may stop the program returns an \<open>outcome\<close>.
\<close>

section \<open>Outcomes: a result, a panic, or the end of the process\<close>

text \<open>
  \<open>Done\<close> is a normal return, \<open>Panic\<close> a Go panic (an index out of range, a nil
  dereference, an explicit \<open>panic\<close>), \<open>Exit n\<close> the end of the process by
  \<open>os.Exit(n)\<close> or \<open>log.Fatal\<close> (status 1).
\<close>

datatype 'a outcome = Done 'a | Panic | Exit nat

named_theorems go_simps \<open>unfolding rules of the Go prelude\<close>

fun obind :: "'a outcome \<Rightarrow> ('a \<Rightarrow> 'b outcome) \<Rightarrow> 'b outcome" where
  "obind (Done a) f = f a"
| "obind Panic f = Panic"
| "obind (Exit n) f = Exit n"

fun returns :: "'a outcome \<Rightarrow> bool" where
  "returns (Done a) = True"
| "returns Panic = False"
| "returns (Exit n) = False"

lemma obind_Done_iff: "obind m f = Done b \<longleftrightarrow> (\<exists>a. m = Done a \<and> f a = Done b)"
  by (cases m) auto

lemma obind_Done_right [simp]: "obind m Done = m"
  by (cases m) auto

lemma obind_assoc: "obind (obind m f) g = obind m (\<lambda>a. obind (f a) g)"
  by (cases m) auto

lemma returns_iff: "returns m \<longleftrightarrow> (\<exists>a. m = Done a)"
  by (cases m) auto

text \<open>A slice index \<open>xs[i]\<close>: a panic outside \<open>0 \<le> i < len(xs)\<close>.\<close>

definition go_index :: "'a list \<Rightarrow> int \<Rightarrow> 'a outcome" where
  "go_index xs i = (if 0 \<le> i \<and> i < int (length xs) then Done (xs ! nat i) else Panic)"

text \<open>A slice expression \<open>s[i:j]\<close> on a string: a panic unless \<open>0 \<le> i \<le> j \<le> len(s)\<close>.\<close>

definition go_slice :: "'a list \<Rightarrow> int \<Rightarrow> int \<Rightarrow> 'a list outcome" where
  "go_slice s i j =
     (if 0 \<le> i \<and> i \<le> j \<and> j \<le> int (length s)
      then Done (take (nat (j - i)) (drop (nat i) s)) else Panic)"

lemma go_index_Done: "go_index xs i = Done x \<longleftrightarrow> 0 \<le> i \<and> i < int (length xs) \<and> x = xs ! nat i"
  by (auto simp: go_index_def)

lemma go_index_nat [simp]: "n < length xs \<Longrightarrow> go_index xs (int n) = Done (xs ! n)"
  by (simp add: go_index_def)

text \<open>Go's integer division truncates towards zero.\<close>

definition go_div :: "int \<Rightarrow> int \<Rightarrow> int" where
  "go_div a b = sgn a * sgn b * (\<bar>a\<bar> div \<bar>b\<bar>)"

lemma go_div_nonneg: "0 \<le> a \<Longrightarrow> 0 < b \<Longrightarrow> go_div a b = a div b"
  by (cases "a = 0") (auto simp: go_div_def)

section \<open>Runes: UTF-8 decoding and encoding\<close>

definition byte :: "char \<Rightarrow> nat" where
  "byte c = of_char c"

lemma byte_char_of [simp]: "byte (char_of (n::nat)) = n mod 256"
  by (simp add: byte_def)

lemma byte_lt [simp]: "byte c < 256"
  by (simp add: byte_def)

definition rune_error :: nat where
  "rune_error = 65533"

definition is_cont :: "nat \<Rightarrow> bool" where
  "is_cont b \<longleftrightarrow> 128 \<le> b \<and> b \<le> 191"

text \<open>\<open>utf8.DecodeRuneInString\<close> on a nonempty string: the rune and its width in bytes.\<close>

definition cont2 :: "nat \<Rightarrow> nat" where
  "cont2 b = b mod 64"

definition decode_rune :: "string \<Rightarrow> nat \<times> nat" where
  "decode_rune s =
     (case map byte (take 4 s) of
        [] \<Rightarrow> (rune_error, 0)
      | b0 # bs \<Rightarrow>
         if b0 < 128 then (b0, 1)
         else if 194 \<le> b0 \<and> b0 \<le> 223 then
           (case bs of b1 # _ \<Rightarrow> if is_cont b1 then ((b0 mod 32) * 64 + cont2 b1, 2)
                                 else (rune_error, 1)
                     | [] \<Rightarrow> (rune_error, 1))
         else if 224 \<le> b0 \<and> b0 \<le> 239 then
           (case bs of b1 # b2 # _ \<Rightarrow>
              if (if b0 = 224 then 160 else 128) \<le> b1 \<and> b1 \<le> (if b0 = 237 then 159 else 191)
                 \<and> is_cont b2
              then ((b0 mod 16) * 4096 + cont2 b1 * 64 + cont2 b2, 3) else (rune_error, 1)
            | _ \<Rightarrow> (rune_error, 1))
         else if 240 \<le> b0 \<and> b0 \<le> 244 then
           (case bs of b1 # b2 # b3 # _ \<Rightarrow>
              if (if b0 = 240 then 144 else 128) \<le> b1 \<and> b1 \<le> (if b0 = 244 then 143 else 191)
                 \<and> is_cont b2 \<and> is_cont b3
              then ((b0 mod 8) * 262144 + cont2 b1 * 4096 + cont2 b2 * 64 + cont2 b3, 4)
              else (rune_error, 1)
            | _ \<Rightarrow> (rune_error, 1))
         else (rune_error, 1))"

text \<open>\<open>string(rune)\<close>: a surrogate half or a value above U+10FFFF is written as U+FFFD.\<close>

definition valid_rune :: "nat \<Rightarrow> bool" where
  "valid_rune r \<longleftrightarrow> r < 55296 \<or> (57344 \<le> r \<and> r \<le> 1114111)"

definition enc3 :: "nat \<Rightarrow> string" where
  "enc3 r = [char_of (224 + r div 4096), char_of (128 + (r div 64) mod 64), char_of (128 + r mod 64)]"

definition encode_rune :: "nat \<Rightarrow> string" where
  "encode_rune r =
     (if r < 128 then [char_of r]
      else if r < 2048 then [char_of (192 + r div 64), char_of (128 + r mod 64)]
      else if \<not> valid_rune r then enc3 rune_error
      else if r < 65536 then enc3 r
      else [char_of (240 + r div 262144), char_of (128 + (r div 4096) mod 64),
            char_of (128 + (r div 64) mod 64), char_of (128 + r mod 64)])"

text \<open>The runes of a string in order, each with the bytes it was read from.\<close>

function runes :: "string \<Rightarrow> (nat \<times> string) list" where
  "runes [] = []"
| "runes (c # cs) =
     (let (r, w) = decode_rune (c # cs)
      in (r, take w (c # cs)) # runes (drop (w - 1) cs))"
  by pat_completeness auto
termination
  by (relation "measure length") auto

lemma decode_rune_width: "c # cs = s \<Longrightarrow> 1 \<le> snd (decode_rune s)"
  by (auto simp: decode_rune_def split: list.splits)

lemma concat_runes: "concat (map snd (runes s)) = s"
proof (induction s rule: runes.induct)
  case (2 c cs)
  obtain r w where rw: "decode_rune (c # cs) = (r, w)" by force
  then have "1 \<le> w" using decode_rune_width [OF refl, of c cs] by simp
  then have "take w (c # cs) @ drop (w - 1) cs = c # cs"
    by (cases w) auto
  with 2 rw show ?case by simp
qed simp

lemma length_enc3 [simp]: "length (enc3 r) = 3"
  by (simp add: enc3_def)

lemma encode_rune_nonempty [simp]: "encode_rune r \<noteq> []"
  by (auto simp: encode_rune_def enc3_def)

lemma encode_rune_invalid: "\<not> valid_rune r \<Longrightarrow> encode_rune r = enc3 rune_error"
  by (auto simp: encode_rune_def valid_rune_def)

lemma base64_digits: "(r::nat) = (r div 4096) * 4096 + ((r div 64) mod 64) * 64 + r mod 64"
proof -
  have "r div 4096 = r div 64 div 64" by (simp add: div_mult2_eq [symmetric])
  moreover have "r div 64 = (r div 64 div 64) * 64 + (r div 64) mod 64" by simp
  moreover have "r = (r div 64) * 64 + r mod 64" by simp
  ultimately show ?thesis by linarith
qed
lemma mod_add_self: "b < (m::nat) \<Longrightarrow> k mod m = 0 \<Longrightarrow> (k + b) mod m = b"
  by (metis add_0 mod_add_left_eq mod_less)
lemma decode_enc3:
  assumes "2048 \<le> r" "r < 65536" "valid_rune r"
  shows "decode_rune (enc3 r @ s) = (r, 3)"
proof -
  define a b c where abc: "a = r div 4096" "b = (r div 64) mod 64" "c = r mod 64"
  have lt: "a < 16" "b < 64" "c < 64" using assms by (auto simp: abc less_mult_imp_div_less)
  have d: "r = a * 4096 + b * 64 + c" unfolding abc by (rule base64_digits)
  have lo: "a = 0 \<Longrightarrow> 32 \<le> b" using assms(1) d lt by linarith
  have hi: "a = 13 \<Longrightarrow> b < 32" using assms(3) d lt unfolding valid_rune_def by auto
  show ?thesis
    unfolding enc3_def abc [symmetric] using lt lo hi
    by (auto simp: decode_rune_def is_cont_def cont2_def d mod_add_self)
qed

lemma decode_encode_rune:
  assumes "valid_rune r"
  shows "decode_rune (encode_rune r @ s) = (r, length (encode_rune r))"
proof -
  consider "r < 128" | "128 \<le> r" "r < 2048" | "2048 \<le> r" "r < 65536" | "65536 \<le> r" "r < 1114112"
    using assms unfolding valid_rune_def by linarith
  then show ?thesis
  proof cases
    case 1
    then show ?thesis by (simp add: encode_rune_def decode_rune_def)
  next
    case 2
    define a b where ab: "a = r div 64" "b = r mod 64"
    have "r = a * 64 + b" "a < 32" "2 \<le> a" "b < 64" using 2 by (auto simp: ab)
    with 2 show ?thesis
      by (auto simp: encode_rune_def ab [symmetric] decode_rune_def is_cont_def cont2_def mod_add_self)
  next
    case 3
    with assms show ?thesis by (simp add: encode_rune_def decode_enc3)
  next
    case 4
    define a b c d where abc: "a = r div 262144" "b = (r div 4096) mod 64" "c = (r div 64) mod 64" "d = r mod 64"
    have e: "r div 4096 = a * 64 + b"
      unfolding abc by (metis (no_types) div_mod_decomp div_mult2_eq [of r 4096 64, simplified])
    have lt: "b < 64" "c < 64" "d < 64" by (auto simp: abc)
    have r: "r = a * 262144 + b * 4096 + c * 64 + d"
      using base64_digits [of r] e unfolding abc by linarith
    have a: "a \<le> 4" "a = 0 \<Longrightarrow> 16 \<le> b" "a = 4 \<Longrightarrow> b < 16" using 4 r lt by linarith+
    have en: "encode_rune r = [char_of (240 + a), char_of (128 + b), char_of (128 + c), char_of (128 + d)]"
      using 4 assms by (simp add: encode_rune_def abc)
    show ?thesis
      unfolding en using a lt by (auto simp: decode_rune_def is_cont_def cont2_def r mod_add_self)
  qed
qed

lemma runes_encode_Cons:
  assumes "valid_rune r"
  shows "runes (encode_rune r @ s) = (r, encode_rune r) # runes s"
proof -
  obtain c cs where c: "encode_rune r = c # cs"
    by (cases "encode_rune r") auto
  then show ?thesis
    using decode_encode_rune [OF assms, of s] by simp
qed

lemma runes_encode:
  assumes "\<forall>r \<in> set rs. valid_rune r"
  shows "runes (concat (map encode_rune rs)) = map (\<lambda>r. (r, encode_rune r)) rs"
  using assms by (induction rs) (simp_all add: runes_encode_Cons)

text \<open>\<open>[]rune(s)\<close> and \<open>string([]rune)\<close>.\<close>

definition to_runes :: "string \<Rightarrow> nat list" where
  "to_runes s = map fst (runes s)"

definition of_runes :: "nat list \<Rightarrow> string" where
  "of_runes rs = concat (map encode_rune rs)"

lemma to_runes_of_runes: "\<forall>r \<in> set rs. valid_rune r \<Longrightarrow> to_runes (of_runes rs) = rs"
  by (simp add: to_runes_def of_runes_def runes_encode comp_def)

section \<open>Package strings\<close>

text \<open>\<open>unicode.IsSpace\<close>.\<close>

definition is_space :: "nat \<Rightarrow> bool" where
  "is_space r \<longleftrightarrow> r \<in> {9, 10, 11, 12, 13, 32, 133, 160, 5760, 8232, 8233, 8239, 8287, 12288}
                \<or> (8192 \<le> r \<and> r \<le> 8202)"

text \<open>\<open>strings.Fields\<close>: the words between runs of white space.\<close>

fun go_fields_aux :: "(nat \<times> string) list \<Rightarrow> string \<Rightarrow> string list" where
  "go_fields_aux [] w = (if w = [] then [] else [w])"
| "go_fields_aux ((r, b) # xs) w =
     (if is_space r then (if w = [] then go_fields_aux xs [] else w # go_fields_aux xs [])
      else go_fields_aux xs (w @ b))"

definition go_fields :: "string \<Rightarrow> string list" where
  "go_fields s = go_fields_aux (runes s) []"

text \<open>\<open>strings.TrimSpace\<close>.\<close>

definition trim_space :: "string \<Rightarrow> string" where
  "trim_space s = concat (map snd (rev (dropWhile (is_space \<circ> fst)
       (rev (dropWhile (is_space \<circ> fst) (runes s))))))"

text \<open>
  \<open>strings.ToLower\<close> with the rune mapping \<open>unicode.ToLower\<close> as an argument, and its
  ASCII instance, which is exact where the result is compared with an ASCII word that has
  neither \<open>i\<close> nor \<open>k\<close> in it (the dotted capital I and the Kelvin sign are the only
  non-ASCII runes that \<open>ToLower\<close> maps into ASCII).
\<close>

definition ascii_lower :: "nat \<Rightarrow> nat" where
  "ascii_lower r = (if 65 \<le> r \<and> r \<le> 90 then r + 32 else r)"

definition ascii_upper :: "nat \<Rightarrow> nat" where
  "ascii_upper r = (if 97 \<le> r \<and> r \<le> 122 then r - 32 else r)"

definition map_runes :: "(nat \<Rightarrow> nat) \<Rightarrow> string \<Rightarrow> string" where
  "map_runes f s = of_runes (map f (to_runes s))"

definition to_lower :: "(nat \<Rightarrow> nat) \<Rightarrow> string \<Rightarrow> string" where
  "to_lower ul s = map_runes ul s"

text \<open>\<open>strings.Index\<close> and \<open>LastIndex\<close>, with \<open>None\<close> for -1.\<close>

fun str_index :: "string \<Rightarrow> string \<Rightarrow> nat option" where
  "str_index sub [] = (if sub = [] then Some 0 else None)"
| "str_index sub (c # cs) =
     (if prefix sub (c # cs) then Some 0 else map_option Suc (str_index sub cs))"

fun str_last_index :: "string \<Rightarrow> string \<Rightarrow> nat option" where
  "str_last_index sub [] = (if sub = [] then Some 0 else None)"
| "str_last_index sub (c # cs) =
     (case str_last_index sub cs of
        Some i \<Rightarrow> Some (Suc i)
      | None \<Rightarrow> if prefix sub (c # cs) then Some 0 else None)"

definition contains :: "string \<Rightarrow> string \<Rightarrow> bool" where
  "contains s sub \<longleftrightarrow> str_index sub s \<noteq> None"

text \<open>The index as the Go \<open>int\<close>, -1 for none.\<close>

definition go_pos :: "nat option \<Rightarrow> int" where
  "go_pos p = (case p of None \<Rightarrow> -1 | Some i \<Rightarrow> int i)"

definition has_prefix :: "string \<Rightarrow> string \<Rightarrow> bool" where
  "has_prefix s p \<longleftrightarrow> prefix p s"

definition has_suffix :: "string \<Rightarrow> string \<Rightarrow> bool" where
  "has_suffix s p \<longleftrightarrow> suffix p s"

definition trim_prefix :: "string \<Rightarrow> string \<Rightarrow> string" where
  "trim_prefix s p = (if prefix p s then drop (length p) s else s)"

definition trim_suffix :: "string \<Rightarrow> string \<Rightarrow> string" where
  "trim_suffix s p = (if suffix p s then take (length s - length p) s else s)"

text \<open>\<open>strings.Split\<close> with a separator of one byte; \<open>strings.Join\<close>; \<open>SplitN(s, sep, 2)\<close>.\<close>

fun split_on :: "char \<Rightarrow> string \<Rightarrow> string list" where
  "split_on c [] = [[]]"
| "split_on c (x # xs) =
     (if x = c then [] # split_on c xs
      else case split_on c xs of [] \<Rightarrow> [[x]] | w # ws \<Rightarrow> (x # w) # ws)"

fun str_join :: "string list \<Rightarrow> string \<Rightarrow> string" where
  "str_join [] sep = []"
| "str_join [x] sep = x"
| "str_join (x # y # ys) sep = x @ sep @ str_join (y # ys) sep"

definition split2 :: "string \<Rightarrow> string \<Rightarrow> string list" where
  "split2 s sep = (case str_index sep s of
     None \<Rightarrow> [s] | Some i \<Rightarrow> [take i s, drop (i + length sep) s])"

text \<open>
  \<open>strings.ReplaceAll\<close> and \<open>strings.Count\<close>. With an empty \<open>old\<close> Go inserts
  \<open>new\<close> before every rune and at the end.
\<close>

function replace_from :: "string \<Rightarrow> string \<Rightarrow> string \<Rightarrow> string" where
  "replace_from old new [] = []"
| "replace_from old new (c # cs) =
     (if old \<noteq> [] \<and> prefix old (c # cs)
      then new @ replace_from old new (drop (length old - 1) cs)
      else c # replace_from old new cs)"
  by pat_completeness auto
termination
  by (relation "measure (\<lambda>(old, new, s). length s)") auto

definition replace_all :: "string \<Rightarrow> string \<Rightarrow> string \<Rightarrow> string" where
  "replace_all s old new =
     (if old = [] then concat (map (\<lambda>(r, b). new @ b) (runes s)) @ new
      else replace_from old new s)"

text \<open>\<open>strings.Replace(s, old, new, 1)\<close> with a nonempty \<open>old\<close>.\<close>

definition replace_first :: "string \<Rightarrow> string \<Rightarrow> string \<Rightarrow> string" where
  "replace_first s old new = (case str_index old s of
     None \<Rightarrow> s | Some i \<Rightarrow> take i s @ new @ drop (i + length old) s)"

text \<open>\<open>strings.Count(s, c)\<close> of a one-byte string.\<close>

definition count_byte :: "string \<Rightarrow> char \<Rightarrow> nat" where
  "count_byte s c = length (filter (\<lambda>x. x = c) s)"

section \<open>Package strconv\<close>

definition is_digit :: "char \<Rightarrow> bool" where
  "is_digit c \<longleftrightarrow> 48 \<le> byte c \<and> byte c \<le> 57"

definition digit_val :: "char \<Rightarrow> nat" where
  "digit_val c = byte c - 48"

text \<open>The value of a digit string in a base up to ten, \<open>None\<close> for a syntax error.\<close>

definition digits_val :: "nat \<Rightarrow> string \<Rightarrow> nat option" where
  "digits_val base s =
     (if s \<noteq> [] \<and> (\<forall>c \<in> set s. is_digit c \<and> digit_val c < base)
      then Some (foldl (\<lambda>n c. n * base + digit_val c) 0 s) else None)"

text \<open>
  \<open>strconv.ParseUint(s, base, bits)\<close> for base 8 and 10: the value and the error. Out of
  range the value is the largest one, with an error; a syntax error gives 0.
\<close>

datatype num_error = ErrSyntax | ErrRange

definition parse_uint :: "string \<Rightarrow> nat \<Rightarrow> nat \<Rightarrow> nat \<times> num_error option" where
  "parse_uint s base bits =
     (case digits_val base s of
        None \<Rightarrow> (0, Some ErrSyntax)
      | Some n \<Rightarrow> if n < 2 ^ bits then (n, None) else (2 ^ bits - 1, Some ErrRange))"

text \<open>\<open>strconv.Atoi\<close> (64-bit): \<open>None\<close> when it returns an error.\<close>

definition atoi :: "string \<Rightarrow> int option" where
  "atoi s =
     (let neg = (s \<noteq> [] \<and> hd s = CHR ''-'');
          body = (if s \<noteq> [] \<and> (hd s = CHR ''-'' \<or> hd s = CHR ''+'') then tl s else s)
      in case digits_val 10 body of
           None \<Rightarrow> None
         | Some n \<Rightarrow>
             let v = (if neg then - int n else int n)
             in if - (2 ^ 63) \<le> v \<and> v < 2 ^ 63 then Some v else None)"

text \<open>\<open>strconv.Itoa\<close> and \<open>FormatUint(_, 10)\<close>.\<close>

fun format_uint :: "nat \<Rightarrow> string" where
  "format_uint n = (if n < 10 then [char_of (48 + n)]
                    else format_uint (n div 10) @ [char_of (48 + n mod 10)])"

declare format_uint.simps [simp del]

definition itoa :: "int \<Rightarrow> string" where
  "itoa i = (if i < 0 then CHR ''-'' # format_uint (nat (- i)) else format_uint (nat i))"

section \<open>Facts on the string functions\<close>

lemma str_index_SomeD:
  "str_index sub s = Some i \<Longrightarrow> prefix sub (drop i s) \<and> i + length sub \<le> length s"
proof (induction s arbitrary: i)
  case (Cons c cs)
  then show ?case by (auto split: if_splits dest: prefix_length_le)
qed (auto split: if_splits)

lemma str_index_None_iff: "str_index sub s = None \<longleftrightarrow> \<not> sublist sub s"
proof (induction s)
  case (Cons c cs)
  then show ?case by (auto simp: sublist_Cons_right)
qed simp

lemma contains_iff_sublist [go_simps]: "contains s sub \<longleftrightarrow> sublist sub s"
  by (simp add: contains_def str_index_None_iff)

lemma str_index_split:
  assumes "str_index sub s = Some i"
  shows "s = take i s @ sub @ drop (i + length sub) s"
proof -
  from str_index_SomeD [OF assms] obtain t where t: "drop i s = sub @ t"
    by (auto simp: prefix_def)
  then have "drop (i + length sub) s = t"
    by (metis add.commute append_eq_conv_conj drop_drop)
  with t show ?thesis by (metis append_take_drop_id)
qed

lemma split_on_nonempty [simp]: "split_on c s \<noteq> []"
  by (induction s) (auto split: list.splits)

lemma join_split_on: "str_join (split_on c s) [c] = s"
proof (induction s)
  case (Cons x xs)
  show ?case
  proof (cases "split_on c xs")
    case (Cons w ws)
    with \<open>str_join (split_on c xs) [c] = xs\<close> show ?thesis by (cases ws) auto
  qed simp
qed simp

lemma split_on_no_sep: "w \<in> set (split_on c s) \<Longrightarrow> c \<notin> set w"
proof (induction s arbitrary: w)
  case (Cons x xs)
  then show ?case by (fastforce split: list.splits if_splits)
qed simp

lemma split_on_absent: "c \<notin> set s \<Longrightarrow> split_on c s = [s]"
  by (induction s) auto

lemma split_on_append: "c \<notin> set w \<Longrightarrow> split_on c (w @ c # s) = w # split_on c s"
  by (induction w) auto

lemma split_on_line: "split_on c (a @ c # b) = split_on c a @ split_on c b"
  by (induction a) (auto split: list.splits)

lemma length_split_on: "length (split_on c s) = Suc (count_byte s c)"
proof (induction s)
  case (Cons x xs)
  then show ?case by (auto simp: count_byte_def split: list.splits)
qed (simp add: count_byte_def)

lemma replace_from_absent: "\<not> sublist old s \<Longrightarrow> replace_from old new s = s"
  by (induction old new s rule: replace_from.induct) (auto simp: sublist_Cons_right)

lemma format_uint_nonempty [simp]: "format_uint n \<noteq> []"
  by (subst format_uint.simps) simp

lemma format_uint_digits: "c \<in> set (format_uint n) \<Longrightarrow> is_digit c"
proof (induction n rule: format_uint.induct)
  case (1 n)
  then show ?case
    by (subst (asm) (2) format_uint.simps) (auto simp: is_digit_def split: if_splits)
qed

lemma foldl_digits:
  "foldl (\<lambda>n c. n * 10 + digit_val c) 0 (format_uint n) = n"
proof (induction n rule: format_uint.induct)
  case (1 n)
  then show ?case
    by (subst format_uint.simps) (auto simp: digit_val_def)
qed

lemma digits_val_format: "digits_val 10 (format_uint n) = Some n"
proof -
  have "\<forall>c \<in> set (format_uint n). is_digit c \<and> digit_val c < 10"
    using format_uint_digits [of _ n] by (fastforce simp: is_digit_def digit_val_def)
  then show ?thesis by (simp add: digits_val_def foldl_digits)
qed

lemma atoi_format:
  assumes "n < 2 ^ 63"
  shows "atoi (format_uint n) = Some (int n)"
proof -
  obtain c cs where c: "format_uint n = c # cs" by (cases "format_uint n") auto
  then have "is_digit c" using format_uint_digits [of c n] by simp
  then have "c \<noteq> CHR ''-''" "c \<noteq> CHR ''+''" by (auto simp: is_digit_def byte_def)
  with c assms show ?thesis
    using digits_val_format [of n] by (simp add: atoi_def)
qed

section \<open>The bytes of one rune\<close>

definition ok3 :: "char \<Rightarrow> char \<Rightarrow> char \<Rightarrow> bool" where
  "ok3 b0 b1 b2 \<longleftrightarrow> (if byte b0 = 224 then 160 else 128) \<le> byte b1
     \<and> byte b1 \<le> (if byte b0 = 237 then 159 else 191) \<and> is_cont (byte b2)"

definition ok4 :: "char \<Rightarrow> char \<Rightarrow> char \<Rightarrow> char \<Rightarrow> bool" where
  "ok4 b0 b1 b2 b3 \<longleftrightarrow> (if byte b0 = 240 then 144 else 128) \<le> byte b1
     \<and> byte b1 \<le> (if byte b0 = 244 then 143 else 191) \<and> is_cont (byte b2) \<and> is_cont (byte b3)"

lemma decode_one: "128 \<le> byte b0 \<Longrightarrow> decode_rune [b0] = (rune_error, 1)"
  by (simp add: decode_rune_def)

lemma decode_two:
  "194 \<le> byte b0 \<Longrightarrow> byte b0 \<le> 223 \<Longrightarrow> decode_rune (b0 # b1 # t) =
     (if is_cont (byte b1) then ((byte b0 mod 32) * 64 + cont2 (byte b1), 2) else (rune_error, 1))"
  by (simp add: decode_rune_def)

lemma decode_three:
  "224 \<le> byte b0 \<Longrightarrow> byte b0 \<le> 239 \<Longrightarrow> decode_rune (b0 # b1 # b2 # t) =
     (if ok3 b0 b1 b2 then ((byte b0 mod 16) * 4096 + cont2 (byte b1) * 64 + cont2 (byte b2), 3)
      else (rune_error, 1))"
  by (simp add: decode_rune_def ok3_def)

lemma decode_four:
  "240 \<le> byte b0 \<Longrightarrow> byte b0 \<le> 244 \<Longrightarrow> decode_rune (b0 # b1 # b2 # b3 # t) =
     (if ok4 b0 b1 b2 b3 then ((byte b0 mod 8) * 262144 + cont2 (byte b1) * 4096
         + cont2 (byte b2) * 64 + cont2 (byte b3), 4)
      else (rune_error, 1))"
  by (simp add: decode_rune_def ok4_def)

lemma decode_short:
  "224 \<le> byte b0 \<Longrightarrow> length s1 < 2 \<Longrightarrow> decode_rune (b0 # s1) = (rune_error, 1)"
  "240 \<le> byte b0 \<Longrightarrow> length s1 < 3 \<Longrightarrow> decode_rune (b0 # s1) = (rune_error, 1)"
  by (auto simp: decode_rune_def eval_nat_numeral less_Suc_eq length_Suc_conv)

lemma decode_rune_take: "decode_rune s = (r, w) \<Longrightarrow> decode_rune (take w s) = (r, w)"
proof (cases s)
  case (Cons b0 s1)
  assume d: "decode_rune s = (r, w)"
  consider "byte b0 < 128" | "194 \<le> byte b0" "byte b0 \<le> 223" | "224 \<le> byte b0" "byte b0 \<le> 239"
    | "240 \<le> byte b0" "byte b0 \<le> 244"
    | "\<not> byte b0 < 128" "\<not> (194 \<le> byte b0 \<and> byte b0 \<le> 223)" "\<not> (224 \<le> byte b0 \<and> byte b0 \<le> 239)"
      "\<not> (240 \<le> byte b0 \<and> byte b0 \<le> 244)"
    by linarith
  then show ?thesis
  proof cases
    case 1
    with d Cons show ?thesis by (auto simp: decode_rune_def)
  next
    case 2
    show ?thesis
    proof (cases s1)
      case Nil
      with 2 d Cons show ?thesis by (auto simp: decode_one)
    next
      case s1: (Cons b1 t)
      with 2 d Cons show ?thesis
        by (cases "is_cont (byte b1)") (auto simp: decode_two decode_one)
    qed
  next
    case 3
    show ?thesis
    proof (cases "length s1 < 2")
      case True
      with 3 d Cons show ?thesis by (auto simp: decode_short decode_one)
    next
      case False
      then obtain b1 b2 t where "s1 = b1 # b2 # t"
        by (cases s1; cases "tl s1") auto
      with 3 d Cons show ?thesis
        by (cases "ok3 b0 b1 b2") (auto simp: decode_three decode_one)
    qed
  next
    case 4
    show ?thesis
    proof (cases "length s1 < 3")
      case True
      with 4 d Cons show ?thesis by (auto simp: decode_short decode_one)
    next
      case False
      then obtain b1 b2 b3 t where "s1 = b1 # b2 # b3 # t"
        by (cases s1; cases "tl s1"; cases "tl (tl s1)") auto
      with 4 d Cons show ?thesis
        by (cases "ok4 b0 b1 b2 b3") (auto simp: decode_four decode_one)
    qed
  next
    case 5
    with d Cons show ?thesis by (auto simp: decode_rune_def)
  qed
qed (simp add: decode_rune_def)

lemma runes_chunk: "(r, b) \<in> set (runes s) \<Longrightarrow> runes b = [(r, b)]"
proof (induction s rule: runes.induct)
  case (2 c cs)
  obtain r0 w where rw: "decode_rune (c # cs) = (r0, w)" by force
  then have w: "1 \<le> w" using decode_rune_width [OF refl, of c cs] by simp
  show ?case
  proof (cases "(r, b) = (r0, take w (c # cs))")
    case True
    then have b: "b = c # take (w - 1) cs" using w by (cases w) auto
    have "decode_rune (c # take (w - 1) cs) = (r0, w)"
      using decode_rune_take [OF rw] w by (cases w) auto
    then show ?thesis using True w unfolding b by (cases w) auto
  next
    case False
    then show ?thesis using 2 rw by auto
  qed
qed simp

section \<open>ASCII strings\<close>

text \<open>On ASCII strings the rune functions work character by character; the witnesses evaluate them so.\<close>

definition ascii :: "string \<Rightarrow> bool" where
  "ascii s \<longleftrightarrow> list_all (\<lambda>c. \<not> digit7 c) s"

definition space_char :: "char \<Rightarrow> bool" where
  "space_char c \<longleftrightarrow> c \<in> {CHR 0x09, CHR 0x0A, CHR 0x0B, CHR 0x0C, CHR 0x0D, CHR '' ''}"

fun words_of :: "string \<Rightarrow> string \<Rightarrow> string list" where
  "words_of [] w = (if w = [] then [] else [w])"
| "words_of (c # cs) w =
     (if space_char c then (if w = [] then words_of cs [] else w # words_of cs [])
      else words_of cs (w @ [c]))"

lemma byte_ascii: "byte c < 128 \<longleftrightarrow> \<not> digit7 c"
  by (cases c) (auto simp: byte_def)

lemma is_space_byte: "\<not> digit7 c \<Longrightarrow> is_space (byte c) \<longleftrightarrow> space_char c"
proof -
  assume a: "\<not> digit7 c"
  have eq: "byte c = n \<longleftrightarrow> c = char_of n" if "n < 256" for n :: nat
    using that by (auto simp: byte_def)
  from a byte_ascii have "byte c < 128" by auto
  then have "is_space (byte c) \<longleftrightarrow> byte c \<in> {9, 10, 11, 12, 13, 32}"
    by (auto simp: is_space_def)
  also have "\<dots> \<longleftrightarrow> c \<in> {char_of (9::nat), char_of (10::nat), char_of (11::nat), char_of (12::nat), char_of (13::nat), char_of (32::nat)}"
    by (simp add: eq)
  also have "\<dots> \<longleftrightarrow> space_char c"
    by (simp add: space_char_def char_of_def bit_Suc_0_iff)
  finally show ?thesis .
qed

lemma runes_ascii: "ascii s \<Longrightarrow> runes s = map (\<lambda>c. (byte c, [c])) s"
  by (induction s) (auto simp: ascii_def decode_rune_def byte_ascii)

lemma go_fields_ascii: "ascii s \<Longrightarrow> go_fields s = words_of s []"
proof -
  have "ascii s \<Longrightarrow> go_fields_aux (map (\<lambda>c. (byte c, [c])) s) w = words_of s w" for w
    by (induction s w rule: words_of.induct) (auto simp: ascii_def is_space_byte)
  then show "ascii s \<Longrightarrow> go_fields s = words_of s []" by (simp add: go_fields_def runes_ascii)
qed

lemma trim_space_ascii:
  "ascii s \<Longrightarrow> trim_space s = rev (dropWhile space_char (rev (dropWhile space_char s)))"
proof -
  assume a: "ascii s"
  have d: "dropWhile (is_space \<circ> fst) (map (\<lambda>c. (byte c, [c])) t) = map (\<lambda>c. (byte c, [c])) (dropWhile space_char t)"
    if "ascii t" for t using that by (induction t) (auto simp: ascii_def is_space_byte)
  have "ascii (dropWhile space_char s)" "ascii (rev (dropWhile space_char s))"
    using a by (auto simp: ascii_def list_all_iff dest: set_dropWhileD)
  then have "concat (map snd (rev (dropWhile (is_space \<circ> fst)
       (rev (map (\<lambda>c. (byte c, [c])) (dropWhile space_char s))))))
      = concat (map (\<lambda>c. [c]) (rev (dropWhile space_char (rev (dropWhile space_char s)))))"
    by (simp add: rev_map d) (simp add: comp_def)
  then show ?thesis using a by (simp add: trim_space_def runes_ascii d)
qed

lemma encode_rune_byte: "\<not> digit7 c \<Longrightarrow> encode_rune (byte c) = [c]"
  using byte_ascii [of c] by (simp add: encode_rune_def) (simp add: byte_def)

definition lower_char :: "char \<Rightarrow> char" where
  "lower_char c = (if CHR ''A'' \<le> c \<and> c \<le> CHR ''Z'' then char_of (byte c + 32) else c)"

lemma to_lower_ascii: "ascii s \<Longrightarrow> to_lower ascii_lower s = map lower_char s"
  unfolding to_lower_def map_runes_def to_runes_def of_runes_def
proof (simp add: runes_ascii comp_def, induction s)
  case (Cons c s)
  have b: "byte c < 128" using Cons.prems byte_ascii by (simp add: ascii_def)
  have "encode_rune (ascii_lower (byte c)) = [lower_char c]"
    using b encode_rune_byte [of c] Cons.prems
    by (auto simp: ascii_lower_def lower_char_def ascii_def less_eq_char_def byte_def encode_rune_def)
  then show ?case using Cons by (simp add: ascii_def)
qed simp

declare runes.simps(2) [simp del]

lemmas ascii_eval = go_fields_ascii trim_space_ascii to_lower_ascii runes_ascii

end
