(* ===== verification/Go_Machine.thy ===== *)
theory Go_Machine
  imports Go_Strings
begin

text \<open>
  Prelude, part 2: event loops. Several components of bssh are a loop that reads an event,
  changes its state and goes on, returns or stops the program; \<open>mrun\<close> runs such a
  step function over a list of events. The locale \<open>machine\<close> is the contract between a
  step function and an invariant, with the run lemmas proved once. Goroutines that run side by side are
  step relations; \<open>stepping\<close> and \<open>ranked\<close> are their contracts.
\<close>

fun mrun :: "('e \<Rightarrow> 's \<Rightarrow> ('s + 'r) outcome) \<Rightarrow> 'e list \<Rightarrow> 's \<Rightarrow> ('s + 'r) outcome" where
  "mrun step [] s = Done (Inl s)"
| "mrun step (e # es) s =
     obind (step e s) (\<lambda>r. case r of Inl s' \<Rightarrow> mrun step es s' | Inr x \<Rightarrow> Done (Inr x))"

lemma mrun_append:
  "mrun step (es @ fs) s =
     obind (mrun step es s) (\<lambda>r. case r of Inl s' \<Rightarrow> mrun step fs s' | Inr x \<Rightarrow> Done (Inr x))"
proof (induction es arbitrary: s)
  case (Cons e es)
  then show ?case
    by (cases "step e s") (auto split: sum.splits)
qed simp

text \<open>
  \<open>inv\<close> holds before every event, \<open>allowed\<close> says which events the loop may see, and
  \<open>pre\<close> is a condition on event and state under which the step does not panic.
\<close>

locale machine =
  fixes step :: "'e \<Rightarrow> 's \<Rightarrow> ('s + 'r) outcome"
    and allowed :: "'e \<Rightarrow> bool"
    and inv :: "'s \<Rightarrow> bool"
    and pre :: "'e \<Rightarrow> 's \<Rightarrow> bool"
  assumes inv_step: "inv s \<Longrightarrow> allowed e \<Longrightarrow> step e s = Done (Inl s') \<Longrightarrow> inv s'"
    and pre_step: "inv s \<Longrightarrow> allowed e \<Longrightarrow> pre e s \<Longrightarrow> step e s \<noteq> Panic"
begin

lemma run_inv:
  "inv s \<Longrightarrow> \<forall>e \<in> set es. allowed e \<Longrightarrow> mrun step es s = Done (Inl s') \<Longrightarrow> inv s'"
proof (induction es arbitrary: s)
  case (Cons e es)
  from Cons.prems(3) obtain r where r: "step e s = Done r"
      "(case r of Inl s1 \<Rightarrow> mrun step es s1 | Inr x \<Rightarrow> Done (Inr x)) = Done (Inl s')"
    by (auto simp: obind_Done_iff)
  then obtain s1 where s1: "step e s = Done (Inl s1)" "mrun step es s1 = Done (Inl s')"
    by (cases r) auto
  from Cons.prems s1(1) inv_step have "inv s1" by auto
  with Cons.prems(2) s1(2) show ?case by (intro Cons.IH) auto
qed simp

lemma run_panic_cause:
  assumes "inv s" and "\<forall>e \<in> set es. allowed e" and "mrun step es s = Panic"
  shows "\<exists>es1 e es2 s'. es = es1 @ e # es2 \<and> mrun step es1 s = Done (Inl s')
           \<and> inv s' \<and> step e s' = Panic \<and> \<not> pre e s'"
  using assms
proof (induction es arbitrary: s)
  case (Cons e es)
  show ?case
  proof (cases "step e s")
    case (Done r)
    with Cons.prems(3) obtain s1 where s1: "step e s = Done (Inl s1)" "mrun step es s1 = Panic"
      by (auto split: sum.splits)
    have "inv s1" using inv_step Cons.prems(1,2) s1(1) by auto
    from Cons.IH [OF this _ s1(2)] Cons.prems(2) obtain es1 e' es2 s'
      where "es = es1 @ e' # es2" "mrun step es1 s1 = Done (Inl s')" "inv s'"
        "step e' s' = Panic" "\<not> pre e' s'" by auto
    with s1(1) show ?thesis
      by (intro exI [of _ "e # es1"] exI [of _ e'] exI [of _ es2] exI [of _ s']) simp
  next
    case Panic
    with Cons.prems pre_step show ?thesis
      by (intro exI [of _ "[]"] exI [of _ e] exI [of _ es] exI [of _ s]) auto
  next
    case (Exit n)
    with Cons.prems show ?thesis by simp
  qed
qed simp

lemma run_result:
  "inv s \<Longrightarrow> \<forall>e \<in> set es. allowed e \<Longrightarrow> mrun step es s = Done (Inr r) \<Longrightarrow>
   \<exists>e \<in> set es. \<exists>s'. inv s' \<and> step e s' = Done (Inr r)"
proof (induction es arbitrary: s)
  case (Cons e es)
  from Cons.prems(3) obtain x where x: "step e s = Done x"
      "(case x of Inl s1 \<Rightarrow> mrun step es s1 | Inr y \<Rightarrow> Done (Inr y)) = Done (Inr r)"
    by (auto simp: obind_Done_iff)
  show ?case
  proof (cases x)
    case (Inl s1)
    have "inv s1" using inv_step Cons.prems(1,2) x(1) Inl by auto
    then show ?thesis using Cons.IH [of s1] Cons.prems(2) x(2) Inl by auto
  next
    case (Inr y)
    then show ?thesis using Cons.prems(1) x by auto
  qed
qed simp

lemma run_no_panic:
  assumes "inv s" and "\<forall>e \<in> set es. allowed e" and "\<And>e s. inv s \<Longrightarrow> allowed e \<Longrightarrow> pre e s"
  shows "mrun step es s \<noteq> Panic"
proof
  assume "mrun step es s = Panic"
  from run_panic_cause [OF assms(1,2) this] assms(2,3) show False by auto
qed

end

text \<open>
  Goroutines that work at the same time are a step relation. The locale \<open>stepping\<close> is the contract
  between the relation and a property that every step keeps, \<open>ranked\<close> adds a measure that every
  step makes smaller: its runs are bounded, and from every state an end is reached.
\<close>

locale stepping =
  fixes step :: "'s \<Rightarrow> 's \<Rightarrow> bool" and inv :: "'s \<Rightarrow> bool"
  assumes step_inv: "step s t \<Longrightarrow> inv s \<Longrightarrow> inv t"
begin

lemma steps_inv: "step\<^sup>*\<^sup>* s t \<Longrightarrow> inv s \<Longrightarrow> inv t"
  by (induction rule: rtranclp_induct) (auto intro: step_inv)

lemma run_inv: "(step ^^ n) s t \<Longrightarrow> inv s \<Longrightarrow> inv t"
  using steps_inv relpowp_imp_rtranclp by metis

end

locale ranked = stepping step inv for step :: "'s \<Rightarrow> 's \<Rightarrow> bool" and inv :: "'s \<Rightarrow> bool" +
  fixes rank :: "'s \<Rightarrow> nat"
  assumes step_rank: "step s t \<Longrightarrow> inv s \<Longrightarrow> rank t < rank s"
begin

lemma run_bounded: "(step ^^ n) s t \<Longrightarrow> inv s \<Longrightarrow> rank t + n \<le> rank s"
proof (induction n arbitrary: t)
  case (Suc n)
  then obtain u where u: "(step ^^ n) s u" "step u t" by auto
  then show ?case using Suc.IH [OF u(1)] step_rank [OF u(2) run_inv [OF u(1)]] Suc.prems(2) by simp
qed simp

lemma reaches_end: "inv s \<Longrightarrow> \<exists>t. step\<^sup>*\<^sup>* s t \<and> (\<forall>u. \<not> step t u)"
proof (induction "rank s" arbitrary: s rule: less_induct)
  case less
  show ?case
  proof (cases "\<exists>u. step s u")
    case True
    then obtain u where u: "step s u" by blast
    then obtain t where "step\<^sup>*\<^sup>* u t" "\<forall>v. \<not> step t v"
      using less step_rank step_inv by blast
    then show ?thesis using u by (meson converse_rtranclp_into_rtranclp)
  qed blast
qed

end

end
