(* ===== verification/Go_Path.thy ===== *)
theory Go_Path
  imports Go_Strings
begin

text \<open>
  Prelude, part 3: package \<open>path/filepath\<close> on Unix, as far as bssh uses it:
  \<open>Clean\<close>, \<open>Join\<close>, \<open>Base\<close>, \<open>Dir\<close>, \<open>IsAbs\<close>, \<open>Abs\<close>,
  \<open>Rel\<close> and \<open>SplitList\<close>, on the components between slashes.
\<close>

abbreviation slash :: char where "slash \<equiv> CHR ''/''"

definition path_comps :: "string \<Rightarrow> string list" where
  "path_comps p = filter (\<lambda>c. c \<noteq> [] \<and> c \<noteq> ''.'') (split_on slash p)"

definition is_abs :: "string \<Rightarrow> bool" where
  "is_abs p \<longleftrightarrow> prefix ''/'' p"

text \<open>\<open>..\<close> removes the component before it; at the root it is dropped.\<close>

fun clean_step :: "bool \<Rightarrow> string list \<Rightarrow> string \<Rightarrow> string list" where
  "clean_step rooted st c =
     (if c = ''..'' then
        (if st \<noteq> [] \<and> last st \<noteq> ''..'' then butlast st else if rooted then st else st @ [c])
      else st @ [c])"

definition clean_comps :: "bool \<Rightarrow> string list \<Rightarrow> string list" where
  "clean_comps rooted cs = foldl (clean_step rooted) [] cs"

definition path_render :: "bool \<Rightarrow> string list \<Rightarrow> string" where
  "path_render rooted cs =
     (if rooted then slash # str_join cs ''/'' else if cs = [] then ''.'' else str_join cs ''/'')"

definition path_clean :: "string \<Rightarrow> string" where
  "path_clean p = path_render (is_abs p) (clean_comps (is_abs p) (path_comps p))"

definition path_join :: "string list \<Rightarrow> string" where
  "path_join elems =
     (case dropWhile (\<lambda>e. e = []) elems of [] \<Rightarrow> [] | es \<Rightarrow> path_clean (str_join es ''/''))"

definition strip_slashes :: "string \<Rightarrow> string" where
  "strip_slashes p = rev (dropWhile (\<lambda>c. c = slash) (rev p))"

definition after_slash :: "string \<Rightarrow> string" where
  "after_slash p = rev (takeWhile (\<lambda>c. c \<noteq> slash) (rev p))"

definition path_base :: "string \<Rightarrow> string" where
  "path_base p =
     (if p = [] then ''.''
      else let b = after_slash (strip_slashes p) in if b = [] then ''/'' else b)"

text \<open>\<open>Dir\<close> cleans everything up to and with the last slash.\<close>

definition path_dir :: "string \<Rightarrow> string" where
  "path_dir p = path_clean (rev (dropWhile (\<lambda>c. c \<noteq> slash) (rev p)))"

definition path_abs :: "string \<Rightarrow> string \<Rightarrow> string" where
  "path_abs cwd p = (if is_abs p then path_clean p else path_join [cwd, p])"

text \<open>
  \<open>Rel(base, targ)\<close>, \<open>None\<close> for its error. The cleaned paths are compared component by
  component (a target \<open>.\<close> counts as one component); at the first difference the base may not
  go up.
\<close>

fun strip_common :: "string list \<Rightarrow> string list \<Rightarrow> string list \<times> string list" where
  "strip_common (b # bs) (t # ts) =
     (if b = t then strip_common bs ts else (b # bs, t # ts))"
| "strip_common bs ts = (bs, ts)"

definition path_rel :: "string \<Rightarrow> string \<Rightarrow> string option" where
  "path_rel basepath targ =
     (let b = path_clean basepath; t = path_clean targ in
      if b = t then Some ''.''
      else if is_abs b \<noteq> is_abs t then None
      else let (rb, rt) = strip_common (clean_comps (is_abs b) (path_comps b))
                            (if t = ''.'' then [''.''] else clean_comps (is_abs t) (path_comps t))
           in if rb \<noteq> [] \<and> rt \<noteq> [] \<and> hd rb = ''..'' then None
              else Some (str_join (replicate (length rb) ''..'' @ rt) ''/''))"

definition split_list :: "string \<Rightarrow> string list" where
  "split_list p = (if p = [] then [] else split_on CHR '':'' p)"

section \<open>Components and rendering\<close>

lemma split_on_join:
  "cs \<noteq> [] \<Longrightarrow> \<forall>w \<in> set cs. c \<notin> set w \<Longrightarrow> split_on c (str_join cs [c]) = cs"
proof (induction cs rule: induct_list012)
  case (3 x y zs)
  then show ?case by (simp add: split_on_append)
qed (auto simp: split_on_absent)

definition good_comp :: "string \<Rightarrow> bool" where
  "good_comp w \<longleftrightarrow> w \<noteq> [] \<and> w \<noteq> ''.'' \<and> slash \<notin> set w"

lemma path_comps_good: "w \<in> set (path_comps p) \<Longrightarrow> good_comp w"
  by (auto simp: path_comps_def good_comp_def dest: split_on_no_sep)

lemma path_comps_join: "\<forall>w \<in> set cs. good_comp w \<Longrightarrow> path_comps (str_join cs ''/'') = cs"
proof (cases "cs = []")
  case False
  assume a: "\<forall>w \<in> set cs. good_comp w"
  then show ?thesis using split_on_join [OF False, of slash]
    by (auto simp: path_comps_def good_comp_def filter_id_conv)
qed (simp add: path_comps_def)

lemma path_comps_slash [simp]: "path_comps (slash # p) = path_comps p"
  by (simp add: path_comps_def)

lemma path_comps_render: "\<forall>w \<in> set cs. good_comp w \<Longrightarrow> path_comps (path_render r cs) = cs"
  by (auto simp: path_render_def path_comps_join) (simp add: path_comps_def)

lemma is_abs_join: "\<forall>w \<in> set cs. good_comp w \<Longrightarrow> cs \<noteq> [] \<Longrightarrow> \<not> is_abs (str_join cs ''/'')"
proof (induction cs rule: induct_list012)
  case (2 x)
  then show ?case by (cases x) (auto simp: is_abs_def good_comp_def)
next
  case (3 x y zs)
  then show ?case by (cases x) (auto simp: is_abs_def good_comp_def)
qed simp

lemma is_abs_render [simp]: "\<forall>w \<in> set cs. good_comp w \<Longrightarrow> is_abs (path_render r cs) = r"
  using is_abs_join [of cs] by (auto simp: path_render_def) (auto simp: is_abs_def)

lemma clean_comps_good: "\<forall>w \<in> set cs. good_comp w \<Longrightarrow> \<forall>w \<in> set (clean_comps r cs). good_comp w"
proof -
  have gen: "\<forall>w \<in> set st. good_comp w \<Longrightarrow> \<forall>w \<in> set cs. good_comp w \<Longrightarrow>
        \<forall>w \<in> set (foldl (clean_step r) st cs). good_comp w" for st
  proof (induction cs arbitrary: st)
    case (Cons c cs)
    have "\<forall>w \<in> set (clean_step r st c). good_comp w"
      using Cons.prems by (auto dest: in_set_butlastD)
    with Cons show ?case by (simp del: clean_step.simps)
  qed simp
  show "\<forall>w \<in> set cs. good_comp w \<Longrightarrow> \<forall>w \<in> set (clean_comps r cs). good_comp w"
    unfolding clean_comps_def by (rule gen) simp_all
qed

lemma clean_comps_plain: "''..'' \<notin> set cs \<Longrightarrow> clean_comps r cs = cs"
proof -
  have "''..'' \<notin> set cs \<Longrightarrow> foldl (clean_step r) st cs = st @ cs" for st
    by (induction cs arbitrary: st) auto
  then show "''..'' \<notin> set cs \<Longrightarrow> clean_comps r cs = cs" by (simp add: clean_comps_def)
qed

lemma path_comps_append: "path_comps (a @ slash # b) = path_comps a @ path_comps b"
proof -
  have "split_on slash (a @ slash # b) = split_on slash a @ split_on slash b"
    by (induction a) (auto split: list.splits)
  then show ?thesis by (simp add: path_comps_def)
qed

lemma is_abs_append: "a \<noteq> [] \<Longrightarrow> is_abs (a @ b) = is_abs a"
  by (cases a) (auto simp: is_abs_def)

text \<open>A path of plain components is its own clean form.\<close>

definition plain :: "string list \<Rightarrow> bool" where
  "plain cs \<longleftrightarrow> (\<forall>w \<in> set cs. good_comp w \<and> w \<noteq> ''..'')"

lemma plainD: "plain cs \<Longrightarrow> \<forall>w \<in> set cs. good_comp w" "plain cs \<Longrightarrow> ''..'' \<notin> set cs"
  by (auto simp: plain_def)

lemma plain_append [simp]: "plain (a @ b) \<longleftrightarrow> plain a \<and> plain b"
  by (auto simp: plain_def)

lemma path_clean_render: "plain cs \<Longrightarrow> path_clean (path_render r cs) = path_render r cs"
  by (simp add: path_clean_def plainD path_comps_render clean_comps_plain)

lemma path_join2:
  assumes "a \<noteq> []"
  shows "path_join [a, b] = path_render (is_abs a) (clean_comps (is_abs a) (path_comps a @ path_comps b))"
  using assms by (simp add: path_join_def path_clean_def path_comps_append is_abs_append)

lemma path_join_render:
  assumes "plain cs" and "plain ds"
  shows "path_join [path_render r cs, str_join ds ''/''] = path_render r (cs @ ds)"
proof -
  have "path_render r cs \<noteq> []" using plainD [OF assms(1)]
    by (cases cs rule: remdups_adj.cases) (auto simp: path_render_def good_comp_def)
  then show ?thesis using assms
    by (simp add: path_join2 plainD path_comps_render path_comps_join clean_comps_plain)
qed

lemma strip_common_append [simp]: "strip_common cs (cs @ ds) = ([], ds)"
  by (induction cs) (cases ds, auto)

lemma path_rel_render:
  assumes "plain cs" and "plain ds"
  shows "path_rel (path_render r cs) (path_render r (cs @ ds))
         = Some (if ds = [] then ''.'' else str_join ds ''/'')"
proof (cases "ds = []")
  case False
  have g: "\<forall>w \<in> set cs. good_comp w" "\<forall>w \<in> set (cs @ ds). good_comp w"
    using assms plainD(1) [of cs] plainD(1) [of "cs @ ds"] by (simp_all add: ball_Un plainD)
  have "path_comps (path_render r cs) \<noteq> path_comps (path_render r (cs @ ds))"
    using False by (simp only: path_comps_render [OF g(1)] path_comps_render [OF g(2)]) simp
  then have ne: "path_render r cs \<noteq> path_render r (cs @ ds)" by metis
  have dot: "path_render r (cs @ ds) \<noteq> ''.''"
  proof
    assume "path_render r (cs @ ds) = ''.''"
    then have "path_comps (path_render r (cs @ ds)) = []" by (simp add: path_comps_def)
    with False show False by (simp only: path_comps_render [OF g(2)]) simp
  qed
  have p: "plain (cs @ ds)" using assms by simp
  show ?thesis using assms False ne dot g
    by (simp add: path_rel_def path_clean_render [OF p] path_clean_render [OF assms(1)] Let_def
        path_comps_render [OF g(1)] path_comps_render [OF g(2)] is_abs_render [OF g(1)] is_abs_render [OF g(2)]
        clean_comps_plain plainD(2) [OF p] plainD(2))
qed (simp add: path_rel_def)

end
