(* ===== verification/Common.thy ===== *)
theory Common
  imports Go_Path
begin

text \<open>
  Package \<open>common\<close> (src/common/common.go) and the argument checks of package
  \<open>check\<close> (src/check/check.go): the merge of configuration values, lists without
  duplicates, the directory walk and hidden files, the lookups in \<open>/etc/passwd\<close>, port
  forward specifications and the splitting of short options.
\<close>

section \<open>Merging struct fields\<close>

text \<open>
  A field as \<open>StructToMap\<close> reads it: the interface values \<open>MapReduce\<close> knows, and all
  others (integers, durations, pointers) by a tag. A struct is the map of its exported fields.
  \<open>reflect.ValueOf(x).Len()\<close> panics on a missing key or another type, and so does
  \<open>Bool()\<close>.
\<close>

datatype gval = VStr string | VList "string list" | VBool bool | VOther string

definition reduce_val :: "gval \<Rightarrow> gval option \<Rightarrow> gval option outcome" where
  "reduce_val va v2 =
     (case va of
        VStr s \<Rightarrow> Done (if s \<noteq> [] \<and> v2 = Some (VStr []) then Some va else v2)
      | VList xs \<Rightarrow>
          if xs = [] then Done v2
          else (case v2 of
             Some (VList ys) \<Rightarrow> Done (if ys = [] then Some va else v2)
           | Some (VStr s) \<Rightarrow> Done (if s = [] then Some va else v2)
           | _ \<Rightarrow> Panic)
      | VBool b \<Rightarrow>
          (case v2 of
             Some (VBool b2) \<Rightarrow> Done (if b \<and> \<not> b2 then Some va else v2)
           | _ \<Rightarrow> if b then Panic else Done v2)
      | VOther _ \<Rightarrow> Done v2)"

text \<open>The range over \<open>map1\<close>, in the order \<open>es\<close> enumerates it.\<close>

fun MapReduce :: "(string \<times> gval) list \<Rightarrow> (string \<rightharpoonup> gval) \<Rightarrow> (string \<rightharpoonup> gval) outcome" where
  "MapReduce [] m2 = Done m2"
| "MapReduce ((ia, va) # es) m2 =
     obind (reduce_val va (m2 ia)) (\<lambda>v. MapReduce es (m2(ia := v)))"

section \<open>Lists\<close>

fun order_loop :: "string \<Rightarrow> nat \<Rightarrow> string list \<Rightarrow> nat" where
  "order_loop value i [] = 0"
| "order_loop value i (v # vs) = (if v = value then i else order_loop value (Suc i) vs)"

definition GetOrderNumber :: "string \<Rightarrow> string list \<Rightarrow> nat" where
  "GetOrderNumber value array = order_loop value 0 array"

fun max_loop :: "nat \<Rightarrow> string list \<Rightarrow> nat" where
  "max_loop m [] = m"
| "max_loop m (e # es) = max_loop (if m < length e then length e else m) es"

definition GetMaxLength :: "string list \<Rightarrow> nat" where
  "GetMaxLength list = max_loop 0 list"

text \<open>\<open>GetUniqueSlice\<close>: \<open>m\<close> is the map of the values seen.\<close>

fun unique_loop :: "(string \<Rightarrow> bool) \<Rightarrow> string list \<Rightarrow> string list \<Rightarrow> string list" where
  "unique_loop m result [] = result"
| "unique_loop m result (ele # data) =
     (if \<not> m ele then unique_loop (m(ele := True)) (result @ [ele]) data
      else unique_loop m result data)"

definition GetUniqueSlice :: "string list \<Rightarrow> string list" where
  "GetUniqueSlice data = unique_loop (\<lambda>_. False) [] data"

section \<open>Files\<close>

text \<open>\<open>GetFullPath\<close>, with \<open>ss.ExpandHome\<close> and the working directory as arguments.\<close>

definition GetFullPath :: "(string \<Rightarrow> string) \<Rightarrow> string \<Rightarrow> string \<Rightarrow> string" where
  "GetFullPath expandHome cwd path = path_abs cwd (expandHome path)"

datatype lstat = NoFile | Symlink "string option" | OtherFile

definition IsExist :: "(string \<Rightarrow> lstat) \<Rightarrow> string \<Rightarrow> string \<times> bool" where
  "IsExist fs filename =
     (case fs filename of
        NoFile \<Rightarrow> (filename, False)
      | Symlink None \<Rightarrow> (filename, False)
      | Symlink (Some s) \<Rightarrow> (s, True)
      | OtherFile \<Rightarrow> (filename, True))"

text \<open>\<open>IsHidden\<close>: \<open>filepath.SplitList\<close> splits at colons, not at slashes.\<close>

fun hidden_part :: "string \<Rightarrow> bool" where
  "hidden_part part \<longleftrightarrow> length part > 1 \<and> hd part = CHR ''.''"

definition IsHidden :: "string \<Rightarrow> string \<Rightarrow> bool" where
  "IsHidden basedir path =
     (let p = (case path_rel basedir path of None \<Rightarrow> path | Some r \<Rightarrow> r)
      in list_ex hidden_part (split_list p))"

text \<open>
  \<open>filepath.Walk\<close> on a tree: the root first, then the entries of a directory in
  lexical order. \<open>WalkDir\<close> collects what its callback keeps.
\<close>

datatype fnode = FFile | FDir "(string \<times> fnode) list"

fun is_dir :: "fnode \<Rightarrow> bool" where
  "is_dir FFile = False"
| "is_dir (FDir _) = True"

fun walk :: "string \<Rightarrow> fnode \<Rightarrow> (string \<times> bool) list" where
  "walk p FFile = [(p, False)]"
| "walk p (FDir es) = (p, True) # concat (map (\<lambda>(n, t). walk (path_join [p, n]) t) es)"

definition walk_keep :: "string \<Rightarrow> string \<times> bool \<Rightarrow> string list" where
  "walk_keep dir e = (case e of (path, isdir) \<Rightarrow>
     if IsHidden dir path then [] else [if isdir then path @ ''/'' else path])"

definition WalkDir :: "string \<Rightarrow> fnode option \<Rightarrow> string list option" where
  "WalkDir dir root =
     (case root of None \<Rightarrow> None
      | Some t \<Rightarrow> Some (concat (map (walk_keep dir) (walk dir t))))"

section \<open>Passphrases\<close>

text \<open>\<open>GetPassPhrase\<close>: \<open>tty\<close> is what the terminal gives with its error, \<open>None\<close> when it
  cannot be opened, which ends the program. Whatever the error, an empty input is reported as such.\<close>

definition GetPassPhrase :: "(string \<times> string option) option \<Rightarrow> (string \<times> string option) outcome" where
  "GetPassPhrase tty =
     (case tty of
        None \<Rightarrow> Exit 1
      | Some (result, err) \<Rightarrow>
          Done (if result = [] then ([], Some ''err: input is empty'') else (result, err)))"

section \<open>/etc/passwd\<close>

text \<open>
  The lines of \<open>bufio.Scanner\<close> (no line end, no carriage return before it, nothing after
  the last newline); lines over the scanner's 64 KB limit are outside the model.
\<close>

definition newline :: char where
  "newline = CHR 0x0A"

definition scan_lines :: "string \<Rightarrow> string list" where
  "scan_lines s =
     (let ls = split_on newline s
      in map (\<lambda>l. trim_suffix l [CHR 0x0D]) (if last ls = [] then butlast ls else ls))"

fun id_from_name_loop :: "string \<Rightarrow> string list \<Rightarrow> nat option outcome" where
  "id_from_name_loop name [] = Done None"
| "id_from_name_loop name (l # ls) =
     (let line = split_on CHR '':'' l
      in if hd line = name
         then obind (go_index line 2) (\<lambda>idstr. Done (Some (fst (parse_uint idstr 10 32))))
         else id_from_name_loop name ls)"

definition GetIDFromName :: "string \<Rightarrow> string \<Rightarrow> nat option outcome" where
  "GetIDFromName file name = id_from_name_loop name (scan_lines file)"

fun name_from_id_loop :: "string \<Rightarrow> string list \<Rightarrow> string option outcome" where
  "name_from_id_loop idstr [] = Done None"
| "name_from_id_loop idstr (l # ls) =
     (let line = split_on CHR '':'' l
      in obind (go_index line 2) (\<lambda>f.
           if f = idstr then Done (Some (hd line)) else name_from_id_loop idstr ls))"

definition GetNameFromID :: "string \<Rightarrow> nat \<Rightarrow> string option outcome" where
  "GetNameFromID file uid = name_from_id_loop (format_uint uid) (scan_lines file)"

section \<open>Port forwards\<close>

definition ParseForwardPort :: "string \<Rightarrow> (string \<times> string) option" where
  "ParseForwardPort value =
     (let count = count_byte value CHR '':''; data = split_on CHR '':'' value
      in if count = 3 then Some (data ! 0 @ '':'' @ data ! 1, data ! 2 @ '':'' @ data ! 3)
         else if count = 2 then
           (case atoi (data ! 0) of
              Some _ \<Rightarrow> Some (''localhost:'' @ data ! 0, data ! 1 @ '':'' @ data ! 2)
            | None \<Rightarrow> Some (data ! 0 @ '':'' @ data ! 1, ''localhost:'' @ data ! 2))
         else None)"

section \<open>Short options\<close>

text \<open>The flags of urfave/cli by the only thing the loop asks: whether they take a string.\<close>

datatype flag_kind = StringFlag | StringSliceFlag | OtherFlag

fun takes_string :: "flag_kind \<Rightarrow> bool" where
  "takes_string StringFlag = True"
| "takes_string StringSliceFlag = True"
| "takes_string OtherFlag = False"

definition option_key :: "string \<Rightarrow> string" where
  "option_key n = (if length n = 1 then ''-'' @ n else ''--'' @ n)"

fun add_names :: "flag_kind \<Rightarrow> string list \<Rightarrow> (string \<rightharpoonup> flag_kind) \<Rightarrow> (string \<rightharpoonup> flag_kind)" where
  "add_names op [] m = m"
| "add_names op (n # ns) m = add_names op ns (m(option_key n \<mapsto> op))"

fun option_map :: "(string \<times> flag_kind) list \<Rightarrow> (string \<rightharpoonup> flag_kind) \<Rightarrow> (string \<rightharpoonup> flag_kind)" where
  "option_map [] m = m"
| "option_map ((names, op) # ops) m = option_map ops (add_names op (split_on CHR '','' names) m)"

text \<open>\<open>optionReg\<close> is \<open>^-\<close>, \<open>parseReg\<close> is \<open>^-[^-]{2,}\<close>.\<close>

definition optionReg :: "string \<Rightarrow> bool" where
  "optionReg arg \<longleftrightarrow> prefix ''-'' arg"

definition parseReg :: "string \<Rightarrow> bool" where
  "parseReg arg \<longleftrightarrow> prefix ''-'' arg
     \<and> (case to_runes (tl arg) of a # b # _ \<Rightarrow> a \<noteq> 45 \<and> b \<noteq> 45 | _ \<Rightarrow> False)"

definition valued :: "(string \<rightharpoonup> flag_kind) \<Rightarrow> string \<Rightarrow> bool" where
  "valued om s = (case om s of Some k \<Rightarrow> takes_string k | None \<Rightarrow> False)"

definition short_opts :: "string \<Rightarrow> string list" where
  "short_opts arg = map (\<lambda>(r, b). ''-'' @ b) (runes (tl arg))"

fun parse_loop :: "(string \<rightharpoonup> flag_kind) \<Rightarrow> bool \<Rightarrow> string list \<Rightarrow> string list" where
  "parse_loop om isOptionArgs [] = []"
| "parse_loop om isOptionArgs (arg # rest) =
     (if \<not> optionReg arg \<and> \<not> isOptionArgs then arg # rest
      else if \<not> optionReg arg then arg # parse_loop om isOptionArgs rest
      else if parseReg arg
      then short_opts arg @ parse_loop om (isOptionArgs \<or> list_ex (valued om) (short_opts arg)) rest
      else arg # parse_loop om (isOptionArgs \<or> valued om arg) rest)"

definition ParseArgs :: "(string \<times> flag_kind) list \<Rightarrow> string list \<Rightarrow> string list outcome" where
  "ParseArgs options args =
     (case args of [] \<Rightarrow> Panic
      | a # rest \<Rightarrow> Done (a # parse_loop (option_map options Map.empty) False rest))"

section \<open>Argument checks (package check)\<close>

fun exist_loop :: "string list \<Rightarrow> string \<Rightarrow> bool" where
  "exist_loop [] nv = False"
| "exist_loop (iv # ivs) nv = (if nv = iv then True else exist_loop ivs nv)"

definition ExistServer :: "string list \<Rightarrow> string list \<Rightarrow> bool" where
  "ExistServer inputServer nameList = list_ex (exist_loop inputServer) nameList"

definition replaceUserHome :: "string \<Rightarrow> string" where
  "replaceUserHome s = (if has_prefix s ''~'' then CHR ''.'' # tl s else s)"

definition ParseScpPath :: "string \<Rightarrow> (bool \<times> string) outcome" where
  "ParseScpPath arg =
     (case split2 arg '':'' of
        [location, path] \<Rightarrow>
          (let pathType = to_lower ascii_lower location
           in if pathType = ''local'' \<or> pathType = ''l'' then Done (False, path)
              else if pathType = ''remote'' \<or> pathType = ''r'' then Done (True, replaceUserHome path)
              else Exit 1)
      | argArray \<Rightarrow> Done (False, hd argArray))"

definition EscapePath :: "string \<Rightarrow> string" where
  "EscapePath str =
     replace_all (replace_all (replace_all str [CHR 0x5C] [CHR 0x5C, CHR 0x5C])
       '';'' [CHR 0x5C, CHR '';'']) '' '' [CHR 0x5C, CHR '' '']"

text \<open>\<open>Done ()\<close> when the function returns.\<close>

definition TypeError :: "bool \<Rightarrow> bool \<Rightarrow> bool \<Rightarrow> nat \<Rightarrow> unit outcome" where
  "TypeError isFromInRemote isFromInLocal isToRemote countHosts =
     (if isFromInRemote \<and> isFromInLocal then Exit 1
      else if \<not> isFromInRemote \<and> \<not> isToRemote then Exit 1
      else if isFromInRemote \<and> isToRemote \<and> countHosts \<noteq> 0 then Exit 1
      else Done ())"

text \<open>A passphrase without an error is not empty.\<close>

lemma GetPassPhrase_nonempty: "GetPassPhrase tty = Done (s, None) \<Longrightarrow> s \<noteq> []"
  by (auto simp: GetPassPhrase_def split: option.splits if_splits)

section \<open>Lists without duplicates\<close>

text \<open>The contract of a function that keeps the first occurrence of every value.\<close>

locale dedup =
  fixes uniq :: "string list \<Rightarrow> string list"
  assumes uniq_Nil: "uniq [] = []"
    and uniq_snoc: "uniq (xs @ [x]) = (if x \<in> set xs then uniq xs else uniq xs @ [x])"
begin

lemma uniq_set: "set (uniq xs) = set xs"
  by (induction xs rule: rev_induct) (auto simp: uniq_Nil uniq_snoc)

lemma uniq_distinct: "distinct (uniq xs)"
  by (induction xs rule: rev_induct) (auto simp: uniq_Nil uniq_snoc uniq_set)

lemma uniq_fixed: "distinct xs \<Longrightarrow> uniq xs = xs"
  by (induction xs rule: rev_induct) (auto simp: uniq_Nil uniq_snoc)

lemma uniq_idem: "uniq (uniq xs) = uniq xs"
  by (rule uniq_fixed) (rule uniq_distinct)

lemma uniq_append: "uniq (xs @ ys) = uniq xs @ filter (\<lambda>y. y \<notin> set xs) (uniq ys)"
proof (induction ys rule: rev_induct)
  case (snoc y ys)
  then show ?case
    using uniq_snoc [of "xs @ ys" y] by (auto simp: uniq_snoc uniq_set)
qed (simp add: uniq_Nil)

lemma uniq_subseq: "subseq (uniq xs) xs"
  by (induction xs rule: rev_induct) (auto simp: uniq_Nil uniq_snoc intro: subseq_rev_drop_many list_emb_append_mono)

end

lemma unique_loop_snoc:
  "unique_loop m r (xs @ [x]) =
   (if m x \<or> x \<in> set xs then unique_loop m r xs else unique_loop m r xs @ [x])"
  by (induction xs arbitrary: m r) auto

interpretation slice: dedup GetUniqueSlice
  by unfold_locales (auto simp: GetUniqueSlice_def unique_loop_snoc)

section \<open>Merging\<close>

lemma MapReduce_absent: "k \<notin> fst ` set es \<Longrightarrow> MapReduce es m2 = Done m \<Longrightarrow> m k = m2 k"
proof (induction es m2 rule: MapReduce.induct)
  case (2 ia va es m2)
  then show ?case by (fastforce simp: obind_Done_iff)
qed simp

lemma MapReduce_key:
  "distinct (map fst es) \<Longrightarrow> MapReduce es m2 = Done m \<Longrightarrow> (k, v) \<in> set es \<Longrightarrow>
   reduce_val v (m2 k) = Done (m k)"
proof (induction es m2 rule: MapReduce.induct)
  case (2 ia va es m2)
  from "2.prems"(2) obtain r where r: "reduce_val va (m2 ia) = Done r" "MapReduce es (m2(ia := r)) = Done m"
    by (auto simp: obind_Done_iff)
  show ?case
  proof (cases "(k, v) = (ia, va)")
    case True
    then show ?thesis using r MapReduce_absent [OF _ r(2), of ia] "2.prems"(1) by auto
  next
    case False
    with "2.prems" have "(k, v) \<in> set es" "k \<noteq> ia" by force+
    with "2.IH" [OF _ r(2)] "2.prems"(1) show ?thesis by auto
  qed
qed simp

text \<open>Two values of the same field of one struct.\<close>

fun same_kind :: "gval \<Rightarrow> gval \<Rightarrow> bool" where
  "same_kind (VStr _) (VStr _) = True"
| "same_kind (VList _) (VList _) = True"
| "same_kind (VBool _) (VBool _) = True"
| "same_kind (VOther _) (VOther _) = True"
| "same_kind _ _ = False"

definition zero_val :: "gval \<Rightarrow> bool" where
  "zero_val v \<longleftrightarrow> v = VStr [] \<or> v = VList [] \<or> v = VBool False"

lemma reduce_same_kind:
  "same_kind v w \<Longrightarrow> reduce_val v (Some w) = Done (Some (if zero_val w then v else w))"
  by (cases "(v, w)" rule: same_kind.cases) (auto simp: reduce_val_def zero_val_def)

lemma MapReduce_total:
  "distinct (map fst es) \<Longrightarrow> \<forall>(k, v) \<in> set es. \<exists>w. m2 k = Some w \<and> same_kind v w \<Longrightarrow>
   \<exists>m. MapReduce es m2 = Done m"
proof (induction es m2 rule: MapReduce.induct)
  case (2 ia va es m2)
  then obtain w where w: "m2 ia = Some w" "same_kind va w" by auto
  have "\<forall>(k, v) \<in> set es. \<exists>w'. (m2(ia := Some (if zero_val w then va else w))) k = Some w' \<and> same_kind v w'"
    using "2.prems" by force
  with "2.IH" [of "Some (if zero_val w then va else w)"] "2.prems"(1)
  have "\<exists>m. MapReduce es (m2(ia := Some (if zero_val w then va else w))) = Done m"
    by (simp del: fun_upd_apply)
  with w show ?case by (auto simp: reduce_same_kind simp del: fun_upd_apply)
qed simp

section \<open>Short options\<close>

text \<open>What the loop makes of one word.\<close>

definition expand_arg :: "string \<Rightarrow> string list" where
  "expand_arg arg = (if parseReg arg then short_opts arg else [arg])"

lemma parseReg_option: "parseReg arg \<Longrightarrow> optionReg arg"
  by (simp add: parseReg_def optionReg_def)

lemma parse_loop_valued: "parse_loop om True rest = concat (map expand_arg rest)"
  by (induction rest) (auto simp: expand_arg_def dest: parseReg_option)

lemma short_opts_single:
  assumes "s \<in> set (short_opts arg)"
  shows "optionReg s" and "\<not> parseReg s"
  using assms runes_chunk by (auto simp: short_opts_def optionReg_def parseReg_def to_runes_def)

lemma parse_loop_singles:
  "\<forall>s \<in> set ss. optionReg s \<and> \<not> parseReg s \<Longrightarrow>
   parse_loop om b (ss @ rest) = ss @ parse_loop om (b \<or> list_ex (valued om) ss) rest"
  by (induction ss arbitrary: b) (auto simp: disj_assoc)

lemma parse_loop_idem: "parse_loop om b (parse_loop om b xs) = parse_loop om b xs"
proof (induction om b xs rule: parse_loop.induct)
  case (2 om b arg rest)
  then show ?case
    using short_opts_single [of _ arg] by (cases b; cases "parseReg arg") (simp_all add: parse_loop_singles)
qed simp

section \<open>Escaping\<close>

lemma replace_all_char:
  "replace_all s [c] new = concat (map (\<lambda>x. if x = c then new else [x]) s)"
proof -
  have "replace_from [c] new s = concat (map (\<lambda>x. if x = c then new else [x]) s)"
    by (induction "[c]" new s rule: replace_from.induct) auto
  then show ?thesis by (simp add: replace_all_def)
qed

definition escaped :: "char \<Rightarrow> bool" where
  "escaped c \<longleftrightarrow> c = CHR 0x5C \<or> c = CHR '';'' \<or> c = CHR '' ''"

lemma EscapePath_chars:
  "EscapePath s = concat (map (\<lambda>c. if escaped c then [CHR 0x5C, c] else [c]) s)"
  unfolding EscapePath_def replace_all_char by (induction s) (auto simp: escaped_def)

text \<open>What a shell reads back: a backslash quotes the character after it.\<close>

fun unescape :: "string \<Rightarrow> string" where
  "unescape [] = []"
| "unescape [c] = [c]"
| "unescape (c # d # s) = (if c = CHR 0x5C then d # unescape s else c # unescape (d # s))"

lemma unescape_cons: "c \<noteq> CHR 0x5C \<Longrightarrow> unescape (c # s) = c # unescape s"
  by (cases s) auto

section \<open>passwd files\<close>

lemma scan_lines_concat:
  assumes "\<forall>l \<in> set ls. newline \<notin> set l \<and> \<not> suffix [CHR 0x0D] l"
  shows "scan_lines (concat (map (\<lambda>l. l @ [newline]) ls)) = ls"
proof -
  have split: "split_on newline (concat (map (\<lambda>l. l @ [newline]) ls)) = ls @ [[]]"
    using assms by (induction ls) (auto simp: split_on_append)
  have "map (\<lambda>l. trim_suffix l [CHR 0x0D]) ls = ls"
    using assms by (induction ls) (auto simp: trim_suffix_def)
  with split show ?thesis by (simp add: scan_lines_def)
qed

text \<open>An entry \<open>name:pw:uid:rest\<close>.\<close>

type_synonym pw_entry = "string \<times> string \<times> nat \<times> string"

fun pw_line :: "pw_entry \<Rightarrow> string" where
  "pw_line (name, pw, uid, rest) = name @ '':'' @ pw @ '':'' @ format_uint uid @ '':'' @ rest"

fun pw_ok :: "pw_entry \<Rightarrow> bool" where
  "pw_ok (name, pw, uid, rest) \<longleftrightarrow>
     CHR '':'' \<notin> set name \<and> CHR '':'' \<notin> set pw
     \<and> newline \<notin> set name \<and> newline \<notin> set pw \<and> newline \<notin> set rest
     \<and> \<not> suffix [CHR 0x0D] rest \<and> uid < 2 ^ 32"

definition pw_file :: "pw_entry list \<Rightarrow> string" where
  "pw_file es = concat (map (\<lambda>l. l @ [newline]) (map pw_line es))"

lemma format_uint_not: "c \<in> set (format_uint n) \<Longrightarrow> c \<noteq> CHR '':'' \<and> c \<noteq> newline"
  using format_uint_digits [of c n] by (auto simp: is_digit_def byte_def newline_def)

lemma split_pw_line:
  "pw_ok (name, pw, uid, rest) \<Longrightarrow>
   split_on CHR '':'' (pw_line (name, pw, uid, rest)) = name # pw # format_uint uid # split_on CHR '':'' rest"
proof -
  assume ok: "pw_ok (name, pw, uid, rest)"
  have "CHR '':'' \<notin> set (format_uint uid)" using format_uint_not by blast
  with ok show ?thesis by (simp add: split_on_append)
qed

lemma scan_pw_file:
  assumes "\<forall>e \<in> set es. pw_ok e"
  shows "scan_lines (pw_file es) = map pw_line es"
proof -
  have "newline \<notin> set (pw_line e) \<and> \<not> suffix [CHR 0x0D] (pw_line e)" if "e \<in> set es" for e
  proof -
    obtain name pw uid rest where e: "e = (name, pw, uid, rest)" by (cases e) auto
    with assms that have ok: "pw_ok (name, pw, uid, rest)" by auto
    have "suffix [CHR 0x0D] (pw_line e) \<Longrightarrow> suffix [CHR 0x0D] rest"
      unfolding e by (cases rest rule: rev_cases) (auto simp: suffix_def)
    with ok format_uint_not [of newline uid] show ?thesis by (auto simp: e newline_def)
  qed
  then show ?thesis unfolding pw_file_def by (intro scan_lines_concat) auto
qed

lemma parse_uint_format: "n < 2 ^ 32 \<Longrightarrow> parse_uint (format_uint n) 10 32 = (n, None)"
  by (simp add: parse_uint_def digits_val_format)

lemma format_uint_inj: "format_uint a = format_uint b \<Longrightarrow> a = b"
  by (metis digits_val_format option.inject)

lemma id_loop_pw:
  assumes "\<forall>e \<in> set es. pw_ok e" and "distinct (map fst es)" and "(name, pw, uid, rest) \<in> set es"
  shows "id_from_name_loop name (map pw_line es) = Done (Some uid)"
  using assms
proof (induction es)
  case (Cons e es)
  obtain n p u r where e: "e = (n, p, u, r)" by (cases e) auto
  with Cons.prems have ok: "pw_ok (n, p, u, r)" by auto
  then have "u < 2 ^ 32" by simp
  show ?case
  proof (cases "n = name")
    case True
    with Cons.prems e have "(n, p, u, r) = (name, pw, uid, rest)" by force
    with ok e show ?thesis
      by (simp add: split_pw_line go_index_def parse_uint_format del: pw_line.simps)
  next
    case False
    with Cons e ok show ?thesis by (auto simp: split_pw_line simp del: pw_line.simps)
  qed
qed simp

lemma name_loop_pw:
  assumes "\<forall>e \<in> set es. pw_ok e" and "distinct (map (fst \<circ> snd \<circ> snd) es)" and "(name, pw, uid, rest) \<in> set es"
  shows "name_from_id_loop (format_uint uid) (map pw_line es) = Done (Some name)"
  using assms
proof (induction es)
  case (Cons e es)
  obtain n p u r where e: "e = (n, p, u, r)" by (cases e) auto
  with Cons.prems have ok: "pw_ok (n, p, u, r)" by auto
  show ?case
  proof (cases "u = uid")
    case True
    with Cons.prems e have "(n, p, u, r) = (name, pw, uid, rest)" by force
    with ok e show ?thesis by (simp add: split_pw_line go_index_def del: pw_line.simps)
  next
    case False
    with Cons e ok show ?thesis
      by (auto simp: split_pw_line go_index_def dest: format_uint_inj simp del: pw_line.simps)
  qed
qed simp

section \<open>Properties\<close>

text \<open>Once an option that takes a string has been read, the split of short options never
  stops: the first word that is not an option does not end it, so the words of the remote
  command after the option's value are split too.\<close>

theorem valued_option_never_ends:
  assumes "optionReg opt" and "\<not> parseReg opt" and "valued (option_map options Map.empty) opt"
  shows "ParseArgs options (prog # opt # rest) = Done (prog # opt # concat (map expand_arg rest))"
  using assms by (simp add: ParseArgs_def parse_loop_valued)

lemma valued_option_never_ends_witness:
  "ParseArgs [(''host,H'', StringSliceFlag)] [''bssh'', ''-H'', ''web1'', ''tar'', ''-xzf'', ''a.tgz'']
   = Done [''bssh'', ''-H'', ''web1'', ''tar'', ''-x'', ''-z'', ''-f'', ''a.tgz'']"
proof -
  have opt: "optionReg ''-H''" "\<not> parseReg ''-H''" "valued (option_map [(''host,H'', StringSliceFlag)] Map.empty) ''-H''"
    by (simp_all add: optionReg_def parseReg_def valued_def option_key_def to_runes_def runes_ascii ascii_def)
  have "map expand_arg [''web1'', ''tar'', ''-xzf'', ''a.tgz'']
      = [[''web1''], [''tar''], [''-x'', ''-z'', ''-f''], [''a.tgz'']]"
    by (simp add: expand_arg_def parseReg_def short_opts_def to_runes_def runes_ascii ascii_def byte_def)
  then show ?thesis
    by (subst valued_option_never_ends [OF opt]) simp
qed

text \<open>Splitting short options is idempotent: the words it returns are no longer combined, and
  the second pass stops at the same word.\<close>

theorem ParseArgs_idempotent:
  "obind (ParseArgs options args) (ParseArgs options) = ParseArgs options args"
  by (cases args) (simp_all add: ParseArgs_def parse_loop_idem)

text \<open>A forward specification of four fields is local address and remote address; of three
  fields the missing host is localhost, on the local side when the first field is a number and
  on the remote side otherwise; any other number of fields is an error.\<close>

theorem ParseForwardPort_spec:
  assumes "\<forall>f \<in> set fs. CHR '':'' \<notin> set f" and "fs \<noteq> []"
  shows "ParseForwardPort (str_join fs '':'') =
     (case fs of
        [a, b, c, d] \<Rightarrow> Some (a @ '':'' @ b, c @ '':'' @ d)
      | [a, b, c] \<Rightarrow> Some (if atoi a \<noteq> None then (''localhost:'' @ a, b @ '':'' @ c)
                           else (a @ '':'' @ b, ''localhost:'' @ c))
      | _ \<Rightarrow> None)"
proof -
  have sp: "split_on CHR '':'' (str_join fs '':'') = fs" by (rule split_on_join [OF assms(2,1)])
  then have cnt: "Suc (count_byte (str_join fs '':'') CHR '':'') = length fs"
    by (metis length_split_on)
  consider "length fs = 4" | "length fs = 3" | "length fs \<noteq> 3" "length fs \<noteq> 4"
    by blast
  then show ?thesis
  proof cases
    case 1
    then obtain a b c d where "fs = [a, b, c, d]"
      by (auto simp: numeral_eq_Suc length_Suc_conv)
    with sp cnt show ?thesis by (simp add: ParseForwardPort_def Let_def)
  next
    case 2
    then obtain a b c where "fs = [a, b, c]"
      by (auto simp: numeral_eq_Suc length_Suc_conv)
    with sp cnt show ?thesis by (simp add: ParseForwardPort_def Let_def split: option.split)
  next
    case 3
    with cnt have "ParseForwardPort (str_join fs '':'') = None" by (simp add: ParseForwardPort_def Let_def)
    with 3 show ?thesis by (auto split: list.split)
  qed
qed

lemma ParseForwardPort_spec_witness:
  "ParseForwardPort ''8080:web:80'' = Some (''localhost:8080'', ''web:80'')"
proof -
  have "atoi ''8080'' \<noteq> None" by (simp add: atoi_def digits_val_def is_digit_def byte_def digit_val_def)
  with ParseForwardPort_spec [of "[''8080'', ''web'', ''80'']"] show ?thesis by simp
qed

text \<open>The lookups in \<open>/etc/passwd\<close> are inverse to each other: in a file of
  well-formed entries with distinct names and distinct ids, the id found for a name is its id, and
  the name found for that id is the name.\<close>

theorem passwd_round_trip:
  assumes "\<forall>e \<in> set es. pw_ok e" and "distinct (map fst es)" and "distinct (map (fst \<circ> snd \<circ> snd) es)"
    and "(name, pw, uid, rest) \<in> set es"
  shows "GetIDFromName (pw_file es) name = Done (Some uid) \<and> GetNameFromID (pw_file es) uid = Done (Some name)"
  using id_loop_pw [OF assms(1,2,4)] name_loop_pw [OF assms(1,3,4)]
  by (simp add: GetIDFromName_def GetNameFromID_def scan_pw_file assms(1))

definition demo_passwd :: "pw_entry list" where
  "demo_passwd = [(''root'', ''x'', 0, ''0:root:/root:/bin/sh''), (''app'', ''x'', 1000, ''1000::/home/app:/bin/sh'')]"

lemma passwd_round_trip_witness:
  "GetIDFromName (pw_file demo_passwd) ''app'' = Done (Some 1000) \<and> GetNameFromID (pw_file demo_passwd) 1000 = Done (Some ''app'')"
proof -
  have "(\<forall>e \<in> set demo_passwd. pw_ok e) \<and> distinct (map fst demo_passwd)
      \<and> distinct (map (fst \<circ> snd \<circ> snd) demo_passwd) \<and> (''app'', ''x'', 1000, ''1000::/home/app:/bin/sh'') \<in> set demo_passwd"
    by (simp add: demo_passwd_def newline_def suffix_def)
  then show ?thesis using passwd_round_trip by blast
qed

text \<open>Escaping a path loses nothing: a shell that removes one backslash before each quoted
  character reads the path back.\<close>

theorem unescape_EscapePath: "unescape (EscapePath s) = s"
proof (induction s)
  case (Cons c s)
  have "EscapePath (c # s) = (if escaped c then [CHR 0x5C, c] else [c]) @ EscapePath s"
    by (simp add: EscapePath_chars)
  with Cons show ?case
    using unescape_cons [of c "EscapePath s"] by (auto simp: escaped_def)
qed (simp add: EscapePath_chars)

text \<open>Hidden files below the top level are not hidden: whatever dotted names lie deeper in
  the path, \<open>IsHidden\<close> only looks at the first character of the relative path (it splits
  at colons instead of slashes).\<close>

theorem nested_hidden_not_hidden:
  assumes "plain cs" and "plain (d # ds)" and "\<forall>w \<in> set (d # ds). CHR '':'' \<notin> set w" and "hd d \<noteq> CHR ''.''"
  shows "\<not> IsHidden (path_render r cs) (path_render r (cs @ d # ds))"
proof -
  have r: "path_rel (path_render r cs) (path_render r (cs @ d # ds)) = Some (str_join (d # ds) ''/'')"
    using path_rel_render [OF assms(1,2), of r] by simp
  have "CHR '':'' \<notin> set (str_join es ''/'')" if "\<forall>w \<in> set es. CHR '':'' \<notin> set w" for es
    using that by (induction es rule: induct_list012) auto
  with assms(3) have c: "CHR '':'' \<notin> set (str_join (d # ds) ''/'')" by blast
  have d: "d \<noteq> []" using assms(2) by (simp add: plain_def good_comp_def)
  then have "str_join (d # ds) ''/'' \<noteq> []" "hd (str_join (d # ds) ''/'') = hd d"
    by (cases ds; simp)+
  with c assms(4) show ?thesis
    by (simp add: IsHidden_def r split_list_def split_on_absent)
qed

lemma nested_hidden_not_hidden_witness:
  "\<not> IsHidden ''/home/u'' ''/home/u/src/.git/config''"
  using nested_hidden_not_hidden [of "[''home'', ''u'']" "''src''" "[''.git'', ''config'']" True]
  by (simp add: path_render_def plain_def good_comp_def)

text \<open>The servers kept for a connection: every name once, all names, in the order of their
  first occurrence.\<close>

theorem GetUniqueSlice_spec:
  "distinct (GetUniqueSlice xs) \<and> set (GetUniqueSlice xs) = set xs \<and> subseq (GetUniqueSlice xs) xs
   \<and> GetUniqueSlice (xs @ ys) = GetUniqueSlice xs @ filter (\<lambda>y. y \<notin> set xs) (GetUniqueSlice ys)"
  using slice.uniq_distinct slice.uniq_set slice.uniq_subseq slice.uniq_append by blast

end
