(* ===== verification/List_View.thy ===== *)
theory List_View
  imports Go_Machine
begin

text \<open>
  The terminal list of package \<open>list\<close> (src/list): the record \<open>Info\<close>, the selection
  operations (\<open>arrayContains\<close>, \<open>toggle\<close>, \<open>allToggle\<close>), the incremental
  search (\<open>getFilterText\<close>, \<open>InsertRune\<close>, \<open>DeleteRune\<close>), the page drawn by
  \<open>draw\<close>, and the event loop \<open>keyEvent\<close> as a step function on the state
  and the events of termbox.
\<close>

section \<open>The state\<close>

text \<open>
  \<open>Info\<close> without the callback \<open>RowFn\<close> and the colours; \<open>flag_all\<close> is the local
  variable \<open>allFlag\<close> of \<open>keyEvent\<close> and \<open>height\<close> its local \<open>height\<close> (the
  number of rows below the two head lines).
\<close>

record info =
  Prompt :: string
  Title :: string
  NameList :: "string list"
  SelectName :: "string list"
  DataText :: "string list"
  ViewText :: "string list"
  MultiFlag :: bool
  Keyword :: string
  CursorLine :: int

section \<open>Selection\<close>

fun arrayContains :: "string list \<Rightarrow> string \<Rightarrow> bool" where
  "arrayContains [] str = False"
| "arrayContains (v # vs) str = (if v = str then True else arrayContains vs str)"

text \<open>\<open>toggle\<close>: the loop over \<open>SelectName\<close> with \<open>tmpList\<close> and \<open>addFlag\<close>.\<close>

fun toggle_loop :: "string list \<Rightarrow> string \<Rightarrow> string list \<Rightarrow> bool \<Rightarrow> string list \<times> bool" where
  "toggle_loop [] newLine tmpList addFlag = (tmpList, addFlag)"
| "toggle_loop (selectedLine # rest) newLine tmpList addFlag =
     (if selectedLine \<noteq> newLine then toggle_loop rest newLine (tmpList @ [selectedLine]) addFlag
      else toggle_loop rest newLine tmpList False)"

definition toggle_names :: "string list \<Rightarrow> string \<Rightarrow> string list" where
  "toggle_names sel newLine =
     (let (tmpList, addFlag) = toggle_loop sel newLine [] True
      in if addFlag then tmpList @ [newLine] else tmpList)"

definition toggle :: "info \<Rightarrow> string \<Rightarrow> info" where
  "toggle l newLine = l\<lparr>SelectName := toggle_names (SelectName l) newLine\<rparr>"

text \<open>\<open>strings.Fields(line)[0]\<close>: a panic on a blank line.\<close>

definition first_field :: "string \<Rightarrow> string outcome" where
  "first_field line = go_index (go_fields line) 0"

fun all_toggle_loop :: "bool \<Rightarrow> string list \<Rightarrow> info \<Rightarrow> info outcome" where
  "all_toggle_loop allFlag [] l = Done l"
| "all_toggle_loop allFlag (addLine # rest) l =
     obind (first_field addLine) (\<lambda>addName.
       all_toggle_loop allFlag rest
         (if allFlag \<or> \<not> arrayContains (SelectName l) addName then toggle l addName else l))"

text \<open>\<open>l.ViewText[1:]\<close> is a panic on an empty slice.\<close>

definition allToggle :: "info \<Rightarrow> bool \<Rightarrow> info outcome" where
  "allToggle l allFlag =
     (if ViewText l = [] then Panic else all_toggle_loop allFlag (tl (ViewText l)) l)"

section \<open>The text and the filter\<close>

text \<open>\<open>SetTitle\<close>.\<close>

definition SetTitle :: "info \<Rightarrow> string list \<Rightarrow> info" where
  "SetTitle l titleColumns = l\<lparr>Title := concat (map (\<lambda>col. col @ [CHR 0x09]) titleColumns)\<rparr>"

text \<open>
  \<open>getFilterText\<close>. Every keyword, lower-cased, is quoted and matched as a regular
  expression, which is a substring test. The loop narrows \<open>r\<close> keyword by keyword.
\<close>

definition keyword_matches :: "(nat \<Rightarrow> nat) \<Rightarrow> string \<Rightarrow> string \<Rightarrow> bool" where
  "keyword_matches ul kw line = contains (to_lower ul line) (to_lower ul kw)"

fun filter_loop :: "(nat \<Rightarrow> nat) \<Rightarrow> string list \<Rightarrow> string list \<Rightarrow> string list" where
  "filter_loop ul [] r = r"
| "filter_loop ul (kw # kws) r = filter_loop ul kws (filter (keyword_matches ul kw) r)"

definition getFilterText :: "(nat \<Rightarrow> nat) \<Rightarrow> info \<Rightarrow> info outcome" where
  "getFilterText ul l =
     (let keywords = go_fields (Keyword l)
      in case DataText l of
           [] \<Rightarrow> Panic
         | head # r \<Rightarrow>
             Done (if keywords = [] then l\<lparr>ViewText := DataText l\<rparr>
                   else l\<lparr>ViewText := head # filter_loop ul keywords r\<rparr>))"

definition InsertRune :: "info \<Rightarrow> nat \<Rightarrow> info" where
  "InsertRune l r = l\<lparr>Keyword := Keyword l @ encode_rune r\<rparr>"

text \<open>\<open>DeleteRune\<close>: \<open>sc[:len(sc)-1]\<close> is a panic on an empty keyword.\<close>

definition DeleteRune :: "info \<Rightarrow> info outcome" where
  "DeleteRune l =
     (let sc = to_runes (Keyword l)
      in if sc = [] then Panic else Done (l\<lparr>Keyword := of_runes (butlast sc)\<rparr>))"

section \<open>Drawing and the event loop\<close>

text \<open>
  The page of \<open>draw\<close>, with \<open>termHeight\<close> the second result of \<open>termbox.Size()\<close>:
  the lines given to \<open>drawViewList\<close> and the index of the highlighted one. A terminal of
  two lines makes the division panic.
\<close>

definition headLine :: int where
  "headLine = 2"

definition draw :: "int \<Rightarrow> info \<Rightarrow> (string list \<times> int) outcome" where
  "draw termHeight l =
     (let height = termHeight - headLine; n = int (length (ViewText l))
      in if height = 0 then Panic
         else let firstLine = go_div (CursorLine l) height * height + 1;
                  lastLine = firstLine + height
              in obind (if lastLine > n then go_slice (ViewText l) firstLine n
                        else go_slice (ViewText l) firstLine lastLine)
                   (\<lambda>viewList.
                      if ViewText l = [] then Panic
                      else Done (viewList, CursorLine l - firstLine + 1)))"

datatype key =
    KeyEsc | KeyCtrlC | KeyArrowUp | KeyArrowDown | KeyArrowRight | KeyArrowLeft | KeyTab
  | KeyCtrlA | KeyEnter | KeyBackspace | KeyBackspace2 | KeySpace | MouseLeft | OtherKey

datatype event = EventKey key nat | EventMouse key int | EventOther

record view_state =
  vinfo :: info
  allFlag :: bool
  vheight :: int

type_synonym step_result = "view_state + info"

definition redraw :: "int \<Rightarrow> view_state \<Rightarrow> step_result outcome" where
  "redraw termHeight st = obind (draw termHeight (vinfo st)) (\<lambda>_. Done (Inl st))"

definition set_cursor :: "view_state \<Rightarrow> int \<Rightarrow> view_state" where
  "set_cursor st c = st\<lparr>vinfo := (vinfo st)\<lparr>CursorLine := c\<rparr>\<rparr>"

text \<open>
  One iteration of the \<open>for\<close> loop: the terminal height seen by \<open>draw\<close>, the event, the
  state before.
\<close>

fun key_step :: "(nat \<Rightarrow> nat) \<Rightarrow> int \<Rightarrow> event \<Rightarrow> view_state \<Rightarrow> step_result outcome" where
  "key_step ul th (EventKey k ch) st =
     (let l = vinfo st; n = int (length (ViewText l)); height = vheight st in
      case k of
        KeyEsc \<Rightarrow> Exit 0
      | KeyCtrlC \<Rightarrow> Exit 0
      | KeyArrowUp \<Rightarrow>
          redraw th (set_cursor st (if CursorLine l > 0 then CursorLine l - 1 else n - headLine))
      | KeyArrowDown \<Rightarrow>
          redraw th (set_cursor st (if CursorLine l < n - headLine then CursorLine l + 1 else 0))
      | KeyArrowRight \<Rightarrow>
          if height = 0 then Panic
          else let nextPosition = go_div (CursorLine l + height) height * height
               in redraw th (if nextPosition + 2 \<le> n then set_cursor st nextPosition else st)
      | KeyArrowLeft \<Rightarrow>
          if height = 0 then Panic
          else let beforePosition = go_div (CursorLine l - height) height * height
               in redraw th (if beforePosition \<ge> 0 then set_cursor st beforePosition else st)
      | KeyTab \<Rightarrow>
          obind (if MultiFlag l
                 then obind (go_index (ViewText l) (CursorLine l + 1)) (\<lambda>line.
                      obind (first_field line) (\<lambda>name. Done (toggle l name)))
                 else Done l)
            (\<lambda>l'. redraw th (st\<lparr>vinfo :=
                 (if CursorLine l' < n - headLine then l'\<lparr>CursorLine := CursorLine l' + 1\<rparr>
                  else l')\<rparr>))
      | KeyCtrlA \<Rightarrow>
          if MultiFlag l
          then obind (allToggle l (allFlag st)) (\<lambda>l'.
                 redraw th (st\<lparr>vinfo := l', allFlag := \<not> allFlag st\<rparr>))
          else redraw th st
      | KeyEnter \<Rightarrow>
          if SelectName l = []
          then obind (go_index (ViewText l) (CursorLine l + 1)) (\<lambda>line.
               obind (first_field line) (\<lambda>name. Done (Inr (l\<lparr>SelectName := [name]\<rparr>))))
          else Done (Inr l)
      | KeySpace \<Rightarrow> redraw th (st\<lparr>vinfo := l\<lparr>Keyword := Keyword l @ '' ''\<rparr>\<rparr>)
      | _ \<Rightarrow>
          if k = KeyBackspace \<or> k = KeyBackspace2
          then if Keyword l = [] then Done (Inl st)
               else obind (DeleteRune l) (\<lambda>l1. obind (getFilterText ul l1) (\<lambda>l2.
                 let n' = int (length (ViewText l2));
                     c1 = (if CursorLine l2 > n' then n' else CursorLine l2);
                     c2 = (if c1 < 0 then 0 else c1)
                 in redraw th (st\<lparr>vinfo := l2\<lparr>CursorLine := c2\<rparr>, allFlag := False\<rparr>)))
          else if ch = 0 then Done (Inl st)
          else obind (getFilterText ul (InsertRune l ch)) (\<lambda>l2.
                 let n' = int (length (ViewText l2));
                     c = (if CursorLine l2 > n' - headLine then n' - headLine else CursorLine l2)
                 in redraw th (st\<lparr>vinfo := l2\<lparr>CursorLine := c\<rparr>, allFlag := False\<rparr>)))"
| "key_step ul th (EventMouse k mouseY) st =
     (if k = MouseLeft
      then let mouseSelectLine = mouseY - headLine
           in redraw th
                (if mouseSelectLine \<le> int (length (ViewText (vinfo st))) - headLine
                 then set_cursor st mouseSelectLine else st)
      else Done (Inl st))"
| "key_step ul th EventOther st = redraw th st"

text \<open>The part of \<open>keyEvent\<close> before the loop, and the loop over a list of events.\<close>

definition key_init :: "(nat \<Rightarrow> nat) \<Rightarrow> int \<Rightarrow> info \<Rightarrow> view_state outcome" where
  "key_init ul termHeight l =
     obind (getFilterText ul (l\<lparr>CursorLine := 0, Keyword := []\<rparr>)) (\<lambda>l'.
       obind (draw termHeight l') (\<lambda>_.
         Done \<lparr>vinfo = l', allFlag = False, vheight = termHeight - headLine\<rparr>))"

definition key_run ::
  "(nat \<Rightarrow> nat) \<Rightarrow> (int \<times> event) list \<Rightarrow> view_state \<Rightarrow> step_result outcome" where
  "key_run ul = mrun (\<lambda>(th, ev). key_step ul th ev)"

section \<open>Words and keywords\<close>

fun rwords :: "nat list \<Rightarrow> nat list \<Rightarrow> nat list list" where
  "rwords [] w = (if w = [] then [] else [w])"
| "rwords (r # rs) w =
     (if is_space r then (if w = [] then rwords rs [] else w # rwords rs [])
      else rwords rs (w @ [r]))"

lemma of_runes_append [simp]: "of_runes (xs @ ys) = of_runes xs @ of_runes ys"
  by (simp add: of_runes_def)

lemma of_runes_Nil_iff [simp]: "of_runes xs = [] \<longleftrightarrow> xs = []"
  by (cases xs) (auto simp: of_runes_def)

lemma of_runes_single [simp]: "of_runes [r] = encode_rune r"
  by (simp add: of_runes_def)

lemma go_fields_aux_rwords:
  "go_fields_aux (map (\<lambda>r. (r, encode_rune r)) rs) (of_runes w) = map of_runes (rwords rs w)"
proof (induction rs w rule: rwords.induct)
  case (2 r rs w)
  then show ?case by (auto simp: of_runes_def)
qed auto

lemma go_fields_of_runes:
  "\<forall>r \<in> set rs. valid_rune r \<Longrightarrow> go_fields (of_runes rs) = map of_runes (rwords rs [])"
  using go_fields_aux_rwords [of rs "[]"]
  by (simp add: go_fields_def of_runes_def runes_encode)

lemma rwords_space: "is_space r \<Longrightarrow> rwords (rs @ [r]) w = rwords rs w"
  by (induction rs w rule: rwords.induct) auto

lemma rwords_extend:
  "\<not> is_space r \<Longrightarrow> v \<in> set (rwords rs w) \<Longrightarrow>
   v \<in> set (rwords (rs @ [r]) w) \<or> v @ [r] \<in> set (rwords (rs @ [r]) w)"
  by (induction rs w rule: rwords.induct) (auto split: if_splits)

lemma rwords_subset: "v \<in> set (rwords rs w) \<Longrightarrow> set v \<subseteq> set rs \<union> set w"
  by (induction rs w rule: rwords.induct) (fastforce split: if_splits)+

lemma to_lower_of_runes:
  "\<forall>r \<in> set v. valid_rune r \<Longrightarrow> to_lower ul (of_runes v) = of_runes (map ul v)"
  by (simp add: to_lower_def map_runes_def to_runes_of_runes)

lemma keyword_matches_extend:
  assumes v: "\<forall>r \<in> set (v @ [x]). valid_rune r"
    and m: "keyword_matches ul (of_runes (v @ [x])) line"
  shows "keyword_matches ul (of_runes v) line"
proof -
  have "to_lower ul (of_runes (v @ [x])) = to_lower ul (of_runes v) @ encode_rune (ul x)"
    using v by (subst (1 2) to_lower_of_runes) auto
  with m show ?thesis
    unfolding keyword_matches_def contains_iff_sublist 
    by (metis sublist_append_rightI sublist_order.order.trans)
qed

section \<open>The filter\<close>

lemma filter_loop_eq:
  "filter_loop ul kws r = filter (\<lambda>line. \<forall>kw \<in> set kws. keyword_matches ul kw line) r"
  by (induction ul kws r rule: filter_loop.induct) (auto simp: conj_commute)

definition view_of :: "(nat \<Rightarrow> nat) \<Rightarrow> string list \<Rightarrow> string \<Rightarrow> string list" where
  "view_of ul data kw =
     (case data of [] \<Rightarrow> []
      | head # r \<Rightarrow> head # filter (\<lambda>line. \<forall>w \<in> set (go_fields kw). keyword_matches ul w line) r)"

lemma getFilterText_view:
  "DataText l \<noteq> [] \<Longrightarrow>
   getFilterText ul l = Done (l\<lparr>ViewText := view_of ul (DataText l) (Keyword l)\<rparr>)"
  by (cases "DataText l") (auto simp: getFilterText_def view_of_def filter_loop_eq Let_def)

lemma encode_rune_space: "encode_rune 32 = '' ''"
  by code_simp

lemma view_of_space:
  "\<forall>r \<in> set rs. valid_rune r \<Longrightarrow> view_of ul data (of_runes rs @ '' '') = view_of ul data (of_runes rs)"
proof -
  assume v: "\<forall>r \<in> set rs. valid_rune r"
  have sp: "of_runes rs @ '' '' = of_runes (rs @ [32])"
    by (simp add: encode_rune_space)
  have "go_fields (of_runes (rs @ [32])) = go_fields (of_runes rs)"
    using v go_fields_of_runes [of "rs @ [32]"] go_fields_of_runes [of rs]
    by (simp add: valid_rune_def rwords_space is_space_def del: of_runes_append)
  then show ?thesis by (simp only: sp view_of_def)
qed

lemma view_of_extend:
  assumes v: "\<forall>r \<in> set (rs @ [x]). valid_rune r"
  shows "length (view_of ul data (of_runes (rs @ [x]))) \<le> length (view_of ul data (of_runes rs))"
proof (cases data)
  case (Cons h r)
  have imp: "\<forall>w \<in> set (go_fields (of_runes rs)). keyword_matches ul w line"
    if all: "\<forall>w \<in> set (go_fields (of_runes (rs @ [x]))). keyword_matches ul w line" for line
  proof (cases "is_space x")
    case True
    then show ?thesis using all v
      by (subst (asm) go_fields_of_runes) (auto simp: rwords_space go_fields_of_runes)
  next
    case False
    show ?thesis
    proof
      fix w assume "w \<in> set (go_fields (of_runes rs))"
      then obtain u where u: "u \<in> set (rwords rs [])" "w = of_runes u"
        using v by (auto simp: go_fields_of_runes)
      then have vu: "\<forall>r \<in> set (u @ [x]). valid_rune r"
        using v rwords_subset [of u rs "[]"] by auto
      have "of_runes u \<in> set (go_fields (of_runes (rs @ [x])))
          \<or> of_runes (u @ [x]) \<in> set (go_fields (of_runes (rs @ [x])))"
        using rwords_extend [OF False u(1)] v
        by (subst (1 2) go_fields_of_runes) (auto simp del: of_runes_append)
      then show "keyword_matches ul w line"
        using all keyword_matches_extend [OF vu] u(2) by auto
    qed
  qed
  have "length (filter (\<lambda>line. \<forall>w \<in> set (go_fields (of_runes (rs @ [x]))). keyword_matches ul w line) r)
     \<le> length (filter (\<lambda>line. \<forall>w \<in> set (go_fields (of_runes rs)). keyword_matches ul w line) r)"
    using imp by (induction r) auto
  with Cons show ?thesis by (simp add: view_of_def del: of_runes_append)
qed (simp add: view_of_def)

section \<open>The session invariant\<close>

text \<open>
  The view is the filter of the current keyword; the keyword is well-formed UTF-8; every line
  has a first word; the cursor is on a displayed row, or just beside the only head line.
\<close>

definition cursor_ok :: "int \<Rightarrow> int \<Rightarrow> bool" where
  "cursor_ok c n \<longleftrightarrow> (if n \<ge> 2 then 0 \<le> c \<and> c \<le> n - 2 else n = 1 \<and> (c = -1 \<or> c = 0))"

definition view_inv :: "(nat \<Rightarrow> nat) \<Rightarrow> view_state \<Rightarrow> bool" where
  "view_inv ul st \<longleftrightarrow>
     (let l = vinfo st in
        DataText l \<noteq> [] \<and> (\<forall>line \<in> set (DataText l). go_fields line \<noteq> [])
        \<and> ViewText l = view_of ul (DataText l) (Keyword l)
        \<and> (\<exists>rs. (\<forall>r \<in> set rs. valid_rune r) \<and> Keyword l = of_runes rs)
        \<and> cursor_ok (CursorLine l) (int (length (ViewText l)))
        \<and> 1 \<le> vheight st)"

fun keyboard :: "int \<times> event \<Rightarrow> bool" where
  "keyboard (th, EventKey k ch) \<longleftrightarrow> 3 \<le> th"
| "keyboard (th, EventMouse k y) \<longleftrightarrow> False"
| "keyboard (th, EventOther) \<longleftrightarrow> 3 \<le> th"

text \<open>A row is displayed under the cursor, so Tab and Enter have a line to read.\<close>

fun row_ready :: "int \<times> event \<Rightarrow> view_state \<Rightarrow> bool" where
  "row_ready (th, EventKey k ch) st \<longleftrightarrow>
     (k = KeyEnter \<or> k = KeyTab \<longrightarrow>
        2 \<le> length (ViewText (vinfo st)) \<or> CursorLine (vinfo st) = -1)"
| "row_ready (th, ev) st \<longleftrightarrow> True"

lemma go_div_bounds:
  assumes "1 \<le> h" "0 \<le> c"
  shows "0 \<le> go_div c h * h" and "go_div c h * h \<le> c" and "c < go_div c h * h + h"
proof -
  have eq: "go_div c h = c div h" using assms by (simp add: go_div_nonneg)
  have "c = c div h * h + c mod h" "0 \<le> c mod h" "c mod h < h"
    using assms by auto
  moreover have "0 \<le> c div h * h" using assms by (simp add: pos_imp_zdiv_nonneg_iff)
  ultimately show "0 \<le> go_div c h * h" "go_div c h * h \<le> c" "c < go_div c h * h + h"
    unfolding eq by linarith+
qed

lemma go_div_neg:
  assumes "1 \<le> h" "a < 0"
  shows "go_div a h * h \<le> 0"
proof -
  have "0 \<le> (- a) div h" using assms by (simp add: pos_imp_zdiv_nonneg_iff)
  then have "0 \<le> (- a) div h * h" using assms by simp
  then show ?thesis using assms by (simp add: go_div_def sgn_if)
qed

lemma draw_ok:
  assumes c: "cursor_ok (CursorLine l) (int (length (ViewText l)))" and th: "3 \<le> th"
  shows "\<exists>rows c. draw th l = Done (rows, c) \<and>
           (2 \<le> length (ViewText l) \<longrightarrow>
              0 \<le> c \<and> c < int (length rows) \<and> rows ! nat c = ViewText l ! nat (CursorLine l + 1))"
proof -
  define h where "h = th - 2"
  define f where "f = go_div (CursorLine l) h * h"
  let ?n = "int (length (ViewText l))"
  have h: "1 \<le> h" using th by (simp add: h_def)
  have dr: "draw th l = obind (if f + 1 + h > ?n then go_slice (ViewText l) (f + 1) ?n
                               else go_slice (ViewText l) (f + 1) (f + 1 + h))
              (\<lambda>v. if ViewText l = [] then Panic else Done (v, CursorLine l - (f + 1) + 1))"
    using h by (simp add: draw_def headLine_def Let_def h_def [symmetric] f_def [symmetric])
  show ?thesis
  proof (cases "2 \<le> ?n")
    case True
    with c have cur: "0 \<le> CursorLine l" "CursorLine l \<le> ?n - 2" by (auto simp: cursor_ok_def)
    have f: "0 \<le> f" "f \<le> CursorLine l" "CursorLine l < f + h"
      using go_div_bounds [OF h cur(1)] by (auto simp: f_def)
    have sl: "nat (f + 1) + nat (CursorLine l - f) = nat (CursorLine l + 1)" using f by simp
    have ne: "ViewText l \<noteq> []" using True by auto
    show ?thesis
      unfolding dr using f cur h sl ne True by (auto simp: go_slice_def)
  next
    case False
    with c have n: "?n = 1" "CursorLine l = -1 \<or> CursorLine l = 0"
      by (auto simp: cursor_ok_def split: if_splits)
    then have ne: "ViewText l \<noteq> []" by auto
    have "f = 0 \<or> (h = 1 \<and> f = -1)"
      using n(2) h by (cases "h = 1") (auto simp: f_def go_div_def sgn_if)
    then show ?thesis unfolding dr using n ne h
      by (auto simp: go_slice_def)
  qed
qed

lemma view_of_subset: "set (view_of ul data kw) \<subseteq> set data"
  by (auto simp: view_of_def split: list.splits)

lemma view_of_nonempty: "data \<noteq> [] \<Longrightarrow> view_of ul data kw \<noteq> []"
  by (auto simp: view_of_def split: list.splits)

text \<open>Projections and updates of the invariant.\<close>

lemma view_invD:
  assumes "view_inv ul st"
  shows "DataText (vinfo st) \<noteq> []" and "\<forall>line \<in> set (DataText (vinfo st)). go_fields line \<noteq> []"
    and "ViewText (vinfo st) = view_of ul (DataText (vinfo st)) (Keyword (vinfo st))"
    and "\<exists>rs. (\<forall>r \<in> set rs. valid_rune r) \<and> Keyword (vinfo st) = of_runes rs"
    and "cursor_ok (CursorLine (vinfo st)) (int (length (ViewText (vinfo st))))"
    and "1 \<le> vheight st" and "ViewText (vinfo st) \<noteq> []"
  using assms by (auto simp: view_inv_def Let_def view_of_nonempty)

lemma view_inv_lines: "view_inv ul st \<Longrightarrow> line \<in> set (ViewText (vinfo st)) \<Longrightarrow> go_fields line \<noteq> []"
  using view_invD(2,3) view_of_subset by (metis subsetD)

lemma redraw_inv: "view_inv ul st \<Longrightarrow> 3 \<le> th \<Longrightarrow> redraw th st = Done (Inl st)"
  using draw_ok [OF view_invD(5), of ul st th] by (auto simp: redraw_def)

lemma view_inv_cursor:
  "view_inv ul st \<Longrightarrow> cursor_ok c (int (length (ViewText (vinfo st)))) \<Longrightarrow> view_inv ul (set_cursor st c)"
  by (auto simp: view_inv_def set_cursor_def Let_def)

text \<open>Fields outside the invariant.\<close>

lemma view_inv_select:
  "view_inv ul (st\<lparr>vinfo := l\<lparr>SelectName := sel\<rparr>\<rparr>) \<longleftrightarrow> view_inv ul (st\<lparr>vinfo := l\<rparr>)"
  "view_inv ul (st\<lparr>vinfo := l, allFlag := b\<rparr>) \<longleftrightarrow> view_inv ul (st\<lparr>vinfo := l\<rparr>)"
  by (auto simp: view_inv_def Let_def)

fun step_ok :: "(nat \<Rightarrow> nat) \<Rightarrow> bool \<Rightarrow> step_result outcome \<Rightarrow> bool" where
  "step_ok ul ready (Done (Inl st)) \<longleftrightarrow> view_inv ul st"
| "step_ok ul ready (Done (Inr l)) \<longleftrightarrow> True"
| "step_ok ul ready Panic \<longleftrightarrow> \<not> ready"
| "step_ok ul ready (Exit n) \<longleftrightarrow> True"

lemma step_ok_redraw: "view_inv ul st \<Longrightarrow> 3 \<le> th \<Longrightarrow> step_ok ul ready (redraw th st)"
  by (simp add: redraw_inv)

lemma first_field_ok: "go_fields line \<noteq> [] \<Longrightarrow> first_field line = Done (hd (go_fields line))"
  by (simp add: first_field_def go_index_def hd_conv_nth)

lemma all_toggle_loop_Done:
  "\<forall>line \<in> set lines. go_fields line \<noteq> [] \<Longrightarrow>
   \<exists>sel. all_toggle_loop b lines l = Done (l\<lparr>SelectName := sel\<rparr>)"
proof (induction lines arbitrary: l)
  case (Cons line lines)
  then show ?case
    using Cons.IH [of "toggle l (hd (go_fields line))"] Cons.IH [of l]
    by (auto simp: first_field_ok toggle_def)
next
  case Nil
  show ?case by (rule exI [of _ "SelectName l"]) simp
qed

lemma allToggle_Done:
  assumes "view_inv ul st"
  shows "\<exists>sel. allToggle (vinfo st) b = Done ((vinfo st)\<lparr>SelectName := sel\<rparr>)"
  using all_toggle_loop_Done [of "tl (ViewText (vinfo st))" b "vinfo st"]
    view_inv_lines [OF assms] view_invD(7) [OF assms]
  by (auto simp: allToggle_def dest: list.set_sel(2) [rotated])

lemma cursor_index:
  assumes "cursor_ok c (int (length v))" and "2 \<le> length v \<or> c = -1"
  shows "go_index v (c + 1) = Done (v ! nat (c + 1))" and "v ! nat (c + 1) \<in> set v"
  using assms by (auto simp: cursor_ok_def go_index_def split: if_splits)

lemma cursor_index_first_field:
  assumes "view_inv ul st" and "2 \<le> length (ViewText (vinfo st)) \<or> CursorLine (vinfo st) = -1"
  shows "obind (go_index (ViewText (vinfo st)) (CursorLine (vinfo st) + 1)) first_field
         = Done (hd (go_fields (ViewText (vinfo st) ! nat (CursorLine (vinfo st) + 1))))"
  using cursor_index [OF view_invD(5) [OF assms(1)] assms(2)] view_inv_lines [OF assms(1)]
  by (simp add: first_field_ok)

lemma tab_step_ok:
  assumes inv: "view_inv ul st" and th: "3 \<le> th"
  shows "step_ok ul (row_ready (th, EventKey KeyTab ch) st) (key_step ul th (EventKey KeyTab ch) st)"
proof -
  let ?l = "vinfo st"
  let ?n = "int (length (ViewText ?l))"
  have moved: "step_ok ul r (redraw th (st\<lparr>vinfo :=
       (if CursorLine (?l\<lparr>SelectName := sel\<rparr>) < ?n - headLine
        then ?l\<lparr>SelectName := sel, CursorLine := CursorLine (?l\<lparr>SelectName := sel\<rparr>) + 1\<rparr>
        else ?l\<lparr>SelectName := sel\<rparr>)\<rparr>))" for sel r
    by (rule step_ok_redraw [OF _ th])
      (use inv in \<open>auto simp: view_inv_def Let_def cursor_ok_def headLine_def split: if_splits\<close>)
  show ?thesis
  proof (cases "MultiFlag ?l")
    case True
    show ?thesis
    proof (cases "2 \<le> length (ViewText ?l) \<or> CursorLine ?l = -1")
      case ready: True
      show ?thesis
        using moved cursor_index [OF view_invD(5) [OF inv] ready] view_inv_lines [OF inv] True
        by (auto simp: Let_def first_field_ok toggle_def)
    next
      case False
      with view_invD(5) [OF inv] have "CursorLine ?l = 0" "length (ViewText ?l) = 1"
        by (auto simp: cursor_ok_def split: if_splits)
      with True False show ?thesis by (auto simp: Let_def go_index_def)
    qed
  next
    case False
    have "view_inv ul (st\<lparr>vinfo := ?l\<lparr>CursorLine := CursorLine ?l + 1\<rparr>\<rparr>)"
      if "CursorLine ?l < ?n - headLine"
      using that inv by (auto simp: view_inv_def Let_def cursor_ok_def headLine_def split: if_splits)
    with False show ?thesis using step_ok_redraw [OF _ th] inv by (simp add: Let_def)
  qed
qed

lemma DeleteRune_of_runes:
  assumes "\<forall>r \<in> set rs. valid_rune r" and "Keyword l = of_runes (rs @ [x])" and "valid_rune x"
  shows "DeleteRune l = Done (l\<lparr>Keyword := of_runes rs\<rparr>)"
  using assms to_runes_of_runes [of "rs @ [x]"] by (simp add: DeleteRune_def del: of_runes_append)

lemma backspace_step_ok:
  assumes inv: "view_inv ul st" and th: "3 \<le> th" and k: "k = KeyBackspace \<or> k = KeyBackspace2"
  shows "step_ok ul ready (key_step ul th (EventKey k ch) st)"
proof (cases "Keyword (vinfo st) = []")
  case True
  then show ?thesis using k inv by auto
next
  case False
  let ?l = "vinfo st"
  obtain ks where ks: "\<forall>r \<in> set ks. valid_rune r" "Keyword ?l = of_runes ks"
    using view_invD(4) [OF inv] by auto
  with False obtain rs x where rs: "ks = rs @ [x]" by (cases ks rule: rev_cases) auto
  let ?l1 = "?l\<lparr>Keyword := of_runes rs\<rparr>"
  let ?v = "view_of ul (DataText ?l) (of_runes rs)"
  let ?c1 = "if CursorLine ?l > int (length ?v) then int (length ?v) else CursorLine ?l"
  let ?c = "if ?c1 < 0 then 0 else ?c1"
  have d: "DeleteRune ?l = Done ?l1"
    using DeleteRune_of_runes [of rs ?l x] ks rs by auto
  have g: "getFilterText ul ?l1 = Done (?l1\<lparr>ViewText := ?v\<rparr>)"
    using getFilterText_view [of ?l1 ul] view_invD(1) [OF inv] by simp
  have le: "length (ViewText ?l) \<le> length ?v"
    unfolding view_invD(3) [OF inv] ks(2) rs by (rule view_of_extend) (use ks rs in auto)
  have cur: "cursor_ok ?c (int (length ?v))"
    using view_invD(5) [OF inv] le view_invD(7) [OF inv]
    by (auto simp: cursor_ok_def split: if_splits)
  have ks': "\<exists>ks. (\<forall>r \<in> set ks. valid_rune r) \<and> of_runes rs = of_runes ks"
    using ks rs by (intro exI [of _ rs]) auto
  have "view_inv ul (st\<lparr>vinfo := ?l1\<lparr>ViewText := ?v, CursorLine := ?c\<rparr>, allFlag := False\<rparr>)"
    using inv cur ks'
    by (simp add: view_inv_def Let_def)
  then have r: "step_ok ul ready (redraw th (st\<lparr>vinfo := ?l1\<lparr>ViewText := ?v, CursorLine := ?c\<rparr>, allFlag := False\<rparr>))"
    by (rule step_ok_redraw [OF _ th])
  have sel: "ViewText (?l1\<lparr>ViewText := ?v\<rparr>) = ?v" "CursorLine (?l1\<lparr>ViewText := ?v\<rparr>) = CursorLine ?l"
    by simp_all
  have "key_step ul th (EventKey k ch) st
      = redraw th (st\<lparr>vinfo := ?l1\<lparr>ViewText := ?v, CursorLine := ?c\<rparr>, allFlag := False\<rparr>)"
    using k False d g by (elim disjE) (simp_all only: key_step.simps key.simps key.distinct Let_def if_True if_False
       obind.simps simp_thms sel)
  with r show ?thesis by (simp only:)
qed

lemma encode_rune_valid: "\<exists>r'. valid_rune r' \<and> encode_rune r = encode_rune r'"
proof (cases "valid_rune r")
  case False
  then show ?thesis
    by (intro exI [of _ rune_error]) (simp add: encode_rune_invalid, simp add: encode_rune_def valid_rune_def rune_error_def)
qed auto

lemma typing_step_ok:
  assumes inv: "view_inv ul st" and th: "3 \<le> th" and k: "k = OtherKey \<or> k = MouseLeft"
  shows "step_ok ul ready (key_step ul th (EventKey k ch) st)"
proof (cases "ch = 0")
  case True
  then show ?thesis using k inv by auto
next
  case False
  let ?l = "vinfo st"
  obtain rs where rs: "\<forall>r \<in> set rs. valid_rune r" "Keyword ?l = of_runes rs"
    using view_invD(4) [OF inv] by auto
  obtain x where x: "valid_rune x" "encode_rune ch = encode_rune x"
    using encode_rune_valid by blast
  let ?l1 = "?l\<lparr>Keyword := of_runes (rs @ [x])\<rparr>"
  let ?v = "view_of ul (DataText ?l) (of_runes (rs @ [x]))"
  let ?c = "min (CursorLine ?l) (int (length ?v) - headLine)"
  have d: "InsertRune ?l ch = ?l1" using rs x by (simp add: InsertRune_def)
  have g: "getFilterText ul ?l1 = Done (?l1\<lparr>ViewText := ?v\<rparr>)"
    using getFilterText_view [of ?l1 ul] view_invD(1) [OF inv] by simp
  have le: "length ?v \<le> length (ViewText ?l)"
    unfolding view_invD(3) [OF inv] rs(2) by (rule view_of_extend) (use rs x in auto)
  have ne: "?v \<noteq> []" by (rule view_of_nonempty [OF view_invD(1) [OF inv]])
  have ks: "\<exists>ks. (\<forall>r \<in> set ks. valid_rune r) \<and> of_runes (rs @ [x]) = of_runes ks"
    using rs x by (intro exI [of _ "rs @ [x]"]) auto
  have cur: "cursor_ok ?c (int (length ?v))"
    using view_invD(5) [OF inv] le ne
    by (cases "length ?v") (auto simp: cursor_ok_def headLine_def split: if_splits)
  have "view_inv ul (st\<lparr>vinfo := ?l1\<lparr>ViewText := ?v, CursorLine := ?c\<rparr>, allFlag := False\<rparr>)"
    using inv cur ks
    by (simp add: view_inv_def Let_def del: of_runes_append)
  from step_ok_redraw [OF this th, of ready] show ?thesis
    using k False d g by (auto simp: Let_def min_def split: if_splits simp del: of_runes_append)
qed

lemma key_step_ok:
  assumes inv: "view_inv ul st" and th: "3 \<le> th"
  shows "step_ok ul (row_ready (th, EventKey k ch) st) (key_step ul th (EventKey k ch) st)"
proof -
  let ?l = "vinfo st"
  let ?n = "int (length (ViewText ?l))"
  note c = view_invD(5) [OF inv]
  have move: "cursor_ok c' ?n \<Longrightarrow> step_ok ul r (redraw th (set_cursor st c'))" for c' r
    by (rule step_ok_redraw [OF view_inv_cursor [OF inv] th])
  have h: "1 \<le> vheight st" by (rule view_invD(6) [OF inv])
  show ?thesis
  proof (cases k)
    case KeyArrowUp
    then show ?thesis using c
      by (auto simp: Let_def headLine_def cursor_ok_def intro!: move split: if_splits)
  next
    case KeyArrowDown
    then show ?thesis using c
      by (auto simp: Let_def headLine_def cursor_ok_def intro!: move split: if_splits)
  next
    case KeyArrowRight
    let ?p = "go_div (CursorLine ?l + vheight st) (vheight st) * vheight st"
    have "0 \<le> ?p" using go_div_bounds(1) [OF h, of "CursorLine ?l + vheight st"] c h
      by (auto simp: cursor_ok_def split: if_splits)
    then have "?p + 2 \<le> ?n \<Longrightarrow> cursor_ok ?p ?n" by (auto simp: cursor_ok_def)
    then show ?thesis using KeyArrowRight h move step_ok_redraw [OF inv th]
      by (auto simp: Let_def)
  next
    case KeyArrowLeft
    let ?a = "CursorLine ?l - vheight st"
    let ?p = "go_div ?a (vheight st) * vheight st"
    have "0 \<le> ?p \<Longrightarrow> ?p \<le> max 0 (CursorLine ?l)"
      using go_div_bounds(2) [OF h, of ?a] go_div_neg [OF h, of ?a] h by (cases "?a < 0") auto
    moreover have "?n = 1 \<Longrightarrow> \<not> 0 < ?p"
      using go_div_bounds(2) [OF h, of ?a] go_div_neg [OF h, of ?a] h c
      by (auto simp: cursor_ok_def)
    ultimately have "0 \<le> ?p \<Longrightarrow> cursor_ok ?p ?n" using c by (auto simp: cursor_ok_def split: if_splits)
    then show ?thesis using KeyArrowLeft h move step_ok_redraw [OF inv th]
      by (auto simp: Let_def)
  next
    case KeyTab
    then show ?thesis using tab_step_ok [OF inv th] by simp
  next
    case KeyCtrlA
    obtain sel where "allToggle ?l (allFlag st) = Done (?l\<lparr>SelectName := sel\<rparr>)"
      using allToggle_Done [OF inv] by blast
    moreover have "view_inv ul (st\<lparr>vinfo := ?l\<lparr>SelectName := sel\<rparr>, allFlag := b\<rparr>)" for b
      using inv by (auto simp: view_inv_def Let_def)
    ultimately show ?thesis using KeyCtrlA step_ok_redraw [OF _ th] inv by (auto simp: Let_def)
  next
    case KeyEnter
    show ?thesis
    proof (cases "2 \<le> length (ViewText ?l) \<or> CursorLine ?l = -1")
      case True
      then show ?thesis
        using KeyEnter cursor_index [OF c True] view_inv_lines [OF inv] by (auto simp: Let_def first_field_ok)
    next
      case False
      then have "CursorLine ?l = 0" "length (ViewText ?l) = 1"
        using c by (auto simp: cursor_ok_def split: if_splits)
      then show ?thesis using KeyEnter by (auto simp: Let_def go_index_def)
    qed
  next
    case KeySpace
    obtain rs where rs: "\<forall>r \<in> set rs. valid_rune r" "Keyword ?l = of_runes rs"
      using view_invD(4) [OF inv] by auto
    have "Keyword ?l @ '' '' = of_runes (rs @ [32])" using rs by (simp add: encode_rune_space)
    moreover have "\<forall>r \<in> set (rs @ [32]). valid_rune r" using rs by (auto simp: valid_rune_def)
    ultimately have k: "\<exists>ks. (\<forall>r \<in> set ks. valid_rune r) \<and> Keyword ?l @ '' '' = of_runes ks"
      by blast
    have v: "view_of ul (DataText ?l) (Keyword ?l @ '' '') = view_of ul (DataText ?l) (Keyword ?l)"
      using view_of_space [OF rs(1)] rs(2) by simp
    have c': "cursor_ok (CursorLine ?l) (int (length (view_of ul (DataText ?l) (Keyword ?l))))"
      using c by (simp only: view_invD(3) [OF inv])
    have "view_inv ul (st\<lparr>vinfo := ?l\<lparr>Keyword := Keyword ?l @ '' ''\<rparr>\<rparr>)"
      using inv k v by (simp add: view_inv_def Let_def) (rule c')
    then show ?thesis using KeySpace step_ok_redraw [OF _ th] by (simp add: Let_def)
  next
    case KeyBackspace
    show ?thesis by (rule backspace_step_ok [OF inv th]) (simp add: KeyBackspace)
  next
    case KeyBackspace2
    show ?thesis by (rule backspace_step_ok [OF inv th]) (simp add: KeyBackspace2)
  next
    case MouseLeft
    show ?thesis by (rule typing_step_ok [OF inv th]) (simp add: MouseLeft)
  next
    case OtherKey
    show ?thesis by (rule typing_step_ok [OF inv th]) (simp add: OtherKey)
  qed (simp_all add: Let_def)
qed

section \<open>Sessions\<close>

lemma keyboard_step_ok:
  assumes "view_inv ul st" and "keyboard e"
  shows "step_ok ul (row_ready e st) (case e of (th, ev) \<Rightarrow> key_step ul th ev st)"
proof (cases e)
  case (Pair th ev)
  with assms show ?thesis
  proof (cases ev)
    case (EventKey k ch)
    have "3 \<le> th" using assms Pair EventKey by simp
    then show ?thesis unfolding Pair EventKey prod.case by (rule key_step_ok [OF assms(1)])
  next
    case (EventMouse k y)
    then show ?thesis using assms Pair by simp
  next
    case EventOther
    then show ?thesis using assms Pair step_ok_redraw by simp
  qed
qed

interpretation keys: machine "\<lambda>(th, ev). key_step ul th ev" keyboard "view_inv ul" row_ready
proof unfold_locales
  fix s e s'
  assume "view_inv ul s" "keyboard e" "(case e of (th, ev) \<Rightarrow> key_step ul th ev) s = Done (Inl s')"
  then show "view_inv ul s'"
    using keyboard_step_ok [of ul s e] by (cases e) simp
next
  fix s e
  assume "view_inv ul s" "keyboard e" "row_ready e s"
  then show "(case e of (th, ev) \<Rightarrow> key_step ul th ev) s \<noteq> Panic"
    using keyboard_step_ok [of ul s e] by (cases e) auto
qed

lemma key_init_inv:
  assumes data: "DataText l \<noteq> []" "\<forall>line \<in> set (DataText l). go_fields line \<noteq> []" and th: "3 \<le> th"
  shows "\<exists>st. key_init ul th l = Done st \<and> view_inv ul st \<and> DataText (vinfo st) = DataText l
           \<and> Keyword (vinfo st) = []"
proof -
  let ?l0 = "l\<lparr>CursorLine := 0, Keyword := []\<rparr>"
  let ?l1 = "?l0\<lparr>ViewText := view_of ul (DataText l) []\<rparr>"
  have g: "getFilterText ul ?l0 = Done ?l1"
    using getFilterText_view [of ?l0 ul] data by simp
  have ne: "view_of ul (DataText l) [] \<noteq> []" by (rule view_of_nonempty [OF data(1)])
  have cur: "cursor_ok 0 (int (length (view_of ul (DataText l) [])))"
    using ne by (cases "length (view_of ul (DataText l) [])") (auto simp: cursor_ok_def)
  have ks: "\<exists>rs. (\<forall>r \<in> set rs. valid_rune r) \<and> [] = of_runes rs"
    by (rule exI [of _ "[]"]) (simp add: of_runes_def)
  obtain r where "draw th ?l1 = Done r" using draw_ok [of ?l1 th] cur th by auto
  then show ?thesis
    using g cur th data ks by (simp add: key_init_def view_inv_def headLine_def Let_def)
qed

section \<open>Selections\<close>

lemma arrayContains_iff: "arrayContains xs s \<longleftrightarrow> s \<in> set xs"
  by (induction xs) auto

lemma toggle_loop_eq:
  "toggle_loop sel x tmp b = (tmp @ filter (\<lambda>y. y \<noteq> x) sel, b \<and> x \<notin> set sel)"
  by (induction sel x tmp b rule: toggle_loop.induct) auto

lemma toggle_names_eq:
  "toggle_names sel x = (if x \<in> set sel then filter (\<lambda>y. y \<noteq> x) sel else sel @ [x])"
  by (auto simp: toggle_names_def toggle_loop_eq filter_id_conv)

lemma all_toggle_select:
  "\<forall>line \<in> set lines. go_fields line \<noteq> [] \<Longrightarrow>
   \<exists>l'. all_toggle_loop False lines l = Done l'
      \<and> set (SelectName l') = set (SelectName l) \<union> (\<lambda>line. hd (go_fields line)) ` set lines"
proof (induction lines arbitrary: l)
  case (Cons line lines)
  show ?case
    using Cons.prems Cons.IH [of "toggle l (hd (go_fields line))"] Cons.IH [of l]
    by (auto simp: first_field_ok arrayContains_iff toggle_def toggle_names_eq)
qed simp

text \<open>A small session used by the witnesses: a head line and two hosts, no multi-selection.\<close>

definition demo_view :: info where
  "demo_view = \<lparr>Prompt = [], Title = [], NameList = [''web1'', ''db1''], SelectName = [],
     DataText = [''Name User'', ''web1 root'', ''db1 admin''], ViewText = [], MultiFlag = False,
     Keyword = [], CursorLine = 0\<rparr>"

definition demo_state :: view_state where
  "demo_state = \<lparr>vinfo = demo_view\<lparr>ViewText := DataText demo_view\<rparr>, allFlag = False, vheight = 8\<rparr>"

lemma demo_fields:
  "go_fields ''Name User'' = [''Name'', ''User'']" "go_fields ''web1 root'' = [''web1'', ''root'']"
  "go_fields ''db1 admin'' = [''db1'', ''admin'']"
  by (subst go_fields_ascii, code_simp, code_simp)+

lemma demo_data: "DataText demo_view \<noteq> [] \<and> (\<forall>line \<in> set (DataText demo_view). go_fields line \<noteq> [])"
  by (simp add: demo_view_def demo_fields)

lemma demo_init: "key_init ul 10 demo_view = Done demo_state"
  by (simp add: key_init_def getFilterText_def draw_def go_slice_def go_fields_def go_div_def headLine_def
      demo_view_def demo_state_def Let_def)

lemma demo_inv: "view_inv ul demo_state"
  using key_init_inv [OF conjunct1 [OF demo_data] conjunct2 [OF demo_data], of 10 ul] demo_init by auto

section \<open>Properties\<close>



text \<open>C2 What is highlighted is what is chosen: in every state of a keyboard session with a host
  displayed, the row \<open>draw\<close> highlights lies on the page it prints and Enter, with
  nothing selected before, returns its first word as the only selection.\<close>

theorem enter_returns_highlighted:
  assumes "view_inv ul st" and "3 \<le> th" and "2 \<le> length (ViewText (vinfo st))"
    and "SelectName (vinfo st) = []"
  shows "\<exists>rows c. draw th (vinfo st) = Done (rows, c) \<and> 0 \<le> c \<and> c < int (length rows)
           \<and> key_step ul th' (EventKey KeyEnter ch) st
             = Done (Inr ((vinfo st)\<lparr>SelectName := [hd (go_fields (rows ! nat c))]\<rparr>))"
proof -
  obtain rows c where d: "draw th (vinfo st) = Done (rows, c)" "0 \<le> c" "c < int (length rows)"
      "rows ! nat c = ViewText (vinfo st) ! nat (CursorLine (vinfo st) + 1)"
    using draw_ok [OF view_invD(5) [OF assms(1)] assms(2)] assms(3) by auto
  note idx = cursor_index [OF view_invD(5) [OF assms(1)] disjI1 [OF assms(3)]]
  have "first_field (rows ! nat c) = Done (hd (go_fields (rows ! nat c)))"
    unfolding d(4) by (rule first_field_ok [OF view_inv_lines [OF assms(1) idx(2)]])
  then show ?thesis using d idx(1) assms(4) by (auto simp: Let_def)
qed

lemma enter_returns_highlighted_witness:
  "\<exists>rows c. draw 10 (vinfo demo_state) = Done (rows, c) \<and> 0 \<le> c \<and> c < int (length rows)
       \<and> key_step id 10 (EventKey KeyEnter 0) demo_state
             = Done (Inr ((vinfo demo_state)\<lparr>SelectName := [hd (go_fields (rows ! nat c))]\<rparr>))"
  using enter_returns_highlighted [of id demo_state 10 10 0] demo_inv [of id]
  by (auto simp: demo_state_def demo_view_def)

text \<open>A click on the prompt line (row 0 of the terminal) puts the cursor at -2, two rows above
  the first host, and the next Enter indexes the rows at -1: the program panics. The handler
  checks the upper end of the list and not the lower one.\<close>

theorem click_on_prompt_then_enter_panics:
  assumes "ViewText (vinfo st) \<noteq> []" and "5 \<le> th" and "SelectName (vinfo st) = []"
  shows "key_step ul th (EventMouse MouseLeft 0) st = Done (Inl (set_cursor st (-2)))
       \<and> key_run ul [(th, EventMouse MouseLeft 0), (th', EventKey KeyEnter ch)] st = Panic"
proof -
  have "go_div (-2) (th - 2) = 0" using assms(2) by (simp add: go_div_def sgn_if)
  then have "redraw th (set_cursor st (-2)) = Done (Inl (set_cursor st (-2)))"
    using assms by (cases "ViewText (vinfo st)")
      (auto simp: redraw_def draw_def set_cursor_def headLine_def go_slice_def Let_def)
  then show ?thesis using assms
    by (simp add: key_run_def headLine_def Let_def) (simp add: set_cursor_def go_index_def)
qed

lemma click_on_prompt_then_enter_panics_witness:
  "key_run id [(10, EventMouse MouseLeft 0), (10, EventKey KeyEnter 0)] demo_state = Panic"
  using click_on_prompt_then_enter_panics [of demo_state 10 id 10 0]
  by (simp add: demo_state_def demo_view_def)

text \<open>Ctrl-A for the first time after a change of the keyword selects every displayed host and
  keeps the hosts selected before.\<close>

theorem select_all:
  assumes "view_inv ul st" and "3 \<le> th" and "MultiFlag (vinfo st)" and "\<not> allFlag st"
  shows "\<exists>st'. key_step ul th (EventKey KeyCtrlA ch) st = Done (Inl st') \<and> allFlag st'
           \<and> set (SelectName (vinfo st')) = set (SelectName (vinfo st))
               \<union> (\<lambda>line. hd (go_fields line)) ` set (tl (ViewText (vinfo st)))"
proof -
  let ?l = "vinfo st"
  have lines: "\<forall>line \<in> set (tl (ViewText ?l)). go_fields line \<noteq> []"
    using view_inv_lines [OF assms(1)] list.set_sel(2) [OF view_invD(7) [OF assms(1)]] by auto
  obtain sel where sel: "allToggle ?l False = Done (?l\<lparr>SelectName := sel\<rparr>)"
    using allToggle_Done [OF assms(1)] by blast
  moreover from this obtain l' where "l' = ?l\<lparr>SelectName := sel\<rparr>"
      "set (SelectName l') = set (SelectName ?l) \<union> (\<lambda>line. hd (go_fields line)) ` set (tl (ViewText ?l))"
    using all_toggle_select [OF lines, of ?l] view_invD(7) [OF assms(1)] by (auto simp: allToggle_def)
  moreover have "redraw th (st\<lparr>vinfo := ?l\<lparr>SelectName := sel\<rparr>, allFlag := True\<rparr>)
      = Done (Inl (st\<lparr>vinfo := ?l\<lparr>SelectName := sel\<rparr>, allFlag := True\<rparr>))"
    using assms(1) by (intro redraw_inv [OF _ assms(2)]) (auto simp: view_inv_def Let_def)
  ultimately show ?thesis using assms(3,4) by (auto simp: Let_def)
qed

lemma select_all_witness:
  "\<exists>st'. key_step id 10 (EventKey KeyCtrlA 0) (demo_state\<lparr>vinfo := (vinfo demo_state)\<lparr>MultiFlag := True\<rparr>\<rparr>) = Done (Inl st')
     \<and> set (SelectName (vinfo st')) = {''web1'', ''db1''}"
proof -
  let ?st = "demo_state\<lparr>vinfo := (vinfo demo_state)\<lparr>MultiFlag := True\<rparr>\<rparr>"
  have "view_inv id ?st" using demo_inv [of id] by (auto simp: view_inv_def Let_def)
  moreover have "(\<lambda>line. hd (go_fields line)) ` set (tl (ViewText (vinfo ?st))) = {''web1'', ''db1''}"
    by (simp add: demo_state_def demo_view_def demo_fields)
  ultimately show ?thesis using select_all [of id ?st 10 0]
    by (auto simp: demo_state_def demo_view_def simp del: key_step.simps)
qed

text \<open>Tab on a row toggles its host: the selection becomes the symmetric difference with that
  host, and a selection without duplicates stays without duplicates.\<close>

theorem toggle_spec:
  "set (SelectName (toggle l x)) = (set (SelectName l) - {x}) \<union> ({x} - set (SelectName l))
   \<and> (distinct (SelectName l) \<longrightarrow> distinct (SelectName (toggle l x)))"
  by (auto simp: toggle_def toggle_names_eq)

lemma toggle_spec_witness:
  "set (SelectName (toggle demo_view ''web1'')) = {''web1''} \<and> distinct (SelectName (toggle demo_view ''web1''))"
  using toggle_spec [of demo_view "''web1''"] by (simp add: demo_view_def)

end
