(* ===== verification/Conf_Types.thy ===== *)
theory Conf_Types
  imports Common
begin

text \<open>
  The data model of package \<open>conf\<close> (src/conf/conf.go): \<open>ServerConfig\<close>,
  \<open>ProxyConfig\<close>, \<open>DefaultTrue\<close>, and the merge \<open>ServerConfigDeduct\<close> of a
  server with the common settings. Records carry the prefix \<open>sc_\<close>, \<open>px_\<close> or
  \<open>h_\<close>; \<open>h_\<close> is the part of the library type \<open>hostparse.Host\<close> the code
  reads.
\<close>

section \<open>Switches that default to true\<close>

type_synonym default_true = "bool option"

definition dt_Get :: "default_true \<Rightarrow> bool" where
  "dt_Get ds = (case ds of Some b \<Rightarrow> b | None \<Rightarrow> True)"

datatype toml_val = TNil | TInt int | TBool bool | TOther

text \<open>\<open>UnmarshalTOML\<close>: \<open>None\<close> is the error.\<close>

definition dt_Unmarshal :: "toml_val \<Rightarrow> default_true \<Rightarrow> default_true option" where
  "dt_Unmarshal data ds =
     (case data of
        TNil \<Rightarrow> Some ds
      | TInt t \<Rightarrow> if t \<noteq> 0 \<and> t \<noteq> 1 then None else Some (Some (t = 1))
      | TBool t \<Rightarrow> Some (Some t)
      | TOther \<Rightarrow> None)"

section \<open>Servers and proxies\<close>

text \<open>Properties of a parsed host, in the order a range over them enumerates the keys.\<close>

record parsed_host =
  h_ID :: string
  h_Addr :: string
  h_Port :: string
  h_User :: string
  h_Password :: string
  h_Props :: "(string \<times> string list) list"
  h_Raw :: string

record server_config =
  sc_Tmpl :: string
  sc_Group :: "string list"
  sc_Addr :: string
  sc_Port :: string
  sc_User :: string
  sc_Pass :: string
  sc_Passes :: "string list"
  sc_Key :: string
  sc_OriginalKey :: string
  sc_KeyCommand :: string
  sc_KeyCommandPass :: string
  sc_KeyPass :: string
  sc_Keys :: "string list"
  sc_Cert :: string
  sc_CertKey :: string
  sc_CertKeyPass :: string
  sc_CertPKCS11 :: bool
  sc_AgentAuth :: bool
  sc_SSHAgentUse :: bool
  sc_PKCS11Use :: bool
  sc_X11 :: bool
  sc_SSHAgentKeyPath :: "string list"
  sc_PKCS11Provider :: string
  sc_PKCS11PIN :: string
  sc_PreCmd :: string
  sc_PostCmd :: string
  sc_ProxyType :: string
  sc_Proxy :: string
  sc_ProxyCommand :: string
  sc_LocalRcUse :: string
  sc_LocalRcPath :: "string list"
  sc_LocalRcDecodeCmd :: string
  sc_PortForwardMode :: string
  sc_PortForwardLocal :: string
  sc_PortForwardRemote :: string
  sc_DynamicPortForward :: string
  sc_Note :: string
  sc_ConnectTimeout :: int
  sc_ServerAliveCountMax :: int
  sc_ServerAliveCountInterval :: int
  sc_InitialCmd :: string
  sc_InitialCmdSleep :: int
  sc_WebPort :: int
  sc_ID :: string
  sc_PassPbeEncrypted :: bool
  sc_Raw :: string
  sc_Host :: "parsed_host option"
  sc_Brg :: string
  sc_DirectServer :: bool

record proxy_config =
  px_Addr :: string
  px_Port :: string
  px_User :: string
  px_Pass :: string
  px_Proxy :: string
  px_ProxyType :: string
  px_Note :: string

text \<open>The zero values a missing map key gives.\<close>

definition zero_server :: server_config where
  "zero_server = \<lparr>sc_Tmpl = [], sc_Group = [], sc_Addr = [], sc_Port = [], sc_User = [], sc_Pass = [],
     sc_Passes = [], sc_Key = [], sc_OriginalKey = [], sc_KeyCommand = [], sc_KeyCommandPass = [],
     sc_KeyPass = [], sc_Keys = [], sc_Cert = [], sc_CertKey = [], sc_CertKeyPass = [],
     sc_CertPKCS11 = False, sc_AgentAuth = False, sc_SSHAgentUse = False, sc_PKCS11Use = False,
     sc_X11 = False, sc_SSHAgentKeyPath = [], sc_PKCS11Provider = [], sc_PKCS11PIN = [], sc_PreCmd = [],
     sc_PostCmd = [], sc_ProxyType = [], sc_Proxy = [], sc_ProxyCommand = [], sc_LocalRcUse = [],
     sc_LocalRcPath = [], sc_LocalRcDecodeCmd = [], sc_PortForwardMode = [], sc_PortForwardLocal = [],
     sc_PortForwardRemote = [], sc_DynamicPortForward = [], sc_Note = [], sc_ConnectTimeout = 0,
     sc_ServerAliveCountMax = 0, sc_ServerAliveCountInterval = 0, sc_InitialCmd = [],
     sc_InitialCmdSleep = 0, sc_WebPort = 0, sc_ID = [], sc_PassPbeEncrypted = False, sc_Raw = [],
     sc_Host = None, sc_Brg = [], sc_DirectServer = False\<rparr>"

definition zero_proxy :: proxy_config where
  "zero_proxy = \<lparr>px_Addr = [], px_Port = [], px_User = [], px_Pass = [], px_Proxy = [],
     px_ProxyType = [], px_Note = []\<rparr>"

definition server_at :: "(string \<rightharpoonup> server_config) \<Rightarrow> string \<Rightarrow> server_config" where
  "server_at m k = (case m k of Some c \<Rightarrow> c | None \<Rightarrow> zero_server)"

definition proxy_at :: "(string \<rightharpoonup> proxy_config) \<Rightarrow> string \<Rightarrow> proxy_config" where
  "proxy_at m k = (case m k of Some c \<Rightarrow> c | None \<Rightarrow> zero_proxy)"

section \<open>Merging a server with the common settings\<close>

text \<open>
  One field of each struct through \<open>MapReduce\<close> (\<open>Common.MapReduce_key\<close>: every key is
  merged on its own).
\<close>

definition merge_str :: "string \<Rightarrow> string \<Rightarrow> string" where
  "merge_str p c = (case reduce_val (VStr p) (Some (VStr c)) of Done (Some (VStr r)) \<Rightarrow> r | _ \<Rightarrow> c)"

definition merge_list :: "string list \<Rightarrow> string list \<Rightarrow> string list" where
  "merge_list p c = (case reduce_val (VList p) (Some (VList c)) of Done (Some (VList r)) \<Rightarrow> r | _ \<Rightarrow> c)"

definition merge_bool :: "bool \<Rightarrow> bool \<Rightarrow> bool" where
  "merge_bool p c = (case reduce_val (VBool p) (Some (VBool c)) of Done (Some (VBool r)) \<Rightarrow> r | _ \<Rightarrow> c)"

text \<open>
  \<open>ServerConfigDeduct\<close>: strings, string lists and booleans are merged; every other type
  (the integers, the duration and the host pointer) keeps the child's value.
\<close>

definition ServerConfigDeduct :: "server_config \<Rightarrow> server_config \<Rightarrow> server_config" where
  "ServerConfigDeduct p c = \<lparr>
     sc_Tmpl = merge_str (sc_Tmpl p) (sc_Tmpl c),
     sc_Group = merge_list (sc_Group p) (sc_Group c),
     sc_Addr = merge_str (sc_Addr p) (sc_Addr c),
     sc_Port = merge_str (sc_Port p) (sc_Port c),
     sc_User = merge_str (sc_User p) (sc_User c),
     sc_Pass = merge_str (sc_Pass p) (sc_Pass c),
     sc_Passes = merge_list (sc_Passes p) (sc_Passes c),
     sc_Key = merge_str (sc_Key p) (sc_Key c),
     sc_OriginalKey = merge_str (sc_OriginalKey p) (sc_OriginalKey c),
     sc_KeyCommand = merge_str (sc_KeyCommand p) (sc_KeyCommand c),
     sc_KeyCommandPass = merge_str (sc_KeyCommandPass p) (sc_KeyCommandPass c),
     sc_KeyPass = merge_str (sc_KeyPass p) (sc_KeyPass c),
     sc_Keys = merge_list (sc_Keys p) (sc_Keys c),
     sc_Cert = merge_str (sc_Cert p) (sc_Cert c),
     sc_CertKey = merge_str (sc_CertKey p) (sc_CertKey c),
     sc_CertKeyPass = merge_str (sc_CertKeyPass p) (sc_CertKeyPass c),
     sc_CertPKCS11 = merge_bool (sc_CertPKCS11 p) (sc_CertPKCS11 c),
     sc_AgentAuth = merge_bool (sc_AgentAuth p) (sc_AgentAuth c),
     sc_SSHAgentUse = merge_bool (sc_SSHAgentUse p) (sc_SSHAgentUse c),
     sc_PKCS11Use = merge_bool (sc_PKCS11Use p) (sc_PKCS11Use c),
     sc_X11 = merge_bool (sc_X11 p) (sc_X11 c),
     sc_SSHAgentKeyPath = merge_list (sc_SSHAgentKeyPath p) (sc_SSHAgentKeyPath c),
     sc_PKCS11Provider = merge_str (sc_PKCS11Provider p) (sc_PKCS11Provider c),
     sc_PKCS11PIN = merge_str (sc_PKCS11PIN p) (sc_PKCS11PIN c),
     sc_PreCmd = merge_str (sc_PreCmd p) (sc_PreCmd c),
     sc_PostCmd = merge_str (sc_PostCmd p) (sc_PostCmd c),
     sc_ProxyType = merge_str (sc_ProxyType p) (sc_ProxyType c),
     sc_Proxy = merge_str (sc_Proxy p) (sc_Proxy c),
     sc_ProxyCommand = merge_str (sc_ProxyCommand p) (sc_ProxyCommand c),
     sc_LocalRcUse = merge_str (sc_LocalRcUse p) (sc_LocalRcUse c),
     sc_LocalRcPath = merge_list (sc_LocalRcPath p) (sc_LocalRcPath c),
     sc_LocalRcDecodeCmd = merge_str (sc_LocalRcDecodeCmd p) (sc_LocalRcDecodeCmd c),
     sc_PortForwardMode = merge_str (sc_PortForwardMode p) (sc_PortForwardMode c),
     sc_PortForwardLocal = merge_str (sc_PortForwardLocal p) (sc_PortForwardLocal c),
     sc_PortForwardRemote = merge_str (sc_PortForwardRemote p) (sc_PortForwardRemote c),
     sc_DynamicPortForward = merge_str (sc_DynamicPortForward p) (sc_DynamicPortForward c),
     sc_Note = merge_str (sc_Note p) (sc_Note c),
     sc_ConnectTimeout = sc_ConnectTimeout c,
     sc_ServerAliveCountMax = sc_ServerAliveCountMax c,
     sc_ServerAliveCountInterval = sc_ServerAliveCountInterval c,
     sc_InitialCmd = merge_str (sc_InitialCmd p) (sc_InitialCmd c),
     sc_InitialCmdSleep = sc_InitialCmdSleep c,
     sc_WebPort = sc_WebPort c,
     sc_ID = merge_str (sc_ID p) (sc_ID c),
     sc_PassPbeEncrypted = merge_bool (sc_PassPbeEncrypted p) (sc_PassPbeEncrypted c),
     sc_Raw = merge_str (sc_Raw p) (sc_Raw c),
     sc_Host = sc_Host c,
     sc_Brg = merge_str (sc_Brg p) (sc_Brg c),
     sc_DirectServer = merge_bool (sc_DirectServer p) (sc_DirectServer c)\<rparr>"

lemma merge_str [simp]: "merge_str p c = (if c = [] then p else c)"
  by (auto simp: merge_str_def reduce_val_def)

lemma merge_list [simp]: "merge_list p c = (if c = [] then p else c)"
  by (auto simp: merge_list_def reduce_val_def)

lemma merge_bool [simp]: "merge_bool p c = (p \<or> c)"
  by (auto simp: merge_bool_def reduce_val_def)

lemma server_at_simps [simp]:
  "m k = Some c \<Longrightarrow> server_at m k = c" "m k = None \<Longrightarrow> server_at m k = zero_server"
  by (auto simp: server_at_def)

lemma zero_server_sel [simp]:
  "sc_Tmpl zero_server = []"
  "sc_Group zero_server = []"
  "sc_Addr zero_server = []"
  "sc_Port zero_server = []"
  "sc_User zero_server = []"
  "sc_Pass zero_server = []"
  "sc_Passes zero_server = []"
  "sc_Key zero_server = []"
  "sc_OriginalKey zero_server = []"
  "sc_KeyCommand zero_server = []"
  "sc_KeyCommandPass zero_server = []"
  "sc_KeyPass zero_server = []"
  "sc_Keys zero_server = []"
  "sc_Cert zero_server = []"
  "sc_CertKey zero_server = []"
  "sc_CertKeyPass zero_server = []"
  "\<not> sc_CertPKCS11 zero_server"
  "\<not> sc_AgentAuth zero_server"
  "\<not> sc_SSHAgentUse zero_server"
  "\<not> sc_PKCS11Use zero_server"
  "\<not> sc_X11 zero_server"
  "sc_SSHAgentKeyPath zero_server = []"
  "sc_PKCS11Provider zero_server = []"
  "sc_PKCS11PIN zero_server = []"
  "sc_PreCmd zero_server = []"
  "sc_PostCmd zero_server = []"
  "sc_ProxyType zero_server = []"
  "sc_Proxy zero_server = []"
  "sc_ProxyCommand zero_server = []"
  "sc_LocalRcUse zero_server = []"
  "sc_LocalRcPath zero_server = []"
  "sc_LocalRcDecodeCmd zero_server = []"
  "sc_PortForwardMode zero_server = []"
  "sc_PortForwardLocal zero_server = []"
  "sc_PortForwardRemote zero_server = []"
  "sc_DynamicPortForward zero_server = []"
  "sc_Note zero_server = []"
  "sc_ConnectTimeout zero_server = 0"
  "sc_ServerAliveCountMax zero_server = 0"
  "sc_ServerAliveCountInterval zero_server = 0"
  "sc_InitialCmd zero_server = []"
  "sc_InitialCmdSleep zero_server = 0"
  "sc_WebPort zero_server = 0"
  "sc_ID zero_server = []"
  "\<not> sc_PassPbeEncrypted zero_server"
  "sc_Raw zero_server = []"
  "sc_Host zero_server = None"
  "sc_Brg zero_server = []"
  "\<not> sc_DirectServer zero_server"
  by (simp_all add: zero_server_def)

lemma zero_proxy_sel [simp]:
  "px_Addr zero_proxy = []"
  "px_Port zero_proxy = []"
  "px_User zero_proxy = []"
  "px_Pass zero_proxy = []"
  "px_Proxy zero_proxy = []"
  "px_ProxyType zero_proxy = []"
  "px_Note zero_proxy = []"
  by (simp_all add: zero_proxy_def)

text \<open>The fields of a merged server.\<close>

lemma Deduct_sel:
  "sc_Tmpl (ServerConfigDeduct p c) = merge_str (sc_Tmpl p) (sc_Tmpl c)"
  "sc_Group (ServerConfigDeduct p c) = merge_list (sc_Group p) (sc_Group c)"
  "sc_Addr (ServerConfigDeduct p c) = merge_str (sc_Addr p) (sc_Addr c)"
  "sc_Port (ServerConfigDeduct p c) = merge_str (sc_Port p) (sc_Port c)"
  "sc_User (ServerConfigDeduct p c) = merge_str (sc_User p) (sc_User c)"
  "sc_Pass (ServerConfigDeduct p c) = merge_str (sc_Pass p) (sc_Pass c)"
  "sc_Passes (ServerConfigDeduct p c) = merge_list (sc_Passes p) (sc_Passes c)"
  "sc_Key (ServerConfigDeduct p c) = merge_str (sc_Key p) (sc_Key c)"
  "sc_OriginalKey (ServerConfigDeduct p c) = merge_str (sc_OriginalKey p) (sc_OriginalKey c)"
  "sc_KeyCommand (ServerConfigDeduct p c) = merge_str (sc_KeyCommand p) (sc_KeyCommand c)"
  "sc_KeyCommandPass (ServerConfigDeduct p c) = merge_str (sc_KeyCommandPass p) (sc_KeyCommandPass c)"
  "sc_KeyPass (ServerConfigDeduct p c) = merge_str (sc_KeyPass p) (sc_KeyPass c)"
  "sc_Keys (ServerConfigDeduct p c) = merge_list (sc_Keys p) (sc_Keys c)"
  "sc_Cert (ServerConfigDeduct p c) = merge_str (sc_Cert p) (sc_Cert c)"
  "sc_CertKey (ServerConfigDeduct p c) = merge_str (sc_CertKey p) (sc_CertKey c)"
  "sc_CertKeyPass (ServerConfigDeduct p c) = merge_str (sc_CertKeyPass p) (sc_CertKeyPass c)"
  "sc_CertPKCS11 (ServerConfigDeduct p c) = merge_bool (sc_CertPKCS11 p) (sc_CertPKCS11 c)"
  "sc_AgentAuth (ServerConfigDeduct p c) = merge_bool (sc_AgentAuth p) (sc_AgentAuth c)"
  "sc_SSHAgentUse (ServerConfigDeduct p c) = merge_bool (sc_SSHAgentUse p) (sc_SSHAgentUse c)"
  "sc_PKCS11Use (ServerConfigDeduct p c) = merge_bool (sc_PKCS11Use p) (sc_PKCS11Use c)"
  "sc_X11 (ServerConfigDeduct p c) = merge_bool (sc_X11 p) (sc_X11 c)"
  "sc_SSHAgentKeyPath (ServerConfigDeduct p c) = merge_list (sc_SSHAgentKeyPath p) (sc_SSHAgentKeyPath c)"
  "sc_PKCS11Provider (ServerConfigDeduct p c) = merge_str (sc_PKCS11Provider p) (sc_PKCS11Provider c)"
  "sc_PKCS11PIN (ServerConfigDeduct p c) = merge_str (sc_PKCS11PIN p) (sc_PKCS11PIN c)"
  "sc_PreCmd (ServerConfigDeduct p c) = merge_str (sc_PreCmd p) (sc_PreCmd c)"
  "sc_PostCmd (ServerConfigDeduct p c) = merge_str (sc_PostCmd p) (sc_PostCmd c)"
  "sc_ProxyType (ServerConfigDeduct p c) = merge_str (sc_ProxyType p) (sc_ProxyType c)"
  "sc_Proxy (ServerConfigDeduct p c) = merge_str (sc_Proxy p) (sc_Proxy c)"
  "sc_ProxyCommand (ServerConfigDeduct p c) = merge_str (sc_ProxyCommand p) (sc_ProxyCommand c)"
  "sc_LocalRcUse (ServerConfigDeduct p c) = merge_str (sc_LocalRcUse p) (sc_LocalRcUse c)"
  "sc_LocalRcPath (ServerConfigDeduct p c) = merge_list (sc_LocalRcPath p) (sc_LocalRcPath c)"
  "sc_LocalRcDecodeCmd (ServerConfigDeduct p c) = merge_str (sc_LocalRcDecodeCmd p) (sc_LocalRcDecodeCmd c)"
  "sc_PortForwardMode (ServerConfigDeduct p c) = merge_str (sc_PortForwardMode p) (sc_PortForwardMode c)"
  "sc_PortForwardLocal (ServerConfigDeduct p c) = merge_str (sc_PortForwardLocal p) (sc_PortForwardLocal c)"
  "sc_PortForwardRemote (ServerConfigDeduct p c) = merge_str (sc_PortForwardRemote p) (sc_PortForwardRemote c)"
  "sc_DynamicPortForward (ServerConfigDeduct p c) = merge_str (sc_DynamicPortForward p) (sc_DynamicPortForward c)"
  "sc_Note (ServerConfigDeduct p c) = merge_str (sc_Note p) (sc_Note c)"
  "sc_ConnectTimeout (ServerConfigDeduct p c) = sc_ConnectTimeout c"
  "sc_ServerAliveCountMax (ServerConfigDeduct p c) = sc_ServerAliveCountMax c"
  "sc_ServerAliveCountInterval (ServerConfigDeduct p c) = sc_ServerAliveCountInterval c"
  "sc_InitialCmd (ServerConfigDeduct p c) = merge_str (sc_InitialCmd p) (sc_InitialCmd c)"
  "sc_InitialCmdSleep (ServerConfigDeduct p c) = sc_InitialCmdSleep c"
  "sc_WebPort (ServerConfigDeduct p c) = sc_WebPort c"
  "sc_ID (ServerConfigDeduct p c) = merge_str (sc_ID p) (sc_ID c)"
  "sc_PassPbeEncrypted (ServerConfigDeduct p c) = merge_bool (sc_PassPbeEncrypted p) (sc_PassPbeEncrypted c)"
  "sc_Raw (ServerConfigDeduct p c) = merge_str (sc_Raw p) (sc_Raw c)"
  "sc_Host (ServerConfigDeduct p c) = sc_Host c"
  "sc_Brg (ServerConfigDeduct p c) = merge_str (sc_Brg p) (sc_Brg c)"
  "sc_DirectServer (ServerConfigDeduct p c) = merge_bool (sc_DirectServer p) (sc_DirectServer c)"
  by (simp_all only: ServerConfigDeduct_def server_config.select_convs)

lemma merge_assoc:
  "merge_str x (merge_str y z) = merge_str (merge_str x y) z"
  "merge_list xs (merge_list ys zs) = merge_list (merge_list xs ys) zs"
  "merge_bool a (merge_bool b d) = merge_bool (merge_bool a b) d"
  by auto

end
