(* ===== verification/Conf.thy ===== *)
theory Conf
  imports Conf_Types
begin

text \<open>
  Package \<open>conf\<close> (src/conf/conf.go, group.go, tmpl.go, conf_host.go): how the decoded
  configuration becomes the server map (common settings, templates, direct hosts, includes), the
  groups, the search for a host by name or pattern, the host arguments of the command line and the
  file of temporary hosts. A Go map is a function \<open>key \<rightharpoonup> value\<close>; a range over
  it takes the order of its keys as an argument (\<open>es\<close> or \<open>ks\<close>). The libraries
  hostparse, ss (\<open>Split\<close>, \<open>PbeEncode\<close>), homedir, xxhash and the TOML decoder are
  arguments.
\<close>

section \<open>The configuration\<close>

record config =
  c_ExtraPassphrase :: string
  c_Grouping :: default_true
  c_ExtraAutoEncryptPwd :: default_true
  c_AutoEncryptPwd :: default_true
  c_Passphrase :: string
  c_Common :: server_config
  c_Server :: "string \<rightharpoonup> server_config"
  c_Proxy :: "string \<rightharpoonup> proxy_config"
  c_Hosts :: "string list"
  c_tempHostsFile :: string
  c_tempHosts :: "string set"
  c_grouping :: "string \<rightharpoonup> (string \<rightharpoonup> server_config)"

definition IsAutoEncryptPwd :: "config \<Rightarrow> bool" where
  "IsAutoEncryptPwd cf \<longleftrightarrow> dt_Get (c_ExtraAutoEncryptPwd cf) \<or> dt_Get (c_AutoEncryptPwd cf)"

section \<open>Templates (tmpl.go)\<close>

text \<open>\<open>util.ExpandFile\<close>: a failure ends the program.\<close>

definition IsSymlinkFile :: "(string \<Rightarrow> lstat) \<Rightarrow> string \<Rightarrow> bool" where
  "IsSymlinkFile fs name = (case fs name of Symlink _ \<Rightarrow> True | _ \<Rightarrow> False)"

definition ExpandFile ::
  "(string \<Rightarrow> string option) \<Rightarrow> (string \<Rightarrow> lstat) \<Rightarrow> (string \<Rightarrow> string option) \<Rightarrow> (string \<Rightarrow> bool)
   \<Rightarrow> string \<Rightarrow> string outcome" where
  "ExpandFile homeExpand fs evalSymlinks statOk filePath =
     (case homeExpand filePath of
        None \<Rightarrow> Exit 1
      | Some fp \<Rightarrow>
          obind (if IsSymlinkFile fs fp
                 then (case evalSymlinks fp of None \<Rightarrow> Exit 1 | Some linked \<Rightarrow> Done linked)
                 else Done fp)
            (\<lambda>fp'. if statOk fp' then Done fp' else Exit 1))"

text \<open>The range over the properties; a property without a value panics.\<close>

fun subst_loop :: "(string \<times> string list) list \<Rightarrow> string \<Rightarrow> string outcome" where
  "subst_loop [] s = Done s"
| "subst_loop ((k, v) # props) s =
     obind (go_index v 0) (\<lambda>v0. subst_loop props (replace_all s (''{'' @ k @ ''}'') v0))"

definition substituteProps :: "string \<Rightarrow> (string \<times> string list) list \<Rightarrow> string outcome" where
  "substituteProps s props = (if s = [] then Done s else subst_loop props s)"

definition prop_vals :: "parsed_host \<Rightarrow> string \<Rightarrow> string list" where
  "prop_vals t k = (case map_of (h_Props t) k of Some v \<Rightarrow> v | None \<Rightarrow> [])"

text \<open>The conditional assignments of \<open>createServerConfigFromHost\<close>, one for each property.\<close>

definition fill_proxy :: "string list \<Rightarrow> server_config \<Rightarrow> server_config" where
  "fill_proxy v c = (if v \<noteq> [] \<and> sc_Proxy c = [] then c\<lparr>sc_Proxy := hd v\<rparr> else c)"

definition fill_group :: "(string \<Rightarrow> string list) \<Rightarrow> string list \<Rightarrow> server_config \<Rightarrow> server_config" where
  "fill_group split v c = (if v \<noteq> [] \<and> sc_Group c = [] then c\<lparr>sc_Group := split (hd v)\<rparr> else c)"

definition fill_note :: "string list \<Rightarrow> server_config \<Rightarrow> server_config" where
  "fill_note v c = (if v \<noteq> [] \<and> sc_Note c = [] then c\<lparr>sc_Note := hd v\<rparr> else c)"

definition fill_id :: "string list \<Rightarrow> server_config \<Rightarrow> server_config" where
  "fill_id v c = (if v \<noteq> [] \<and> sc_ID c = [] then c\<lparr>sc_ID := hd v\<rparr> else c)"

definition fill_key :: "(string \<Rightarrow> string outcome) \<Rightarrow> string list \<Rightarrow> server_config \<Rightarrow> server_config outcome" where
  "fill_key expandFile v c =
     (if v \<noteq> [] \<and> sc_Key c = [] then obind (expandFile (hd v)) (\<lambda>k. Done (c\<lparr>sc_Key := k\<rparr>)) else Done c)"

definition fill_cmd :: "string list \<Rightarrow> server_config \<Rightarrow> server_config" where
  "fill_cmd v c = (if v \<noteq> [] \<and> sc_InitialCmd c = [] then c\<lparr>sc_InitialCmd := hd v\<rparr> else c)"

definition fill_ip :: "string list \<Rightarrow> server_config \<Rightarrow> server_config" where
  "fill_ip v c =
     (if v \<noteq> [] then c\<lparr>sc_Note := sc_Note c @ (if sc_Note c \<noteq> [] then '' '' else []) @ ''IP: '' @ hd v\<rparr> else c)"

definition fill_brg :: "string list \<Rightarrow> server_config \<Rightarrow> server_config" where
  "fill_brg v c = (if v \<noteq> [] then c\<lparr>sc_Brg := hd v\<rparr> else c)"

definition fill_texts :: "parsed_host \<Rightarrow> server_config \<Rightarrow> server_config outcome" where
  "fill_texts t c =
     obind (substituteProps (sc_InitialCmd c) (h_Props t)) (\<lambda>cmd.
     obind (substituteProps (sc_Note c) (h_Props t)) (\<lambda>note.
       Done (c\<lparr>sc_InitialCmd := cmd, sc_Note := note, sc_Raw := h_Raw t, sc_Host := Some t\<rparr>)))"

definition createServerConfigFromHost ::
  "(string \<Rightarrow> string list) \<Rightarrow> (string \<Rightarrow> string outcome) \<Rightarrow> parsed_host \<Rightarrow> server_config \<Rightarrow> server_config outcome" where
  "createServerConfigFromHost split expandFile t c =
     obind (fill_key expandFile (prop_vals t ''key'')
              (fill_id (prop_vals t ''auto_id'') (fill_id (prop_vals t ''id'')
                (fill_note (prop_vals t ''note'') (fill_group split (prop_vals t ''group'')
                  (fill_proxy (prop_vals t ''proxy'')
                    (c\<lparr>sc_Addr := h_Addr t, sc_Port := h_Port t, sc_User := h_User t, sc_Pass := h_Password t\<rparr>)))))))
       (\<lambda>c'. fill_texts t (fill_brg (prop_vals t ''brg'') (fill_ip (prop_vals t ''IP'')
                (fill_cmd (prop_vals t ''initial_cmd'') c'))))"

record tmpl_config =
  tc_k :: string
  tc_c :: server_config
  tc_t :: "parsed_host list"

definition createKey :: "tmpl_config \<Rightarrow> string \<Rightarrow> nat \<Rightarrow> string" where
  "createKey tc tid i =
     (if tid \<noteq> [] then tc_k tc @ tid
      else if length (tc_t tc) > 1 then tc_k tc @ format_uint (i + 1)
      else tc_k tc)"

definition pbe_prefix :: string where
  "pbe_prefix = ''{PBE}''"

fun tmpl_hosts_loop ::
  "(parsed_host \<Rightarrow> server_config \<Rightarrow> server_config outcome) \<Rightarrow> tmpl_config \<Rightarrow> nat \<Rightarrow> parsed_host list
   \<Rightarrow> (string \<rightharpoonup> server_config) \<Rightarrow> (string \<rightharpoonup> server_config) outcome" where
  "tmpl_hosts_loop create tc i [] m = Done m"
| "tmpl_hosts_loop create tc i (t # ts) m =
     obind (create t (tc_c tc)) (\<lambda>sc.
       tmpl_hosts_loop create tc (Suc i) ts
         (m(createKey tc (h_ID t) i \<mapsto> sc\<lparr>sc_PassPbeEncrypted := has_prefix (sc_Pass sc) pbe_prefix\<rparr>)))"

fun tmplServers ::
  "(parsed_host \<Rightarrow> server_config \<Rightarrow> server_config outcome) \<Rightarrow> tmpl_config list
   \<Rightarrow> (string \<rightharpoonup> server_config) \<Rightarrow> (string \<rightharpoonup> server_config) outcome" where
  "tmplServers create [] m = Done m"
| "tmplServers create (tc # tcs) m =
     obind (tmpl_hosts_loop create tc 0 (tc_t tc) m) (tmplServers create tcs)"

section \<open>Server maps (conf.go)\<close>

text \<open>
  The first loop of \<open>parseConfigServers\<close> over the entries \<open>es\<close>: the map so far and
  the templates found.
\<close>

fun servers_loop ::
  "(string \<Rightarrow> parsed_host list) \<Rightarrow> server_config \<Rightarrow> (string \<times> server_config) list
   \<Rightarrow> (string \<rightharpoonup> server_config) \<Rightarrow> tmpl_config list \<Rightarrow> (string \<rightharpoonup> server_config) \<times> tmpl_config list" where
  "servers_loop parse setCommon [] m tcs = (m, tcs)"
| "servers_loop parse setCommon ((key, v) # es) m tcs =
     (let setValue = (ServerConfigDeduct setCommon v)\<lparr>sc_ID := key\<rparr> in
      if sc_Tmpl v \<noteq> []
      then servers_loop parse setCommon es (m(key := None))
             (tcs @ [\<lparr>tc_k = key, tc_c = setValue, tc_t = parse (sc_Tmpl setValue)\<rparr>])
      else servers_loop parse setCommon es (m(key \<mapsto> setValue)) tcs)"

definition parseConfigServers ::
  "(string \<Rightarrow> parsed_host list) \<Rightarrow> (parsed_host \<Rightarrow> server_config \<Rightarrow> server_config outcome)
   \<Rightarrow> (string \<times> server_config) list \<Rightarrow> server_config
   \<Rightarrow> (string \<rightharpoonup> server_config) \<Rightarrow> (string \<rightharpoonup> server_config) outcome" where
  "parseConfigServers parse create configServers setCommon m =
     (let (m', tcs) = servers_loop parse setCommon configServers m [] in tmplServers create tcs m')"

text \<open>The loop over the direct hosts in \<open>ReadConf\<close>; \<open>hashID\<close> is the hash of the JSON text.\<close>

fun direct_hosts_loop ::
  "(parsed_host \<Rightarrow> server_config \<Rightarrow> server_config outcome) \<Rightarrow> (server_config \<Rightarrow> string) \<Rightarrow> parsed_host list
   \<Rightarrow> (string \<rightharpoonup> server_config) \<Rightarrow> (string \<rightharpoonup> server_config) outcome" where
  "direct_hosts_loop create hashID [] m = Done m"
| "direct_hosts_loop create hashID (t # ts) m =
     obind (create t zero_server) (\<lambda>sc0.
       let sc1 = (if sc_ID sc0 = [] then sc0\<lparr>sc_ID := hashID sc0\<rparr> else sc0);
           sc = sc1\<lparr>sc_PassPbeEncrypted := has_prefix (sc_Pass sc1) pbe_prefix\<rparr>
       in direct_hosts_loop create hashID ts (if m (sc_ID sc) = None then m(sc_ID sc \<mapsto> sc) else m))"

text \<open>\<open>readIncludeFiles\<close> after decoding: the common settings and the servers of each file.\<close>

fun include_loop ::
  "(string \<Rightarrow> parsed_host list) \<Rightarrow> (parsed_host \<Rightarrow> server_config \<Rightarrow> server_config outcome) \<Rightarrow> server_config
   \<Rightarrow> (server_config \<times> (string \<times> server_config) list) list
   \<Rightarrow> (string \<rightharpoonup> server_config) \<Rightarrow> (string \<rightharpoonup> server_config) outcome" where
  "include_loop parse create cfCommon [] m = Done m"
| "include_loop parse create cfCommon ((incCommon, es) # incs) m =
     obind (parseConfigServers parse create es (ServerConfigDeduct cfCommon incCommon) m)
       (include_loop parse create cfCommon incs)"

definition CheckFormatServerConfAuth :: "(string \<Rightarrow> bool) \<Rightarrow> server_config \<Rightarrow> bool" where
  "CheckFormatServerConfAuth statOk c \<longleftrightarrow>
     (sc_Pass c \<noteq> [] \<or> sc_Key c \<noteq> [] \<or> sc_Cert c \<noteq> [])
     \<or> sc_AgentAuth c
     \<or> (sc_PKCS11Use c \<and> statOk (sc_PKCS11Provider c))
     \<or> (sc_Keys c \<noteq> [] \<or> sc_Passes c \<noteq> [])"

fun CheckFormatServerConf :: "(string \<Rightarrow> bool) \<Rightarrow> server_config list \<Rightarrow> bool" where
  "CheckFormatServerConf statOk [] = True"
| "CheckFormatServerConf statOk (v # vs) =
     ((if sc_Addr v = [] \<or> sc_User v = [] \<or> \<not> CheckFormatServerConfAuth statOk v then False else True)
      \<and> CheckFormatServerConf statOk vs)"

text \<open>\<open>GetNameList\<close> and \<open>GetNameSortedList\<close> of the keys.\<close>

definition GetNameList :: "string list \<Rightarrow> string list" where
  "GetNameList ks = sort ks"

definition GetNameSortedList :: "string list \<Rightarrow> string list" where
  "GetNameSortedList ks = sort (GetNameList ks)"

section \<open>Host search\<close>

definition IsDirectServer :: "string \<Rightarrow> bool" where
  "IsDirectServer server \<longleftrightarrow> go_pos (str_index ''@'' server) > 0"

text \<open>\<open>Unique\<close>: \<open>um\<close> is the set of the values seen.\<close>

fun uniq_scan :: "string set \<Rightarrow> string list \<Rightarrow> string list \<Rightarrow> string list" where
  "uniq_scan um us [] = us"
| "uniq_scan um us (v # vs) =
     (if v \<notin> um then uniq_scan (insert v um) (us @ [v]) vs else uniq_scan um us vs)"

definition Unique :: "string list \<Rightarrow> string list" where
  "Unique slice = uniq_scan {} [] slice"

definition conn_info :: "server_config \<Rightarrow> string" where
  "conn_info v = sc_User v @ ''@'' @ sc_Addr v @ '':'' @ sc_Port v"

text \<open>\<open>matchesFn\<close>, ranging over the keys in the order \<open>ks\<close>.\<close>

fun matchesFn :: "(string \<Rightarrow> server_config \<Rightarrow> bool) \<Rightarrow> (string \<rightharpoonup> server_config) \<Rightarrow> string list \<Rightarrow> string list" where
  "matchesFn f m [] = []"
| "matchesFn f m (k # ks) = (if f k (server_at m k) then k # matchesFn f m ks else matchesFn f m ks)"

text \<open>
  The three passes of \<open>globMatch\<close> and \<open>containsMatch\<close>: by name, by connection, by
  note; a pass with one match decides.
\<close>

definition three_passes ::
  "(string \<Rightarrow> bool) \<Rightarrow> (string \<rightharpoonup> server_config) \<Rightarrow> string list \<Rightarrow> string list \<Rightarrow> string list \<Rightarrow> (string list \<Rightarrow> string list) \<Rightarrow> string list" where
  "three_passes test m ks1 ks2 ks3 finish =
     (let r1 = matchesFn (\<lambda>k v. test k) m ks1 in
      if length r1 = 1 then r1
      else let r2 = matchesFn (\<lambda>k v. test (conn_info v)) m ks2 in
      if length r2 = 1 then r2
      else let r3 = matchesFn (\<lambda>k v. test (sc_Note v)) m ks3 in
      if length r3 = 1 then r3
      else finish (r1 @ r2 @ r3))"

text \<open>
  Six ranges over the same map, each with its own order. \<open>glob\<close> is \<open>filepath.Match\<close>
  with its error read as no match.
\<close>

type_synonym orders = "nat \<Rightarrow> string list"

definition globMatch :: "(string \<Rightarrow> string \<Rightarrow> bool) \<Rightarrow> (string \<rightharpoonup> server_config) \<Rightarrow> orders \<Rightarrow> string \<Rightarrow> string list" where
  "globMatch glob m en host = three_passes (glob host) m (en 0) (en 1) (en 2) (\<lambda>xs. xs)"

definition containsMatch :: "(string \<rightharpoonup> server_config) \<Rightarrow> orders \<Rightarrow> string \<Rightarrow> string list" where
  "containsMatch m en host = three_passes (\<lambda>s. contains s host) m (en 3) (en 4) (en 5) Unique"

definition EnsureSearchHost ::
  "(string \<Rightarrow> string \<Rightarrow> bool) \<Rightarrow> (string \<rightharpoonup> server_config) \<Rightarrow> orders \<Rightarrow> string \<Rightarrow> string \<times> string list" where
  "EnsureSearchHost glob m en host =
     (if IsDirectServer host then (host, [])
      else let m1 = globMatch glob m en host in
      if length m1 = 1 then (hd m1, [])
      else let m2 = containsMatch m en host in
      if length m2 = 1 then (hd m2, [])
      else if m1 @ m2 = [] then ([], GetNameSortedList (en 6))
      else ([], m1 @ m2))"

section \<open>Host arguments (conf\_host.go)\<close>

record arg_option =
  ao_Name :: string
  ao_Short :: string
  ao_Values :: "string list"

fun find_by :: "(arg_option \<Rightarrow> string) \<Rightarrow> string \<Rightarrow> arg_option list \<Rightarrow> nat option" where
  "find_by sel name [] = None"
| "find_by sel name (op # ops) =
     (if sel op = name then Some 0 else map_option Suc (find_by sel name ops))"

definition FindByName :: "arg_option list \<Rightarrow> string \<Rightarrow> nat option" where
  "FindByName ops name = find_by ao_Name name ops"

definition FindByShort :: "arg_option list \<Rightarrow> string \<Rightarrow> nat option" where
  "FindByShort ops name = find_by ao_Short name ops"

definition option_values :: "arg_option list \<Rightarrow> string \<Rightarrow> string list" where
  "option_values ops name = (case FindByName ops name of None \<Rightarrow> [] | Some i \<Rightarrow> ao_Values (ops ! i))"

definition match_option :: "arg_option list \<Rightarrow> string \<Rightarrow> nat option" where
  "match_option ops arg =
     (if has_prefix arg ''--'' then FindByName ops (drop 2 arg)
      else if has_prefix arg ''-'' then FindByShort ops (drop 1 arg)
      else None)"

fun more_loop :: "arg_option list \<Rightarrow> string list \<Rightarrow> string list \<times> arg_option list" where
  "more_loop ops [] = ([], ops)"
| "more_loop ops [arg] = ([arg], ops)"
| "more_loop ops (arg # nxt # rest) =
     (case match_option ops arg of
        Some i \<Rightarrow>
          if \<not> has_prefix nxt ''-''
          then more_loop (ops[i := (ops ! i)\<lparr>ao_Values := ao_Values (ops ! i) @ [nxt]\<rparr>]) rest
          else (let (xs, ops') = more_loop ops (nxt # rest) in (arg # xs, ops'))
      | None \<Rightarrow> let (xs, ops') = more_loop ops (nxt # rest) in (arg # xs, ops'))"

definition host_option :: arg_option where
  "host_option = \<lparr>ao_Name = ''host'', ao_Short = ''H'', ao_Values = []\<rparr>"

definition ParseMoreOptions :: "string list \<Rightarrow> string list \<times> arg_option list" where
  "ParseMoreOptions args = more_loop [host_option] args"

text \<open>\<open>parseTargetLine\<close>: \<open>p[0]\<close> panics on a blank line.\<close>

fun target_props :: "string list \<Rightarrow> (string \<rightharpoonup> string list) \<Rightarrow> (string \<rightharpoonup> string list)" where
  "target_props [] m = m"
| "target_props (f # fs) m =
     (let pos = go_pos (str_index ''='' f) in
      if pos > 0
      then let k = take (nat pos) f
           in target_props fs (m(k \<mapsto> (case m k of Some v \<Rightarrow> v | None \<Rightarrow> []) @ [drop (nat pos + 1) f]))
      else target_props fs m)"

definition parseTargetLine :: "string \<Rightarrow> (string \<times> (string \<rightharpoonup> string list)) outcome" where
  "parseTargetLine targetLine =
     (case go_fields targetLine of
        [] \<Rightarrow> Panic
      | target # fs \<Rightarrow> Done (target, target_props fs Map.empty))"

text \<open>
  The hosts of \<open>ExpandHosts\<close>: the \<open>-H\<close> flags, the values found by
  \<open>ParseMoreOptions\<close> and, when \<open>$TARGET\<close> decodes, its user and host.
\<close>

definition target_hosts :: "string option \<Rightarrow> string list outcome" where
  "target_hosts targetLine =
     (case targetLine of
        None \<Rightarrow> Done []
      | Some l \<Rightarrow> obind (parseTargetLine l) (\<lambda>(targetHost, props).
          Done (case props ''user'' of
                  Some (u # us) \<Rightarrow> if u \<noteq> [] then [u @ ''@'' @ targetHost] else []
                | _ \<Rightarrow> [])))"

text \<open>\<open>Inl\<close> is the early return of the sorted candidates.\<close>

fun expand_loop ::
  "(string \<rightharpoonup> server_config) \<Rightarrow> (string \<Rightarrow> string \<times> string list) \<Rightarrow> string list \<Rightarrow> string list + string list" where
  "expand_loop m search [] = Inr []"
| "expand_loop m search (sh # shs) =
     (if m sh \<noteq> None
      then (case expand_loop m search shs of Inl c \<Rightarrow> Inl c | Inr xs \<Rightarrow> Inr (sh # xs))
      else let (host, cands) = search sh in
           if cands \<noteq> [] then Inl (sort cands)
           else (case expand_loop m search shs of Inl c \<Rightarrow> Inl c | Inr xs \<Rightarrow> Inr (host # xs)))"

definition ExpandHosts ::
  "(string \<Rightarrow> string list) \<Rightarrow> (string \<rightharpoonup> server_config) \<Rightarrow> (string \<Rightarrow> string \<times> string list)
   \<Rightarrow> string list \<Rightarrow> arg_option list option \<Rightarrow> string option \<Rightarrow> (string list + string list) outcome" where
  "ExpandHosts split m search flagHosts options targetLine =
     obind (target_hosts targetLine) (\<lambda>ths.
       let hosts = flagHosts @ (case options of Some ops \<Rightarrow> option_values ops ''host'' | None \<Rightarrow> []) @ ths
       in Done (expand_loop m search (concat (map split hosts))))"

section \<open>Groups (group.go)\<close>

fun first_free :: "(string \<Rightarrow> bool) \<Rightarrow> string list \<Rightarrow> string" where
  "first_free used [] = []"
| "first_free used (g # gs) = (if \<not> used g then g else first_free used gs)"

definition others_names :: "string list" where
  "others_names = [''others'', ''default'', ''else'', ''TDXX'']"

definition pickOthersGroupName :: "config \<Rightarrow> string" where
  "pickOthersGroupName cf = first_free (\<lambda>g. c_grouping cf g \<noteq> None) others_names"

definition BelongsToGroup :: "config \<Rightarrow> server_config \<Rightarrow> string \<Rightarrow> bool" where
  "BelongsToGroup cf c name =
     (let othersGroupName = pickOthersGroupName cf in
      if sc_Group c = [] then name = [] \<or> name = othersGroupName
      else if name = [] \<or> name = othersGroupName then False
      else list_ex (\<lambda>g. has_prefix g name) (sc_Group c))"

type_synonym groups = "string \<rightharpoonup> (string \<rightharpoonup> server_config)"

definition addGroup :: "string \<Rightarrow> string \<Rightarrow> server_config \<Rightarrow> groups \<Rightarrow> groups" where
  "addGroup grp name v gs =
     (case gs grp of
        Some m \<Rightarrow> gs(grp \<mapsto> m(name \<mapsto> v))
      | None \<Rightarrow> gs(grp \<mapsto> Map.empty(name \<mapsto> v)))"

fun groups_loop :: "(string \<times> server_config) list \<Rightarrow> groups \<Rightarrow> groups" where
  "groups_loop [] gs = gs"
| "groups_loop ((k, v) # es) gs =
     groups_loop es (if sc_Group v = [] then addGroup [] k v gs
                     else fold (\<lambda>g. addGroup g k v) (sc_Group v) gs)"

definition parseGroups :: "(string \<times> server_config) list \<Rightarrow> config \<Rightarrow> config" where
  "parseGroups es cf = cf\<lparr>c_grouping := groups_loop es Map.empty\<rparr>"

definition FilterNamesByGroup :: "config \<Rightarrow> string \<Rightarrow> string list \<Rightarrow> string list" where
  "FilterNamesByGroup cf grp names =
     (if \<not> dt_Get (c_Grouping cf) then names
      else filter (\<lambda>name. BelongsToGroup cf (server_at (c_Server cf) name) grp) names)"

definition GroupsNames :: "config \<Rightarrow> string list \<Rightarrow> string list" where
  "GroupsNames cf ks = sort (map (\<lambda>k. if k = [] then pickOthersGroupName cf else k) ks)"

section \<open>Temporary hosts\<close>

definition host_lines :: "string \<Rightarrow> string list" where
  "host_lines file =
     filter (\<lambda>l. l \<noteq> [] \<and> \<not> has_prefix l ''#'') (map trim_space (split_on newline file))"

text \<open>\<open>loadTempHosts\<close>; \<open>file\<close> is \<open>None\<close> when the file does not exist.\<close>

definition loadTempHosts :: "string \<Rightarrow> string option \<Rightarrow> config \<Rightarrow> config" where
  "loadTempHosts confPath file cf =
     (let cf' = cf\<lparr>c_tempHostsFile := trim_suffix confPath ''.toml'' @ ''.hosts'', c_tempHosts := {}\<rparr> in
      case file of
        None \<Rightarrow> cf'
      | Some s \<Rightarrow> cf'\<lparr>c_tempHosts := set (host_lines s),
                     c_Hosts := c_Hosts cf' @ sort (remdups (host_lines s))\<rparr>)"

text \<open>
  The pattern \<open>\{PBE\}.*?@\<close> of \<open>removePBEStrings\<close>: the shortest text up to the next
  \<open>@\<close> on the same line.
\<close>

function remove_pbe :: "string \<Rightarrow> string" where
  "remove_pbe [] = []"
| "remove_pbe (c # cs) =
     (if prefix pbe_prefix (c # cs)
      then let body = drop (length pbe_prefix) (c # cs);
               before = takeWhile (\<lambda>x. x \<noteq> CHR ''@'' \<and> x \<noteq> newline) body;
               after = drop (length before) body
           in if after \<noteq> [] \<and> hd after = CHR ''@'' then CHR ''@'' # remove_pbe (tl after)
              else c # remove_pbe cs
      else c # remove_pbe cs)"
  by pat_completeness auto
termination
  by (relation "measure length") (auto simp: pbe_prefix_def Let_def)

definition removePBEStrings :: "string \<Rightarrow> string" where
  "removePBEStrings input =
     remove_pbe (let i = go_pos (str_index ''#'' input)
                 in if i > 0 then trim_space (take (nat i) input) else input)"

text \<open>
  \<open>WriteTempHosts\<close>: the line appended to the file, \<open>None\<close> when nothing is written.
  \<open>pbePwd\<close>, \<open>brgEnv\<close> and \<open>note\<close> are the passphrase set in viper, the environment
  and the typed comment.
\<close>

definition encrypt_host :: "(string \<Rightarrow> string) \<Rightarrow> string \<Rightarrow> string \<Rightarrow> string \<Rightarrow> string" where
  "encrypt_host pbeEncode pbePwd pass tempHost =
     (if pass \<noteq> [] \<and> \<not> has_prefix pass pbe_prefix \<and> pbePwd \<noteq> []
      then if contains tempHost pass then replace_all tempHost pass (pbeEncode pass)
           else (case str_last_index ''@'' tempHost of
                   Some p \<Rightarrow> take p tempHost @ '':'' @ pbeEncode pass @ drop p tempHost
                 | None \<Rightarrow> tempHost)
      else tempHost)"

definition WriteTempHosts ::
  "(string \<Rightarrow> string) \<Rightarrow> string \<Rightarrow> string \<Rightarrow> string \<Rightarrow> string \<Rightarrow> string \<Rightarrow> server_config \<Rightarrow> config
   \<Rightarrow> config \<times> string option" where
  "WriteTempHosts pbeEncode pbePwd target brgEnv note tempHost sc cf =
     (if (\<exists>k \<in> c_tempHosts cf. removePBEStrings k = replace_all tempHost (sc_Pass sc) []) then (cf, None)
      else if target \<noteq> [] then (cf, None)
      else (cf\<lparr>c_tempHosts := insert tempHost (c_tempHosts cf)\<rparr>,
            Some (encrypt_host pbeEncode pbePwd (sc_Pass sc) tempHost @ '' id='' @ sc_ID sc
                  @ (if brgEnv = ''0'' then '' brg=0'' else [])
                  @ (if sc_OriginalKey sc \<noteq> [] then '' key='' @ sc_OriginalKey sc else [])
                  @ (if note \<noteq> [] then '' # '' @ note else [])
                  @ [newline])))"

section \<open>Reading the configuration\<close>

text \<open>
  \<open>ReadConf\<close> after the decoding of the file into \<open>cf\<close>: \<open>enum\<close> ranges over a
  map, \<open>hostsFile\<close> is the content of the temporary hosts, \<open>sshDefault\<close> the servers of
  the OpenSSH configuration (\<open>None\<close> on an error), \<open>sshConfigs\<close> those of the sections
  \<open>sshconfig\<close> with their settings, \<open>includes\<close> the decoded include files.
\<close>

definition ReadConf ::
  "((string \<rightharpoonup> server_config) \<Rightarrow> (string \<times> server_config) list) \<Rightarrow> (string \<Rightarrow> parsed_host list)
   \<Rightarrow> (parsed_host \<Rightarrow> server_config \<Rightarrow> server_config outcome) \<Rightarrow> (server_config \<Rightarrow> string)
   \<Rightarrow> string \<Rightarrow> string option \<Rightarrow> (string \<times> server_config) list option
   \<Rightarrow> (server_config \<times> (string \<times> server_config) list option) list
   \<Rightarrow> (server_config \<times> (string \<times> server_config) list) list \<Rightarrow> config \<Rightarrow> config outcome" where
  "ReadConf enum parse create hashID confPath hostsFile sshDefault sshConfigs includes cf =
     (let cf1 = loadTempHosts confPath hostsFile cf in
      obind (parseConfigServers parse create (enum (c_Server cf1)) (c_Common cf1) (c_Server cf1)) (\<lambda>m1.
      obind (direct_hosts_loop create hashID (concat (map parse (c_Hosts cf1))) m1) (\<lambda>m2.
      obind (if sshConfigs = []
             then (case sshDefault of
                     None \<Rightarrow> Done m2
                   | Some es \<Rightarrow> parseConfigServers parse create es (c_Common cf1) m2)
             else include_loop parse create (c_Common cf1)
                    (concat (map (\<lambda>(sc, es). case es of Some es' \<Rightarrow> [(sc, es')] | None \<Rightarrow> []) sshConfigs)) m2) (\<lambda>m3.
      obind (include_loop parse create (c_Common cf1) includes m3) (\<lambda>m4.
        Done (parseGroups (enum m4) (cf1\<lparr>c_Server := m4\<rparr>)))))))"

section \<open>Facts on the search\<close>

lemma uniq_scan_snoc:
  "uniq_scan um us (xs @ [x]) =
   (if x \<in> um \<or> x \<in> set xs then uniq_scan um us xs else uniq_scan um us xs @ [x])"
  by (induction xs arbitrary: um us) auto

interpretation hosts: dedup Unique
  by unfold_locales (auto simp: Unique_def uniq_scan_snoc)

lemma matchesFn_filter: "matchesFn f m ks = filter (\<lambda>k. f k (server_at m k)) ks"
  by (induction ks) auto

definition enumerates :: "string list \<Rightarrow> (string \<rightharpoonup> 'a) \<Rightarrow> bool" where
  "enumerates ks m \<longleftrightarrow> distinct ks \<and> set ks = dom m"

lemma filter_single:
  assumes "enumerates ks m"
  shows "filter P ks = [k] \<longleftrightarrow> {x \<in> dom m. P x} = {k}"
proof
  assume f: "filter P ks = [k]"
  have "set (filter P ks) = {x \<in> dom m. P x}" using assms by (auto simp: enumerates_def)
  with f show "{x \<in> dom m. P x} = {k}" by simp
next
  assume "{x \<in> dom m. P x} = {k}"
  then have s: "set (filter P ks) = {k}" using assms by (auto simp: enumerates_def)
  have "distinct (filter P ks)" using assms by (simp add: enumerates_def)
  with s show "filter P ks = [k]"
    by (metis distinct_card card_1_singleton_iff card.empty card_insert_disjoint empty_iff finite.emptyI
        length_Suc_conv length_0_conv list.set_intros(1) singletonD)
qed

text \<open>The single key the three passes agree on, if any.\<close>

definition pass3 :: "string set \<Rightarrow> string set \<Rightarrow> string set \<Rightarrow> string \<Rightarrow> bool" where
  "pass3 A B C k \<longleftrightarrow>
     (if \<exists>x. A = {x} then A = {k} else if \<exists>x. B = {x} then B = {k} else C = {k})"

lemma length_one: "length xs = 1 \<longleftrightarrow> (\<exists>x. xs = [x])"
  by (cases xs) auto

lemma union_single:
  assumes "A \<union> B \<union> C = {x}" and "\<not> (\<exists>x. A = {x})" and "\<not> (\<exists>x. B = {x})" and "\<not> (\<exists>x. C = {x})"
  shows False
proof -
  have "A \<subseteq> {x}" "B \<subseteq> {x}" "C \<subseteq> {x}" using assms(1) by auto
  then have "A = {}" "B = {}" "C = {}" using assms(2-4) by (auto dest!: subset_singletonD)
  with assms(1) show False by simp
qed

lemma three_passes_single:
  assumes en: "enumerates k1 m" "enumerates k2 m" "enumerates k3 m" and fin: "\<And>xs. set (finish xs) = set xs"
  shows "three_passes test m k1 k2 k3 finish = [k] \<longleftrightarrow>
     pass3 {x \<in> dom m. test x} {x \<in> dom m. test (conn_info (server_at m x))}
           {x \<in> dom m. test (sc_Note (server_at m x))} k"
proof -
  let ?A = "{x \<in> dom m. test x}" and ?B = "{x \<in> dom m. test (conn_info (server_at m x))}"
    and ?C = "{x \<in> dom m. test (sc_Note (server_at m x))}"
  let ?r1 = "filter (\<lambda>k. test k) k1" and ?r2 = "filter (\<lambda>k. test (conn_info (server_at m k))) k2"
    and ?r3 = "filter (\<lambda>k. test (sc_Note (server_at m k))) k3"
  have sets: "set ?r1 = ?A" "set ?r2 = ?B" "set ?r3 = ?C" using en by (auto simp: enumerates_def)
  have s: "?r1 = [x] \<longleftrightarrow> ?A = {x}" "?r2 = [x] \<longleftrightarrow> ?B = {x}" "?r3 = [x] \<longleftrightarrow> ?C = {x}" for x
    by (rule filter_single [OF en(1)], rule filter_single [OF en(2)], rule filter_single [OF en(3)])
  have last: "finish (?r1 @ ?r2 @ ?r3) \<noteq> [x]"
    if "\<not> (\<exists>x. ?r1 = [x])" "\<not> (\<exists>x. ?r2 = [x])" "\<not> (\<exists>x. ?r3 = [x])" for x
  proof
    assume "finish (?r1 @ ?r2 @ ?r3) = [x]"
    then have u: "?A \<union> ?B \<union> ?C = {x}" using fin [of "?r1 @ ?r2 @ ?r3"] sets by auto
    from that s have "\<not> (\<exists>x. ?A = {x})" "\<not> (\<exists>x. ?B = {x})" "\<not> (\<exists>x. ?C = {x})" by metis+
    with u show False by (rule union_single)
  qed
  show ?thesis
    unfolding three_passes_def matchesFn_filter Let_def length_one pass3_def s
    using last s by auto
qed

definition good_orders :: "(string \<rightharpoonup> server_config) \<Rightarrow> orders \<Rightarrow> bool" where
  "good_orders m en \<longleftrightarrow> (\<forall>i. enumerates (en i) m)"

definition glob_pass :: "(string \<Rightarrow> string \<Rightarrow> bool) \<Rightarrow> (string \<rightharpoonup> server_config) \<Rightarrow> string \<Rightarrow> string \<Rightarrow> bool" where
  "glob_pass glob m host = pass3 {x \<in> dom m. glob host x} {x \<in> dom m. glob host (conn_info (server_at m x))}
     {x \<in> dom m. glob host (sc_Note (server_at m x))}"

definition contains_pass :: "(string \<rightharpoonup> server_config) \<Rightarrow> string \<Rightarrow> string \<Rightarrow> bool" where
  "contains_pass m host = pass3 {x \<in> dom m. contains x host} {x \<in> dom m. contains (conn_info (server_at m x)) host}
     {x \<in> dom m. contains (sc_Note (server_at m x)) host}"

lemma globMatch_single: "good_orders m en \<Longrightarrow> globMatch glob m en host = [k] \<longleftrightarrow> glob_pass glob m host k"
  by (simp add: globMatch_def glob_pass_def good_orders_def three_passes_single)

lemma containsMatch_single: "good_orders m en \<Longrightarrow> containsMatch m en host = [k] \<longleftrightarrow> contains_pass m host k"
  by (simp add: containsMatch_def contains_pass_def good_orders_def three_passes_single hosts.uniq_set)

lemma EnsureSearchHost_found:
  assumes en: "good_orders m en" and direct: "\<not> IsDirectServer host"
  shows "EnsureSearchHost glob m en host = (k, []) \<longleftrightarrow>
     (if \<exists>x. glob_pass glob m host x then glob_pass glob m host k
      else if \<exists>x. contains_pass m host x then contains_pass m host k
      else k = [] \<and> dom m = {})"
proof -
  have "set (en 6) = dom m" using en by (simp add: good_orders_def enumerates_def)
  then have ks: "en 6 = [] \<longleftrightarrow> dom m = {}" by (metis set_empty)
  have ks': "GetNameSortedList (en 6) = [] \<longleftrightarrow> dom m = {}"
    using ks by (metis GetNameList_def GetNameSortedList_def length_0_conv length_sort)
  note g = globMatch_single [OF en, of glob host] and c = containsMatch_single [OF en, of host]
  have empty: "dom m = {} \<Longrightarrow> globMatch glob m en host = [] \<and> containsMatch m en host = []"
    using en
    by (auto simp: globMatch_def containsMatch_def three_passes_def good_orders_def enumerates_def
        matchesFn_filter Unique_def Let_def)
  let ?m1 = "globMatch glob m en host" and ?m2 = "containsMatch m en host"
  have dec: "EnsureSearchHost glob m en host =
      (if length ?m1 = 1 then (hd ?m1, []) else if length ?m2 = 1 then (hd ?m2, [])
       else if ?m1 @ ?m2 = [] then ([], GetNameSortedList (en 6)) else ([], ?m1 @ ?m2))"
    using direct by (simp add: EnsureSearchHost_def Let_def)
  have g': "glob_pass glob m host x \<longleftrightarrow> ?m1 = [x]" and c': "contains_pass m host x \<longleftrightarrow> ?m2 = [x]" for x
    using g c by auto
  have "EnsureSearchHost glob m en host = (k, []) \<longleftrightarrow>
      (if \<exists>x. ?m1 = [x] then ?m1 = [k] else if \<exists>x. ?m2 = [x] then ?m2 = [k] else k = [] \<and> dom m = {})"
    unfolding dec length_one using ks' empty by (auto split: if_splits)
  then show ?thesis unfolding g' c' .
qed

lemma EnsureSearchHost_candidates:
  "EnsureSearchHost glob m en host = (k, c # cs) \<Longrightarrow> k = []"
  by (auto simp: EnsureSearchHost_def Let_def split: if_splits)

lemma pass3_in: "pass3 A B C k \<Longrightarrow> k \<in> A \<union> B \<union> C"
  by (auto simp: pass3_def split: if_splits)

section \<open>Facts on groups\<close>

lemma addGroup_dom: "dom (addGroup g k v gs) = insert g (dom gs)"
  by (auto simp: addGroup_def split: option.splits)

lemma fold_addGroup_dom: "dom (fold (\<lambda>g. addGroup g k v) grps gs) = set grps \<union> dom gs"
  by (induction grps arbitrary: gs) (auto simp: addGroup_dom)

lemma groups_loop_dom:
  "dom (groups_loop es gs) = dom gs \<union> (\<Union>(k, v) \<in> set es. if sc_Group v = [] then {[]} else set (sc_Group v))"
  by (induction es gs rule: groups_loop.induct) (auto simp: addGroup_dom fold_addGroup_dom)

text \<open>The entry of a server in a group.\<close>

definition group_entry :: "groups \<Rightarrow> string \<Rightarrow> string \<Rightarrow> server_config option" where
  "group_entry gs g name = Option.bind (gs g) (\<lambda>m. m name)"

lemma addGroup_entry:
  "group_entry (addGroup g k v gs) g' k' = (if g' = g \<and> k' = k then Some v else group_entry gs g' k')"
  by (auto simp: group_entry_def addGroup_def split: option.splits)

lemma fold_addGroup_entry:
  "group_entry (fold (\<lambda>g. addGroup g k v) grps gs) g' k' =
     (if g' \<in> set grps \<and> k' = k then Some v else group_entry gs g' k')"
  by (induction grps arbitrary: gs) (auto simp: addGroup_entry)

lemma groups_loop_other:
  "k' \<notin> fst ` set es \<Longrightarrow> group_entry (groups_loop es gs) g' k' = group_entry gs g' k'"
  by (induction es gs rule: groups_loop.induct) (auto simp: addGroup_entry fold_addGroup_entry)

lemma groups_loop_entry:
  "distinct (map fst es) \<Longrightarrow> (name, v) \<in> set es \<Longrightarrow> g' \<in> set (if sc_Group v = [] then [[]] else sc_Group v) \<Longrightarrow>
   group_entry (groups_loop es gs) g' name = Some v"
proof (induction es gs rule: groups_loop.induct)
  case (2 k w es gs)
  show ?case
  proof (cases "(name, v) = (k, w)")
    case True
    then have "name \<notin> fst ` set es" using "2.prems"(1) by simp
    with True "2.prems"(3) show ?thesis
      by (auto simp: groups_loop_other addGroup_entry fold_addGroup_entry split: if_splits)
  next
    case False
    then have "(name, v) \<in> set es" using "2.prems"(2) by auto
    with "2.IH" "2.prems"(1,3) show ?thesis by force
  qed
qed simp

lemma first_free_unused: "first_free used gs \<noteq> [] \<Longrightarrow> \<not> used (first_free used gs)"
  by (induction gs) auto

section \<open>Facts on templates\<close>

lemma fill_ID [simp]:
  "sc_ID (fill_proxy v c) = sc_ID c" "sc_ID (fill_group sp v c) = sc_ID c" "sc_ID (fill_note v c) = sc_ID c"
  "sc_ID (fill_cmd v c) = sc_ID c" "sc_ID (fill_ip v c) = sc_ID c" "sc_ID (fill_brg v c) = sc_ID c"
  "sc_ID c \<noteq> [] \<Longrightarrow> sc_ID (fill_id v c) = sc_ID c"
  by (simp_all add: fill_proxy_def fill_group_def fill_note_def fill_cmd_def fill_ip_def fill_brg_def fill_id_def)

lemma create_keeps_ID:
  assumes "createServerConfigFromHost sp ef t c0 = Done c" and "sc_ID c0 \<noteq> []"
  shows "sc_ID c = sc_ID c0"
proof -
  have key: "fill_key ef v c1 = Done c2 \<Longrightarrow> sc_ID c2 = sc_ID c1" for v c1 c2
    by (auto simp: fill_key_def obind_Done_iff split: if_splits)
  have texts: "fill_texts t c1 = Done c2 \<Longrightarrow> sc_ID c2 = sc_ID c1" for c1 c2
    by (auto simp: fill_texts_def obind_Done_iff)
  show ?thesis
    using assms by (auto simp: createServerConfigFromHost_def obind_Done_iff dest!: key texts)
qed

lemma tmpl_hosts_loop_origin:
  assumes "tmpl_hosts_loop create tc i ts m = Done m'" and "m' k = Some c"
  shows "m k = Some c \<or>
    (\<exists>j t sc. j < length ts \<and> t = ts ! j \<and> k = createKey tc (h_ID t) (i + j) \<and> create t (tc_c tc) = Done sc
       \<and> c = sc\<lparr>sc_PassPbeEncrypted := has_prefix (sc_Pass sc) pbe_prefix\<rparr>)"
  using assms
proof (induction create tc i ts m rule: tmpl_hosts_loop.induct)
  case (2 create tc i t ts m)
  from "2.prems"(1) obtain sc where sc: "create t (tc_c tc) = Done sc"
      "tmpl_hosts_loop create tc (Suc i) ts (m(createKey tc (h_ID t) i \<mapsto> sc\<lparr>sc_PassPbeEncrypted := has_prefix (sc_Pass sc) pbe_prefix\<rparr>)) = Done m'"
    by (auto simp: obind_Done_iff)
  from "2.IH" [OF sc(2) "2.prems"(2)] show ?case
  proof
    assume "(m(createKey tc (h_ID t) i \<mapsto> sc\<lparr>sc_PassPbeEncrypted := has_prefix (sc_Pass sc) pbe_prefix\<rparr>)) k = Some c"
    then show ?thesis using sc(1) by (auto split: if_splits intro!: exI [of _ 0])
  next
    assume "\<exists>j t' sc. j < length ts \<and> t' = ts ! j \<and> k = createKey tc (h_ID t') (Suc i + j) \<and> create t' (tc_c tc) = Done sc
       \<and> c = sc\<lparr>sc_PassPbeEncrypted := has_prefix (sc_Pass sc) pbe_prefix\<rparr>"
    then obtain j t' sc' where "j < length ts" "t' = ts ! j" "k = createKey tc (h_ID t') (Suc i + j)"
       "create t' (tc_c tc) = Done sc'" "c = sc'\<lparr>sc_PassPbeEncrypted := has_prefix (sc_Pass sc') pbe_prefix\<rparr>"
      by blast
    then show ?thesis by (intro disjI2 exI [of _ "Suc j"] exI [of _ t'] exI [of _ sc']) auto
  qed
qed auto

section \<open>Facts on the server map\<close>

text \<open>Where an entry of the server map comes from.\<close>

definition from_plain :: "server_config \<Rightarrow> (string \<times> server_config) list \<Rightarrow> string \<Rightarrow> server_config \<Rightarrow> bool" where
  "from_plain setCommon es k c \<longleftrightarrow>
     (\<exists>v. (k, v) \<in> set es \<and> sc_Tmpl v = [] \<and> c = (ServerConfigDeduct setCommon v)\<lparr>sc_ID := k\<rparr>)"

definition tmpl_of :: "(string \<Rightarrow> parsed_host list) \<Rightarrow> server_config \<Rightarrow> string \<Rightarrow> server_config \<Rightarrow> tmpl_config" where
  "tmpl_of parse setCommon key v =
     \<lparr>tc_k = key, tc_c = (ServerConfigDeduct setCommon v)\<lparr>sc_ID := key\<rparr>,
      tc_t = parse (sc_Tmpl (ServerConfigDeduct setCommon v))\<rparr>"

lemma servers_loop_eq:
  "distinct (map fst es) \<Longrightarrow> servers_loop parse setCommon es m tcs =
     ((\<lambda>k. case map_of es k of
            Some v \<Rightarrow> if sc_Tmpl v \<noteq> [] then None else Some ((ServerConfigDeduct setCommon v)\<lparr>sc_ID := k\<rparr>)
          | None \<Rightarrow> m k),
      tcs @ map (\<lambda>(k, v). tmpl_of parse setCommon k v) (filter (\<lambda>(k, v). sc_Tmpl v \<noteq> []) es))"
proof (induction parse setCommon es m tcs rule: servers_loop.induct)
  case (2 parse setCommon key v es m tcs)
  have key: "map_of es key = None" and d: "distinct (map fst es)"
    using "2.prems" by (auto simp: map_of_eq_None_iff)
  have split: "(\<lambda>k. case map_of es k of Some v \<Rightarrow> f k v | None \<Rightarrow> (m(key := x)) k)
      = (\<lambda>k. case map_of ((key, v) # es) k of Some v \<Rightarrow> f k v | None \<Rightarrow> m k)" if "f key v = x" for f x
    using key that by (auto simp: fun_eq_iff split: option.split)
  show ?case
  proof (cases "sc_Tmpl v = []")
    case True
    have "servers_loop parse setCommon ((key, v) # es) m tcs
        = servers_loop parse setCommon es (m(key \<mapsto> (ServerConfigDeduct setCommon v)\<lparr>sc_ID := key\<rparr>)) tcs"
      using True by (simp add: Let_def)
    also have "\<dots> = ((\<lambda>k. case map_of es k of
            Some v \<Rightarrow> if sc_Tmpl v \<noteq> [] then None else Some ((ServerConfigDeduct setCommon v)\<lparr>sc_ID := k\<rparr>)
          | None \<Rightarrow> (m(key \<mapsto> (ServerConfigDeduct setCommon v)\<lparr>sc_ID := key\<rparr>)) k),
      tcs @ map (\<lambda>(k, v). tmpl_of parse setCommon k v) (filter (\<lambda>(k, v). sc_Tmpl v \<noteq> []) es))"
      using "2.IH"(2) [OF refl _ d] True by (simp del: fun_upd_apply)
    finally show ?thesis using True by (subst (asm) split) auto
  next
    case False
    have "servers_loop parse setCommon ((key, v) # es) m tcs
        = servers_loop parse setCommon es (m(key := None)) (tcs @ [tmpl_of parse setCommon key v])"
      using False by (simp add: Let_def tmpl_of_def)
    also have "\<dots> = ((\<lambda>k. case map_of es k of
            Some v \<Rightarrow> if sc_Tmpl v \<noteq> [] then None else Some ((ServerConfigDeduct setCommon v)\<lparr>sc_ID := k\<rparr>)
          | None \<Rightarrow> (m(key := None)) k),
      (tcs @ [tmpl_of parse setCommon key v])
        @ map (\<lambda>(k, v). tmpl_of parse setCommon k v) (filter (\<lambda>(k, v). sc_Tmpl v \<noteq> []) es))"
      using "2.IH"(1) [OF refl _ d] False by (simp add: tmpl_of_def del: fun_upd_apply)
    finally show ?thesis using False by (subst (asm) split) auto
  qed
qed auto

lemma tmplServers_origin:
  assumes "tmplServers create tcs m = Done m'" and "m' k = Some c"
  shows "m k = Some c \<or>
    (\<exists>tc j t sc. tc \<in> set tcs \<and> j < length (tc_t tc) \<and> t = tc_t tc ! j \<and> k = createKey tc (h_ID t) j
       \<and> create t (tc_c tc) = Done sc \<and> c = sc\<lparr>sc_PassPbeEncrypted := has_prefix (sc_Pass sc) pbe_prefix\<rparr>)"
  using assms
proof (induction create tcs m rule: tmplServers.induct)
  case (2 create tc tcs m)
  from "2.prems"(1) obtain m1 where m1: "tmpl_hosts_loop create tc 0 (tc_t tc) m = Done m1"
      "tmplServers create tcs m1 = Done m'"
    by (auto simp: obind_Done_iff)
  from "2.IH" [OF m1(2) "2.prems"(2)] show ?case
    using tmpl_hosts_loop_origin [OF m1(1), of k c] by fastforce
qed simp

lemma parse_origin:
  assumes "parseConfigServers parse (createServerConfigFromHost sp ef) es setCommon m = Done m'"
    and "distinct (map fst es)" and "[] \<notin> set (map fst es)" and "m' k = Some c"
  shows "(k \<notin> set (map fst es) \<and> m k = Some c) \<or> from_plain setCommon es k c
     \<or> (\<exists>key v j t. (key, v) \<in> set es \<and> sc_Tmpl v \<noteq> []
          \<and> j < length (tc_t (tmpl_of parse setCommon key v)) \<and> t = tc_t (tmpl_of parse setCommon key v) ! j
          \<and> k = createKey (tmpl_of parse setCommon key v) (h_ID t) j \<and> sc_ID c = key)"
proof -
  let ?m0 = "\<lambda>k. case map_of es k of
            Some v \<Rightarrow> if sc_Tmpl v \<noteq> [] then None else Some ((ServerConfigDeduct setCommon v)\<lparr>sc_ID := k\<rparr>)
          | None \<Rightarrow> m k"
  let ?tcs = "map (\<lambda>(k, v). tmpl_of parse setCommon k v) (filter (\<lambda>(k, v). sc_Tmpl v \<noteq> []) es)"
  have "tmplServers (createServerConfigFromHost sp ef) ?tcs ?m0 = Done m'"
    using assms(1) by (simp add: parseConfigServers_def servers_loop_eq [OF assms(2)])
  from tmplServers_origin [OF this assms(4)] show ?thesis
  proof
    assume "?m0 k = Some c"
    then show ?thesis
      by (auto simp: from_plain_def map_of_eq_None_iff split: option.splits if_splits dest: map_of_SomeD)
  next
    assume "\<exists>tc j t sc. tc \<in> set ?tcs \<and> j < length (tc_t tc) \<and> t = tc_t tc ! j \<and> k = createKey tc (h_ID t) j
       \<and> createServerConfigFromHost sp ef t (tc_c tc) = Done sc
       \<and> c = sc\<lparr>sc_PassPbeEncrypted := has_prefix (sc_Pass sc) pbe_prefix\<rparr>"
    then obtain key v j t sc where o: "(key, v) \<in> set es" "sc_Tmpl v \<noteq> []"
        "j < length (tc_t (tmpl_of parse setCommon key v))" "t = tc_t (tmpl_of parse setCommon key v) ! j"
        "k = createKey (tmpl_of parse setCommon key v) (h_ID t) j"
        "createServerConfigFromHost sp ef t (tc_c (tmpl_of parse setCommon key v)) = Done sc"
        "c = sc\<lparr>sc_PassPbeEncrypted := has_prefix (sc_Pass sc) pbe_prefix\<rparr>"
      by auto
    have "key \<noteq> []" using o(1) assms(3) by force
    then have "sc_ID c = key" using create_keeps_ID [OF o(6)] o(7) by (simp add: tmpl_of_def)
    with o show ?thesis by blast
  qed
qed

section \<open>Properties\<close>

text \<open>C9 Every entry of the server map that \<open>parseConfigServers\<close> leaves carries the ID of
  the configuration entry it came from: a plain server is stored under that ID, merged with the
  common settings; the hosts of a template are stored under the keys of \<open>createKey\<close>, and
  their ID is the name of the template.\<close>

theorem parseConfigServers_origin:
  assumes "parseConfigServers parse (createServerConfigFromHost sp ef) es setCommon m = Done m'"
    and "distinct (map fst es)" and "[] \<notin> set (map fst es)" and "m' k = Some c"
  shows "(k \<notin> set (map fst es) \<and> m k = Some c) \<or> from_plain setCommon es k c
     \<or> (\<exists>key v j t. (key, v) \<in> set es \<and> sc_Tmpl v \<noteq> []
          \<and> j < length (tc_t (tmpl_of parse setCommon key v)) \<and> t = tc_t (tmpl_of parse setCommon key v) ! j
          \<and> k = createKey (tmpl_of parse setCommon key v) (h_ID t) j \<and> sc_ID c = key)"
  using parse_origin [OF assms] .

definition demo_host :: "string \<Rightarrow> parsed_host" where
  "demo_host a = \<lparr>h_ID = [], h_Addr = a, h_Port = ''22'', h_User = ''root'', h_Password = ''x9'', h_Props = [], h_Raw = ''t''\<rparr>"

definition demo_parse :: "string \<Rightarrow> parsed_host list" where
  "demo_parse s = [demo_host ''10.0.0.1'', demo_host ''10.0.0.2'']"

definition demo_entries :: "(string \<times> server_config) list" where
  "demo_entries = [(''web'', zero_server\<lparr>sc_Tmpl := ''t''\<rparr>)]"

lemma demo_create:
  "createServerConfigFromHost sp ef (demo_host a) (c\<lparr>sc_ID := ''web''\<rparr>) = Done (c\<lparr>sc_ID := ''web'', sc_Addr := a,
     sc_Port := ''22'', sc_User := ''root'', sc_Pass := ''x9'', sc_Raw := ''t'', sc_Host := Some (demo_host a)\<rparr>)"
  by (simp add: createServerConfigFromHost_def demo_host_def fill_proxy_def fill_group_def fill_note_def fill_id_def
      fill_key_def fill_cmd_def fill_ip_def fill_brg_def fill_texts_def prop_vals_def substituteProps_def)

lemma demo_servers:
  "\<exists>m' c. parseConfigServers demo_parse (createServerConfigFromHost sp ef) demo_entries zero_server Map.empty = Done m'
     \<and> m' ''web2'' = Some c \<and> sc_Pass c = ''x9'' \<and> sc_Key c = [] \<and> sc_Proxy c = [] \<and> sc_ProxyCommand c = []
     \<and> sc_Passes c = []"
proof -
  have "format_uint (Suc 0) = ''1''" "format_uint (Suc (Suc 0)) = ''2''" by code_simp+
  then show ?thesis
    by (simp add: parseConfigServers_def demo_entries_def Let_def demo_parse_def demo_create createKey_def
      Deduct_sel) (simp add: demo_host_def)
qed

lemma demo_entries_keys: "distinct (map fst demo_entries)" "[] \<notin> set (map fst demo_entries)"
  by (simp_all add: demo_entries_def)

lemma parseConfigServers_origin_witness:
  "\<exists>m' c. parseConfigServers demo_parse (createServerConfigFromHost (\<lambda>s. [s]) Done) demo_entries zero_server Map.empty = Done m'
     \<and> m' ''web2'' = Some c \<and> sc_ID c = ''web''"
proof -
  obtain m' c where m: "parseConfigServers demo_parse (createServerConfigFromHost (\<lambda>s. [s]) Done) demo_entries zero_server Map.empty = Done m'"
      "m' ''web2'' = Some c" using demo_servers by blast
  from parseConfigServers_origin [OF m(1) demo_entries_keys m(2)] have "sc_ID c = ''web''"
    by (auto simp: demo_entries_def from_plain_def)
  with m show ?thesis by blast
qed

text \<open>C22 The search by pattern and by part of a name does not depend on the order in which Go ranges
  over the server map: two runs find the same host, or none.\<close>

theorem search_order_independent:
  assumes "good_orders m en" and "good_orders m en'"
  shows "fst (EnsureSearchHost glob m en host) = fst (EnsureSearchHost glob m en' host)"
proof (cases "IsDirectServer host")
  case False
  obtain k c k' c' where e: "EnsureSearchHost glob m en host = (k, c)" "EnsureSearchHost glob m en' host = (k', c')"
    by fastforce
  have iff: "EnsureSearchHost glob m en host = (x, []) \<longleftrightarrow> EnsureSearchHost glob m en' host = (x, [])" for x
    by (simp only: EnsureSearchHost_found [OF assms(1) False] EnsureSearchHost_found [OF assms(2) False])
  show ?thesis
    using iff [of k] iff [of k'] e EnsureSearchHost_candidates [of glob m en host k]
      EnsureSearchHost_candidates [of glob m en' host k']
    by (cases c; cases c') auto
qed (simp add: EnsureSearchHost_def)

definition demo_map :: "string \<rightharpoonup> server_config" where
  "demo_map = [''web'' \<mapsto> zero_server\<lparr>sc_Group := [''dev'']\<rparr>, ''db'' \<mapsto> zero_server]"

lemma demo_orders: "good_orders demo_map (\<lambda>i. [''web'', ''db''])" "good_orders demo_map (\<lambda>i. [''db'', ''web''])"
  by (auto simp: good_orders_def enumerates_def demo_map_def)

lemma search_order_independent_witness:
  "fst (EnsureSearchHost (\<lambda>p s. p = s) demo_map (\<lambda>i. [''web'', ''db'']) ''b'')
   = fst (EnsureSearchHost (\<lambda>p s. p = s) demo_map (\<lambda>i. [''db'', ''web'']) ''b'')"
  by (rule search_order_independent [OF demo_orders])

text \<open>A host found by the search is a configured server whose name, connection or note matches the
  pattern or contains the text; the empty result without candidates is only given when no server is
  configured.\<close>

theorem search_finds_configured:
  assumes "good_orders m en" and "\<not> IsDirectServer host" and "EnsureSearchHost glob m en host = (k, [])"
  shows "(k \<in> dom m \<and> (let c = server_at m k in
             glob host k \<or> glob host (conn_info c) \<or> glob host (sc_Note c)
             \<or> contains k host \<or> contains (conn_info c) host \<or> contains (sc_Note c) host))
       \<or> (k = [] \<and> dom m = {})"
proof -
  have "glob_pass glob m host k \<or> contains_pass m host k \<or> (k = [] \<and> dom m = {})"
    using EnsureSearchHost_found [OF assms(1,2), of glob k] assms(3) by presburger
  then show ?thesis
  proof (elim disjE)
    assume "glob_pass glob m host k"
    from pass3_in [OF this [unfolded glob_pass_def]] show ?thesis by (auto simp: Let_def)
  next
    assume "contains_pass m host k"
    from pass3_in [OF this [unfolded contains_pass_def]] show ?thesis by (auto simp: Let_def)
  qed blast
qed

lemma search_finds_configured_witness: "''web'' \<in> dom demo_map"
proof -
  have "\<not> IsDirectServer ''web''" by (simp add: IsDirectServer_def go_pos_def)
  moreover have "EnsureSearchHost (\<lambda>p s. p = s) demo_map (\<lambda>i. [''web'', ''db'']) ''web'' = (''web'', [])"
    by (simp add: EnsureSearchHost_def IsDirectServer_def go_pos_def globMatch_def three_passes_def)
  ultimately show ?thesis using search_finds_configured [OF demo_orders(1)] by fastforce
qed

text \<open>Merging is associative: common settings of the file, then of an included file, then the
  server, in either grouping.\<close>

theorem ServerConfigDeduct_assoc:
  "ServerConfigDeduct p (ServerConfigDeduct q c) = ServerConfigDeduct (ServerConfigDeduct p q) c"
  by (rule server_config.equality)
    (simp_all add: Deduct_sel merge_assoc del: merge_str merge_list merge_bool)

text \<open>A server keeps every setting it has, takes every missing string or list and every switch
  from the common settings, and takes none of the numbers.\<close>

theorem ServerConfigDeduct_inherits:
  "sc_User (ServerConfigDeduct p c) = (if sc_User c = [] then sc_User p else sc_User c)
   \<and> sc_Keys (ServerConfigDeduct p c) = (if sc_Keys c = [] then sc_Keys p else sc_Keys c)
   \<and> (sc_X11 (ServerConfigDeduct p c) \<longleftrightarrow> sc_X11 p \<or> sc_X11 c)
   \<and> sc_ConnectTimeout (ServerConfigDeduct p c) = sc_ConnectTimeout c
   \<and> sc_ServerAliveCountMax (ServerConfigDeduct p c) = sc_ServerAliveCountMax c
   \<and> sc_ServerAliveCountInterval (ServerConfigDeduct p c) = sc_ServerAliveCountInterval c
   \<and> sc_InitialCmdSleep (ServerConfigDeduct p c) = sc_InitialCmdSleep c
   \<and> sc_WebPort (ServerConfigDeduct p c) = sc_WebPort c"
  by (simp add: Deduct_sel)

lemma shown_in_some_group:
  assumes "distinct (map fst es)" and "c_Server cf = map_of es" and "dt_Get (c_Grouping cf)"
    and "cf' = parseGroups es cf" and "set ks = dom (c_grouping cf')"
    and "(name, v) \<in> set es" and "[] \<notin> set (sc_Group v)" and "name \<in> set names"
  shows "\<exists>g \<in> set (GroupsNames cf' ks). name \<in> set (FilterNamesByGroup cf' g names)"
proof -
  have at: "server_at (c_Server cf') name = v"
    using assms(1,2,4,6) by (simp add: parseGroups_def server_at_def)
  have dom: "dom (c_grouping cf') = (\<Union>(k, v) \<in> set es. if sc_Group v = [] then {[]} else set (sc_Group v))"
    using assms(4) groups_loop_dom [of es Map.empty] by (simp add: parseGroups_def)
  have on: "dt_Get (c_Grouping cf')" using assms(3,4) by (simp add: parseGroups_def)
  let ?others = "pickOthersGroupName cf'"
  have free: "?others \<noteq> [] \<Longrightarrow> ?others \<notin> dom (c_grouping cf')"
    using first_free_unused by (auto simp: pickOthersGroupName_def)
  show ?thesis
  proof (cases "sc_Group v = []")
    case True
    then have "[] \<in> set ks" using assms(5,6) dom by force
    then have "?others \<in> set (GroupsNames cf' ks)" by (force simp: GroupsNames_def)
    moreover have "name \<in> set (FilterNamesByGroup cf' ?others names)"
      using True at on assms(8) by (simp add: FilterNamesByGroup_def BelongsToGroup_def)
    ultimately show ?thesis by blast
  next
    case False
    then obtain g gs where g: "sc_Group v = g # gs" by (cases "sc_Group v") auto
    then have "g \<in> dom (c_grouping cf')" "g \<noteq> []" using dom assms(6,7) by force+
    then have "g \<in> set (GroupsNames cf' ks)" "g \<noteq> ?others"
      using assms(5) free by (force simp: GroupsNames_def)+
    moreover have "name \<in> set (FilterNamesByGroup cf' g names)"
      using g at on assms(8) \<open>g \<noteq> []\<close> \<open>g \<noteq> ?others\<close>
      by (simp add: FilterNamesByGroup_def BelongsToGroup_def has_prefix_def)
    ultimately show ?thesis by blast
  qed
qed


definition demo_config :: config where
  "demo_config = \<lparr>c_ExtraPassphrase = [], c_Grouping = None, c_ExtraAutoEncryptPwd = None, c_AutoEncryptPwd = None,
     c_Passphrase = [], c_Common = zero_server, c_Server = map_of [(''web'', zero_server\<lparr>sc_Group := [''others'']\<rparr>)],
     c_Proxy = Map.empty, c_Hosts = [], c_tempHostsFile = [], c_tempHosts = {}, c_grouping = Map.empty\<rparr>"


end
