(* ===== verification/Conf_OpenSSH.thy ===== *)
theory Conf_OpenSSH
  imports Conf
begin

text \<open>
  src/conf/openssh\_conf.go: servers from an OpenSSH configuration. The library
  kevinburke/ssh\_config is an argument: \<open>get host key\<close> is its function \<open>Get\<close> on the
  user's default files, \<open>decoded\<close> the host patterns of the file or command that was asked
  for.
\<close>

type_synonym ssh_get = "string \<Rightarrow> string \<Rightarrow> string"

definition forward_addr :: "string \<Rightarrow> string" where
  "forward_addr a = (case atoi a of None \<Rightarrow> a | Some _ \<Rightarrow> ''localhost:'' @ a)"

definition parseLocalPortForwarding :: "ssh_get \<Rightarrow> string \<Rightarrow> server_config \<Rightarrow> server_config" where
  "parseLocalPortForwarding get host c =
     (let localForward = get host ''LocalForward'' in
      if localForward = [] then c
      else case split2 localForward '' '' of
             [a0, a1] \<Rightarrow> c\<lparr>sc_PortForwardLocal := forward_addr a0, sc_PortForwardRemote := forward_addr a1\<rparr>
           | _ \<Rightarrow> c)"

definition parseRemotePortForwarding :: "ssh_get \<Rightarrow> string \<Rightarrow> server_config \<Rightarrow> server_config" where
  "parseRemotePortForwarding get host c =
     (let remoteForward = get host ''RemoteForward'' in
      if remoteForward = [] then c
      else case split2 remoteForward '' '' of
             [a0, a1] \<Rightarrow> c\<lparr>sc_PortForwardLocal := forward_addr a0, sc_PortForwardRemote := forward_addr a1\<rparr>
           | _ \<Rightarrow> c)"

text \<open>The steps of \<open>createServerConfig\<close> in its order.\<close>

definition set_identity :: "string \<Rightarrow> string \<Rightarrow> server_config \<Rightarrow> server_config" where
  "set_identity key cert c =
     (if cert \<noteq> [] then c\<lparr>sc_Cert := cert, sc_CertKey := key\<rparr> else c\<lparr>sc_Key := key\<rparr>)"

definition set_pkcs11 :: "string \<Rightarrow> server_config \<Rightarrow> server_config" where
  "set_pkcs11 provider c =
     (if provider \<noteq> [] then c\<lparr>sc_PKCS11Use := True, sc_PKCS11Provider := provider\<rparr> else c)"

definition set_x11 :: "string \<Rightarrow> server_config \<Rightarrow> server_config" where
  "set_x11 x11 c = (if x11 = ''yes'' then c\<lparr>sc_X11 := True\<rparr> else c)"

definition set_dynamic :: "string \<Rightarrow> server_config \<Rightarrow> server_config" where
  "set_dynamic d c = (if d \<noteq> [] then c\<lparr>sc_DynamicPortForward := d\<rparr> else c)"

definition base_config :: "ssh_get \<Rightarrow> string \<Rightarrow> string \<Rightarrow> server_config" where
  "base_config get host ele = zero_server\<lparr>
     sc_Addr := (if get host ''HostName'' = [] then host else get host ''HostName''),
     sc_Port := get host ''Port'', sc_User := get host ''User'',
     sc_ProxyCommand := get host ''ProxyCommand'', sc_PreCmd := get host ''LocalCommand'',
     sc_Note := ''from:'' @ ele\<rparr>"

definition createServerConfig :: "ssh_get \<Rightarrow> string \<Rightarrow> string \<Rightarrow> string \<times> server_config" where
  "createServerConfig get host ele =
     (ele @ '':'' @ host,
      set_dynamic (get host ''DynamicForward'')
        (parseRemotePortForwarding get host (parseLocalPortForwarding get host
          (set_x11 (get host ''ForwardX11'')
            (set_pkcs11 (get host ''PKCS11Provider'')
              (set_identity (get host ''IdentityFile'') (get host ''Certificate'')
                (base_config get host ele)))))))"

text \<open>The patterns without a star, of all host sections in order.\<close>

definition createHostList :: "string list list \<Rightarrow> string list" where
  "createHostList hosts = concat (map (filter (\<lambda>p. CHR ''*'' \<notin> set p)) hosts)"

text \<open>\<open>openOpenSSHConfig\<close>: the path has priority; neither gives no reader.\<close>

datatype ssh_source = FromFile string | FromCommand string | NoSource

definition openOpenSSHConfig :: "(string \<Rightarrow> string) \<Rightarrow> string \<Rightarrow> string \<Rightarrow> ssh_source" where
  "openOpenSSHConfig fullPath path command =
     (if path \<noteq> [] then FromFile (fullPath path)
      else if command \<noteq> [] then FromCommand command else NoSource)"

fun ssh_servers_loop :: "ssh_get \<Rightarrow> string \<Rightarrow> string list \<Rightarrow> (string \<rightharpoonup> server_config) \<Rightarrow> (string \<rightharpoonup> server_config)" where
  "ssh_servers_loop get ele [] m = m"
| "ssh_servers_loop get ele (host # hosts) m =
     (let (serverName, sc) = createServerConfig get host ele
      in ssh_servers_loop get ele hosts (m(serverName \<mapsto> sc)))"

definition getOpenSSHConfig ::
  "ssh_get \<Rightarrow> (string \<Rightarrow> string) \<Rightarrow> (ssh_source \<Rightarrow> string list list option) \<Rightarrow> string \<Rightarrow> string
   \<Rightarrow> (string \<rightharpoonup> server_config) option" where
  "getOpenSSHConfig get fullPath decoded path command =
     (case decoded (openOpenSSHConfig fullPath path command) of
        None \<Rightarrow> None
      | Some hosts \<Rightarrow>
          Some (ssh_servers_loop get (if path = [] then ''generate_sshconfig'' else path)
                  (createHostList hosts) Map.empty))"

section \<open>Facts\<close>

lemma split2_forward: "\<lbrakk>CHR '' '' \<notin> set a; a \<noteq> []\<rbrakk> \<Longrightarrow> split2 (a @ '' '' @ b) '' '' = [a, b]"
proof -
  assume "CHR '' '' \<notin> set a"
  then have "str_index '' '' (a @ '' '' @ b) = Some (length a)" by (induction a) auto
  then show ?thesis by (simp add: split2_def)
qed

lemma mode_keeps:
  "sc_PortForwardMode (set_dynamic d c) = sc_PortForwardMode c"
  "sc_PortForwardMode (set_x11 x c) = sc_PortForwardMode c"
  "sc_PortForwardMode (set_pkcs11 x c) = sc_PortForwardMode c"
  "sc_PortForwardMode (set_identity k x c) = sc_PortForwardMode c"
  "sc_PortForwardMode (parseLocalPortForwarding get host c) = sc_PortForwardMode c"
  "sc_PortForwardMode (parseRemotePortForwarding get host c) = sc_PortForwardMode c"
  "sc_PortForwardMode (base_config get host ele) = []"
  by (simp_all add: set_dynamic_def set_x11_def set_pkcs11_def set_identity_def base_config_def
      parseLocalPortForwarding_def parseRemotePortForwarding_def Let_def split: list.split)

lemma user_keeps:
  "sc_User (set_dynamic d c) = sc_User c"
  "sc_User (set_x11 x c) = sc_User c"
  "sc_User (set_pkcs11 x c) = sc_User c"
  "sc_User (set_identity k x c) = sc_User c"
  "sc_User (parseLocalPortForwarding get host c) = sc_User c"
  "sc_User (parseRemotePortForwarding get host c) = sc_User c"
  "sc_User (base_config get host ele) = get host ''User''"
  by (simp_all add: set_dynamic_def set_x11_def set_pkcs11_def set_identity_def base_config_def
      parseLocalPortForwarding_def parseRemotePortForwarding_def Let_def split: list.split)

lemma createServerConfig_mode: "sc_PortForwardMode (snd (createServerConfig get host ele)) = []"
  by (simp add: createServerConfig_def mode_keeps)

lemma createServerConfig_remote:
  assumes "get host ''RemoteForward'' = a @ '' '' @ b" and "CHR '' '' \<notin> set a" and "a \<noteq> []"
  shows "sc_PortForwardLocal (snd (createServerConfig get host ele)) = forward_addr a
       \<and> sc_PortForwardRemote (snd (createServerConfig get host ele)) = forward_addr b"
proof -
  have "sc_PortForwardLocal (parseRemotePortForwarding get host c) = forward_addr a
      \<and> sc_PortForwardRemote (parseRemotePortForwarding get host c) = forward_addr b" for c
    using assms split2_forward [of a b] by (simp add: parseRemotePortForwarding_def Let_def)
  then show ?thesis by (simp add: createServerConfig_def set_dynamic_def)
qed

lemma ssh_servers_loop_at:
  "host \<in> set hosts \<Longrightarrow> \<exists>c. ssh_servers_loop get ele hosts m (ele @ '':'' @ host) = Some c \<and> c = snd (createServerConfig get host ele)"
proof (induction hosts arbitrary: m rule: rev_induct)
  case (snoc h hosts)
  have "ssh_servers_loop get ele (hosts @ [h]) m
      = (ssh_servers_loop get ele hosts m)(ele @ '':'' @ h \<mapsto> snd (createServerConfig get h ele))"
  proof (induction hosts arbitrary: m)
    case (Cons x xs)
    then show ?case by (simp add: createServerConfig_def)
  qed (simp add: createServerConfig_def)
  with snoc show ?case by auto
qed simp

section \<open>Properties\<close>

text \<open>The file named in a section \<open>sshconfig\<close> only contributes the host names: two files
  with the same hosts, read under the same name, give the same servers, since every setting is
  asked of the library's default files and not of the decoded one.\<close>

theorem settings_not_from_the_file:
  assumes "decoded (openOpenSSHConfig fp path command) = Some hosts"
    and "decoded' (openOpenSSHConfig fp path command) = Some hosts"
    and "host \<in> set (createHostList hosts)" and "path \<noteq> []"
  shows "getOpenSSHConfig get fp decoded path command = getOpenSSHConfig get fp decoded' path command
       \<and> (\<exists>m. getOpenSSHConfig get fp decoded path command = Some m
           \<and> map_option sc_User (m (path @ '':'' @ host)) = Some (get host ''User''))"
proof -
  obtain c where "ssh_servers_loop get path (createHostList hosts) Map.empty (path @ '':'' @ host) = Some c"
      "c = snd (createServerConfig get host path)"
    using ssh_servers_loop_at [OF assms(3)] by blast
  moreover have "sc_User (snd (createServerConfig get host path)) = get host ''User''"
    by (simp add: createServerConfig_def user_keeps)
  ultimately show ?thesis using assms by (simp add: getOpenSSHConfig_def)
qed

lemma settings_not_from_the_file_witness:
  "getOpenSSHConfig (\<lambda>h k. if k = ''User'' then ''bob'' else []) id (\<lambda>_. Some [[''web'']]) ''/tmp/a'' []
   = getOpenSSHConfig (\<lambda>h k. if k = ''User'' then ''bob'' else []) id
       (\<lambda>s. if s = FromFile ''/tmp/a'' then Some [[''web'']] else None) ''/tmp/a'' []"
  by (rule conjunct1 [OF settings_not_from_the_file [where host = "''web''" and hosts = "[[''web'']]"]])
    (simp_all add: openOpenSSHConfig_def createHostList_def)

end
