(* ===== verification/Ssh_Route.thy ===== *)
theory Ssh_Route
  imports Conf_Types "HOL-Library.Monad_Syntax"
begin

text \<open>
  src/ssh/connect.go: the proxy route of a server (\<open>getProxyRoute\<close>), the chain of dialers
  built along it and the choice of the final dialer in \<open>CreateSSHConnect\<close>,
  \<open>proxyByEnv\<close>, and the override of the address by \<open>$IP2\<close>. The dialers are an
  abstract type; what creates them (package \<open>sshlib\<close> over golang.org/x/net/proxy and
  golang.org/x/crypto/ssh) is an argument. The route loop follows the configuration and may not end,
  so it is a \<open>partial_function\<close> whose \<open>None\<close> is not returning.
\<close>

section \<open>The route\<close>

record hop =
  hop_Name :: string
  hop_Type :: string
  hop_Port :: string

definition is_proxy_type :: "string \<Rightarrow> bool" where
  "is_proxy_type t \<longleftrightarrow> t = ''http'' \<or> t = ''https'' \<or> t = ''socks'' \<or> t = ''socks5''"

definition expandProxyCommand :: "string \<Rightarrow> server_config \<Rightarrow> string" where
  "expandProxyCommand proxyCommand c =
     replace_all (replace_all (replace_all proxyCommand ''%h'' (sc_Addr c)) ''%p'' (sc_Port c))
       ''%r'' (sc_User c)"

text \<open>
  What one iteration reads: the name, type and port of the proxy of \<open>conName\<close>, and
  whether the entry exists. A command proxy ends the loop.
\<close>

type_synonym servers = "string \<rightharpoonup> server_config"
type_synonym proxies = "string \<rightharpoonup> proxy_config"

definition proxy_of :: "servers \<Rightarrow> proxies \<Rightarrow> string \<Rightarrow> string \<Rightarrow> ((string \<times> string \<times> string) \<times> bool) option" where
  "proxy_of sv px conName conType =
     (if is_proxy_type conType then
        let c = proxy_at px conName in Some ((px_Proxy c, px_ProxyType c, px_Port c), px conName \<noteq> None)
      else if conType = ''command'' then None
      else let c = server_at sv conName in
           Some (if sc_ProxyCommand c = [] \<or> sc_ProxyCommand c = ''none''
                 then (sc_Proxy c, sc_ProxyType c, sc_Port c)
                 else (expandProxyCommand (sc_ProxyCommand c) c, ''command'', []),
                 sv conName \<noteq> None))"

datatype route_next = Stop | NotFound | Hop hop string

definition next_hop :: "servers \<Rightarrow> proxies \<Rightarrow> string \<Rightarrow> string \<Rightarrow> route_next" where
  "next_hop sv px conName conType =
     (case proxy_of sv px conName conType of
        None \<Rightarrow> Stop
      | Some ((proxyName, proxyType, proxyPort), isOk) \<Rightarrow>
          if proxyName = [] then Stop
          else if \<not> isOk then NotFound
          else Hop \<lparr>hop_Name = proxyName,
                 hop_Type = (if is_proxy_type proxyType \<or> proxyType = ''command'' then proxyType else ''ssh''),
                 hop_Port = proxyPort\<rparr> proxyType)"

text \<open>The loop; \<open>Inl\<close> is the error with the name of the server asked for.\<close>

partial_function (option) route_loop ::
  "servers \<Rightarrow> proxies \<Rightarrow> string \<Rightarrow> string \<Rightarrow> string \<Rightarrow> hop list \<Rightarrow> (string + hop list) option" where
  "route_loop sv px server conName conType proxyRoute =
     (case next_hop sv px conName conType of
        Stop \<Rightarrow> Some (Inr proxyRoute)
      | NotFound \<Rightarrow> Some (Inl (''not Found proxy : '' @ server))
      | Hop p proxyType \<Rightarrow> route_loop sv px server (hop_Name p) proxyType (proxyRoute @ [p]))"

definition getProxyRoute :: "servers \<Rightarrow> proxies \<Rightarrow> string \<Rightarrow> (string + hop list) option" where
  "getProxyRoute sv px server =
     map_option (map_sum id rev) (route_loop sv px server server ''ssh'' [])"

declare route_loop.simps [code]

section \<open>Dialers\<close>

text \<open>\<open>findServer\<close>; an unknown name ends the program.\<close>

definition findServer :: "servers \<Rightarrow> string \<Rightarrow> (server_config \<times> string) outcome" where
  "findServer sv name = (case sv name of None \<Rightarrow> Exit 1 | Some c \<Rightarrow> Done (c, name))"

lemma findServer_simps [simp]:
  "sv name = None \<Longrightarrow> findServer sv name = Exit 1" "sv name = Some c \<Longrightarrow> findServer sv name = Done (c, name)"
  by (simp_all add: findServer_def)

text \<open>
  The loop over the route: \<open>dialer\<close> and \<open>err\<close> are the variables of the Go code (an
  error leaves a nil dialer). \<open>mkProxy\<close> is \<open>CreateProxyDialer\<close> of a proxy of
  that type and configuration, \<open>mkCommand\<close> that of a command, \<open>mkSsh\<close> is
  \<open>CreateClient\<close> on a server with the authentication methods of its name. An error of
  \<open>mkSsh\<close> returns at once (\<open>Inl\<close>); a server that does not exist is fatal.
\<close>

fun dial_loop ::
  "(string \<Rightarrow> proxy_config \<Rightarrow> 'd option \<Rightarrow> string + 'd) \<Rightarrow> (string \<Rightarrow> string + 'd)
   \<Rightarrow> (server_config \<Rightarrow> string \<Rightarrow> 'd option \<Rightarrow> string + 'd) \<Rightarrow> servers \<Rightarrow> proxies
   \<Rightarrow> hop list \<Rightarrow> 'd option \<Rightarrow> string option \<Rightarrow> (string + 'd option \<times> string option) outcome" where
  "dial_loop mkProxy mkCommand mkSsh sv px [] dialer err = Done (Inr (dialer, err))"
| "dial_loop mkProxy mkCommand mkSsh sv px (p # ps) dialer err =
     (if is_proxy_type (hop_Type p) then
        (case mkProxy (hop_Type p) (proxy_at px (hop_Name p)) dialer of
           Inl e \<Rightarrow> dial_loop mkProxy mkCommand mkSsh sv px ps None (Some e)
         | Inr d \<Rightarrow> dial_loop mkProxy mkCommand mkSsh sv px ps (Some d) None)
      else if hop_Type p = ''command'' then
        (case mkCommand (hop_Name p) of
           Inl e \<Rightarrow> dial_loop mkProxy mkCommand mkSsh sv px ps None (Some e)
         | Inr d \<Rightarrow> dial_loop mkProxy mkCommand mkSsh sv px ps (Some d) None)
      else obind (findServer sv (hop_Name p)) (\<lambda>(c, name).
             case mkSsh c name dialer of
               Inl e \<Rightarrow> Done (Inl e)
             | Inr d \<Rightarrow> dial_loop mkProxy mkCommand mkSsh sv px ps (Some d) err))"

text \<open>\<open>sshlib.Getenv\<close> on the environment with upper-case keys; the proxy of the environment.\<close>

fun go_getenv :: "(string \<rightharpoonup> string) \<Rightarrow> string list \<Rightarrow> string" where
  "go_getenv env [] = []"
| "go_getenv env (key # keys) =
     (case env (map_runes ascii_upper key) of
        Some v \<Rightarrow> if v \<noteq> [] then v else go_getenv env keys
      | None \<Rightarrow> go_getenv env keys)"

datatype env_proxy = NoEnvProxy | EnvCommand string | EnvUrl string

definition proxyByEnv :: "(string \<rightharpoonup> string) \<Rightarrow> server_config \<Rightarrow> env_proxy" where
  "proxyByEnv env c =
     (let e1 = go_getenv env [''PROXY''];
          e2 = (if e1 = [] then go_getenv env [''https_proxy''] else e1);
          e = (if e2 = [] then go_getenv env [''http_proxy''] else e2)
      in if e = [] then NoEnvProxy
         else if has_prefix e ''command://''
         then EnvCommand (expandProxyCommand (trim_prefix e ''command://'') c)
         else EnvUrl e)"

section \<open>\$IP2\<close>

fun merge_parts :: "string list \<Rightarrow> nat \<Rightarrow> string list \<Rightarrow> nat \<Rightarrow> string list" where
  "merge_parts originalParts n [] i = originalParts"
| "merge_parts originalParts n (p # ps) i =
     (let idx = 4 - int n + int i
      in merge_parts (if 0 \<le> idx \<and> idx < 4 then originalParts[nat idx := p] else originalParts)
           n ps (Suc i))"

definition mergePartialIP :: "string \<Rightarrow> string \<Rightarrow> string" where
  "mergePartialIP originalAddr partialIP =
     (let originalParts = split_on CHR ''.'' originalAddr; partialParts = split_on CHR ''.'' partialIP
      in if length originalParts \<noteq> 4 then partialIP
         else str_join (merge_parts originalParts (length partialParts) partialParts 0) ''.'')"

definition resolveIP2Override :: "string \<Rightarrow> string \<Rightarrow> string \<Rightarrow> string \<times> string" where
  "resolveIP2Override ip2 addr port =
     (if ip2 = [] then (addr, port)
      else let (newAddr, newPort) =
                 (if has_prefix ip2 '':'' then (addr, tl ip2)
                  else case str_last_index '':'' ip2 of
                         Some i \<Rightarrow> (take i ip2, drop (i + 1) ip2)
                       | None \<Rightarrow> (ip2, port))
           in (if count_byte newAddr CHR ''.'' < 3 then mergePartialIP addr newAddr else newAddr, newPort))"

section \<open>Facts on routes\<close>

text \<open>A list of hops is the chain of a node when it follows the configuration to a stop.\<close>

fun chain :: "servers \<Rightarrow> proxies \<Rightarrow> string \<Rightarrow> string \<Rightarrow> hop list \<Rightarrow> bool" where
  "chain sv px n t [] \<longleftrightarrow> next_hop sv px n t = Stop"
| "chain sv px n t (h # hs) \<longleftrightarrow>
     (\<exists>raw. next_hop sv px n t = Hop h raw \<and> chain sv px (hop_Name h) raw hs)"

lemma next_hop_found: "next_hop sv px n t \<noteq> NotFound"
  by (auto simp: next_hop_def proxy_of_def server_at_def proxy_at_def zero_server_def zero_proxy_def Let_def
      split: option.splits)

lemma chain_route_loop:
  "chain sv px n t hs \<Longrightarrow> route_loop sv px server n t acc = Some (Inr (acc @ hs))"
proof (induction hs arbitrary: n t acc)
  case Nil
  then show ?case by (subst route_loop.simps) simp
next
  case (Cons h hs)
  then show ?case by (subst route_loop.simps) auto
qed

lemma route_loop_chain:
  assumes "route_loop sv px server n t acc = Some r"
  shows "\<exists>hs. r = Inr (acc @ hs) \<and> chain sv px n t hs"
  using assms
proof (induction rule: route_loop.raw_induct [rotated 1, consumes 1, case_names step])
  case (step rl sv px server n t acc r)
  show ?case
  proof (cases "next_hop sv px n t")
    case Stop
    with step(2) show ?thesis by (intro exI [of _ "[]"]) auto
  next
    case NotFound
    with next_hop_found show ?thesis by metis
  next
    case (Hop p raw)
    with step(2) have "rl sv px server (hop_Name p) raw (acc @ [p]) = Some r" by simp
    from step(1) [OF this] obtain hs where "r = Inr ((acc @ [p]) @ hs)" "chain sv px (hop_Name p) raw hs"
      by blast
    with Hop show ?thesis by (intro exI [of _ "p # hs"]) auto
  qed
qed

text \<open>A set of nodes the configuration never leaves: each has a next hop, inside the set again.\<close>

definition trapped :: "servers \<Rightarrow> proxies \<Rightarrow> (string \<times> string) set \<Rightarrow> bool" where
  "trapped sv px S \<longleftrightarrow>
     (\<forall>(n, t) \<in> S. \<exists>h raw. next_hop sv px n t = Hop h raw \<and> (hop_Name h, raw) \<in> S)"

lemma trapped_no_chain: "trapped sv px S \<Longrightarrow> (n, t) \<in> S \<Longrightarrow> \<not> chain sv px n t hs"
  by (induction hs arbitrary: n t) (fastforce simp: trapped_def)+

lemma chain_unique: "chain sv px n t hs \<Longrightarrow> chain sv px n t hs' \<Longrightarrow> hs = hs'"
proof (induction hs arbitrary: n t hs')
  case Nil
  then show ?case by (cases hs') auto
next
  case (Cons h hs)
  then show ?case by (cases hs') auto
qed

lemma merge_parts_eq:
  "length orig = 4 \<Longrightarrow> n = i + length ps \<Longrightarrow>
   merge_parts orig n ps i = take (4 - length ps) orig @ drop (length ps - 4) ps"
proof (induction ps arbitrary: orig i)
  case (Cons p ps)
  show ?case
  proof (cases "length ps \<le> 3")
    case True
    let ?k = "3 - length ps"
    have k: "nat (4 - int n + int i) = ?k" "0 \<le> 4 - int n + int i" "4 - int n + int i < 4"
      using True Cons.prems by auto
    have "take (Suc ?k) (orig[?k := p]) = take ?k orig @ [p]"
      using Cons.prems True by (simp add: take_Suc_conv_app_nth)
    moreover have "4 - length ps = Suc ?k" using True by simp
    ultimately show ?thesis
      using Cons.IH [of "orig[?k := p]" "Suc i"] Cons.prems k True by simp
  next
    case False
    then have "Suc (length ps) - 4 = Suc (length ps - 4)" by simp
    then show ?thesis using Cons.IH [of orig "Suc i"] Cons.prems False by simp
  qed
qed simp

lemma length_merge: "length orig = 4 \<Longrightarrow> length (merge_parts orig (length ps) ps 0) = 4"
  by (simp add: merge_parts_eq)

lemma getProxyRoute_eq:
  "getProxyRoute sv px server = Some (Inr route) \<longleftrightarrow> chain sv px server ''ssh'' (rev route)"
proof
  assume "getProxyRoute sv px server = Some (Inr route)"
  then obtain r where r: "route_loop sv px server server ''ssh'' [] = Some r" "map_sum id rev r = Inr route"
    by (auto simp: getProxyRoute_def)
  from route_loop_chain [OF r(1)] r(2) show "chain sv px server ''ssh'' (rev route)" by auto
next
  assume "chain sv px server ''ssh'' (rev route)"
  from chain_route_loop [OF this] show "getProxyRoute sv px server = Some (Inr route)"
    by (simp add: getProxyRoute_def)
qed

section \<open>Properties\<close>

text \<open>C3 A route is found exactly when the configuration, followed from the server, reaches an
  entry without a proxy (or a proxy command): it is then that chain of hops from the far end, so the
  first hop dialled is the last one named. The loop does not end otherwise, and it never reports an
  error.\<close>

theorem getProxyRoute_chain:
  "getProxyRoute sv px server = Some (Inr route) \<longleftrightarrow> chain sv px server ''ssh'' (rev route)"
  by (rule getProxyRoute_eq)

text \<open>Proxies that refer to each other in a circle make the program loop for ever: when every
  entry of a set has its proxy in the set again, no route of a server in it is ever returned.\<close>

theorem cyclic_proxies_never_return:
  assumes "trapped sv px S" and "(server, ''ssh'') \<in> S"
  shows "getProxyRoute sv px server = None"
proof (cases "getProxyRoute sv px server")
  case (Some r)
  then obtain r' where "route_loop sv px server server ''ssh'' [] = Some r'"
    by (auto simp: getProxyRoute_def)
  from route_loop_chain [OF this] trapped_no_chain [OF assms] show ?thesis by blast
qed

definition demo_cycle :: servers where
  "demo_cycle = [''a'' \<mapsto> zero_server\<lparr>sc_Proxy := ''b''\<rparr>, ''b'' \<mapsto> zero_server\<lparr>sc_Proxy := ''a''\<rparr>]"

lemma cyclic_proxies_never_return_witness: "getProxyRoute demo_cycle Map.empty ''a'' = None"
  by (rule cyclic_proxies_never_return [of _ _ "{(''a'', ''ssh''), (''a'', []), (''b'', [])}"])
    (simp_all add: trapped_def next_hop_def proxy_of_def demo_cycle_def server_at_def zero_server_def is_proxy_type_def)

text \<open>The error for a proxy that is not configured is never returned: a route that names a
  missing entry is accepted, and the missing hop is only noticed when it is dialled.\<close>

theorem missing_proxy_not_reported: "getProxyRoute sv px server \<noteq> Some (Inl e)"
proof
  assume "getProxyRoute sv px server = Some (Inl e)"
  then obtain r where r: "route_loop sv px server server ''ssh'' [] = Some r" "map_sum id rev r = Inl e"
    by (auto simp: getProxyRoute_def)
  from route_loop_chain [OF r(1)] r(2) show False by auto
qed

text \<open>The last hop alone decides whether building the dialers failed: an error of an earlier
  proxy is overwritten when the proxy after it is created from the nil dialer.\<close>

theorem hop_error_overwritten:
  assumes "is_proxy_type (hop_Type p)" and "mkProxy (hop_Type p) (proxy_at px (hop_Name p)) d = Inl e"
    and "is_proxy_type (hop_Type q)" and "mkProxy (hop_Type q) (proxy_at px (hop_Name q)) None = Inr d'"
  shows "dial_loop mkProxy mkCommand mkSsh sv px [p, q] d err = Done (Inr (Some d', None))"
  using assms by simp

lemma hop_error_overwritten_witness:
  "dial_loop (\<lambda>t c d. if px_Addr c = ''bad'' then Inl ''refused'' else Inr (1::nat)) (\<lambda>c. Inl []) (\<lambda>c n d. Inl [])
     Map.empty [''p'' \<mapsto> zero_proxy\<lparr>px_Addr := ''bad''\<rparr>, ''q'' \<mapsto> zero_proxy]
     [\<lparr>hop_Name = ''p'', hop_Type = ''http'', hop_Port = []\<rparr>, \<lparr>hop_Name = ''q'', hop_Type = ''socks5'', hop_Port = []\<rparr>]
     (Some 0) None = Done (Inr (Some 1, None))"
  by (rule hop_error_overwritten) (simp_all add: is_proxy_type_def proxy_at_def zero_proxy_def)

text \<open>A partial address in \<open>$IP2\<close> replaces the last parts of an IPv4 address and keeps the
  others; of more than four parts the last four count.\<close>

theorem mergePartialIP_spec:
  assumes "length os = 4" and "\<forall>w \<in> set os. CHR ''.'' \<notin> set w" and "ps \<noteq> []" and "\<forall>w \<in> set ps. CHR ''.'' \<notin> set w"
  shows "mergePartialIP (str_join os ''.'') (str_join ps ''.'')
         = str_join (take (4 - length ps) os @ drop (length ps - 4) ps) ''.''"
proof -
  have "os \<noteq> []" using assms(1) by auto
  then show ?thesis
    using assms split_on_join [of os "CHR ''.''"] split_on_join [of ps "CHR ''.''"]
    by (simp add: mergePartialIP_def merge_parts_eq)
qed

lemma mergePartialIP_spec_witness: "mergePartialIP ''192.168.230.33'' ''231.34'' = ''192.168.231.34''"
  using mergePartialIP_spec [of "[''192'', ''168'', ''230'', ''33'']" "[''231'', ''34'']"] by simp

text \<open>When the proxy references descend along some rank (they form no circle), the route of every
  server is returned.\<close>

theorem acyclic_route_returns:
  assumes "\<forall>n t h raw. next_hop sv px n t = Hop h raw \<longrightarrow> rank (hop_Name h) raw < (rank n t :: nat)"
  shows "\<exists>route. getProxyRoute sv px server = Some (Inr route)"
proof -
  have "\<exists>hs. chain sv px n t hs" for n t
  proof (induction "rank n t" arbitrary: n t rule: less_induct)
    case less
    show ?case
    proof (cases "next_hop sv px n t")
      case (Hop h raw)
      with assms less obtain hs where "chain sv px (hop_Name h) raw hs" by blast
      with Hop have "chain sv px n t (h # hs)" by simp
      then show ?thesis by blast
    next
      case Stop
      then show ?thesis by (intro exI [of _ "[]"]) simp
    qed (use next_hop_found in metis)
  qed
  then obtain hs where "chain sv px server ''ssh'' (rev (rev hs))" by auto
  then show ?thesis using getProxyRoute_eq by blast
qed

definition demo_jump :: servers where
  "demo_jump = [''web'' \<mapsto> zero_server\<lparr>sc_Proxy := ''jump''\<rparr>, ''jump'' \<mapsto> zero_server]"

lemma acyclic_route_returns_witness: "\<exists>route. getProxyRoute demo_jump Map.empty ''web'' = Some (Inr route)"
  by (rule acyclic_route_returns [of _ _ "\<lambda>n t. if n = ''web'' then 1 else 0"])
    (auto simp: next_hop_def proxy_of_def demo_jump_def server_at_def proxy_at_def zero_proxy_def
      zero_server_def is_proxy_type_def Let_def split: if_splits)

end
