(* ===== verification/Ssh_Auth.thy ===== *)
theory Ssh_Auth
  imports Ssh_Route
begin

text \<open>
  src/ssh/auth.go and the authentication part of src/ssh/run.go and shell.go: the cache of
  authentication methods, the methods registered for every server before a connection, the password
  prompt and the rewriting of plain passwords in the configuration file, and
  \<open>getServerConfig\<close>. An authentication method is an abstract type; what creates one
  (package \<open>sshlib\<close>), the PBE codec, the prompts and the environment are the fields of
  \<open>auth_env\<close>.
\<close>

section \<open>State\<close>

type_synonym auth_key = "string \<times> string"

record 'm auth_state =
  authMethodMap :: "auth_key \<rightharpoonup> 'm list"
  serverAuthMethodMap :: "string \<rightharpoonup> 'm list"
  decodedPasswordMap :: "string \<rightharpoonup> bool"
  confContent :: "string option"
  st_servers :: servers

record 'm auth_env =
  mkPassword :: "string \<Rightarrow> 'm"
  mkKey :: "string \<Rightarrow> string \<Rightarrow> 'm option"
  mkKeyCommand :: "string \<Rightarrow> string \<Rightarrow> 'm option"
  mkSigner :: "string \<Rightarrow> string \<Rightarrow> string option"
  mkCert :: "string \<Rightarrow> string \<Rightarrow> 'm option"
  promptRun :: "string option"
  pbeDecode :: "string \<Rightarrow> string option"
  pbeEncode :: "string \<Rightarrow> string option"
  pbePwd :: string
  echoPwd :: string
  autoEncrypt :: bool

definition methods_of :: "(string \<rightharpoonup> 'm list) \<Rightarrow> string \<Rightarrow> 'm list" where
  "methods_of m k = (case m k of Some xs \<Rightarrow> xs | None \<Rightarrow> [])"

definition AuthKeyPassword :: string where "AuthKeyPassword = ''password''"
definition AuthKeyKey :: string where "AuthKeyKey = ''key''"
definition AuthKeyCert :: string where "AuthKeyCert = ''cert''"

section \<open>Rewriting the configuration file\<close>

text \<open>\<open>registerAutoEncryptPwd\<close>.\<close>

definition registerAutoEncryptPwd :: "'m auth_env \<Rightarrow> string \<Rightarrow> 'm auth_state \<Rightarrow> 'm auth_state" where
  "registerAutoEncryptPwd env oldPwd r =
     (if oldPwd = ''na'' \<or> \<not> autoEncrypt env \<or> has_prefix oldPwd ''{PBE}'' then r
      else if decodedPasswordMap r oldPwd \<noteq> None then r
      else r\<lparr>decodedPasswordMap := (decodedPasswordMap r)(oldPwd \<mapsto> True)\<rparr>)"

text \<open>\<open>updatePromptPwd\<close>; an error of \<open>PbeEncode\<close> gives an empty text.\<close>

definition updatePromptPwd :: "'m auth_env \<Rightarrow> string \<Rightarrow> string \<Rightarrow> string \<Rightarrow> 'm auth_state \<Rightarrow> 'm auth_state" where
  "updatePromptPwd env promptTag password rawTemplLine r =
     (case confContent r of
        None \<Rightarrow> r
      | Some content \<Rightarrow>
          if pbePwd env \<noteq> [] then
            (let pp = (case pbeEncode env password of Some p \<Rightarrow> p | None \<Rightarrow> []);
                 newTemplLine = replace_all rawTemplLine promptTag pp
             in r\<lparr>confContent := Some (replace_all content rawTemplLine newTemplLine)\<rparr>)
          else r)"

text \<open>The pattern \<open>["=:/]pwd[@"\s]\<close> of \<open>autoEncryptPwd\<close>.\<close>

definition pwd_before :: "char \<Rightarrow> bool" where
  "pwd_before c \<longleftrightarrow> c = CHR 0x22 \<or> c = CHR ''='' \<or> c = CHR '':'' \<or> c = CHR ''/''"

definition pwd_after :: "char \<Rightarrow> bool" where
  "pwd_after c \<longleftrightarrow> c = CHR ''@'' \<or> c = CHR 0x22
     \<or> c = CHR 0x09 \<or> c = CHR 0x0A \<or> c = CHR 0x0C \<or> c = CHR 0x0D \<or> c = CHR '' ''"

definition pwd_match :: "string \<Rightarrow> string \<Rightarrow> bool" where
  "pwd_match pwd s \<longleftrightarrow>
     (case s of [] \<Rightarrow> False
      | a # rest \<Rightarrow> pwd_before a \<and> prefix pwd rest
          \<and> (case drop (length pwd) rest of [] \<Rightarrow> False | z # _ \<Rightarrow> pwd_after z))"

function reg_replace :: "string \<Rightarrow> string \<Rightarrow> string \<Rightarrow> string" where
  "reg_replace pwd new [] = []"
| "reg_replace pwd new (a # rest) =
     (if pwd_match pwd (a # rest)
      then (case drop (length pwd) rest of
              [] \<Rightarrow> []
            | z # after \<Rightarrow> a # new @ z # reg_replace pwd new after)
      else a # reg_replace pwd new rest)"
  by pat_completeness auto
termination
proof (relation "measure (\<lambda>(pwd, new, s). length s)", goal_cases)
  case (2 pwd new a rest z after)
  then have "length after < length (drop (length pwd) rest)" by simp
  then show ?case by simp
qed simp_all

text \<open>The range over the decoded passwords, in the order \<open>ps\<close>; \<open>None\<close> for a failing codec.\<close>

fun encrypt_loop :: "'m auth_env \<Rightarrow> string list \<Rightarrow> string \<Rightarrow> string option" where
  "encrypt_loop env [] content = Some content"
| "encrypt_loop env (pwd # ps) content =
     (case pbeEncode env pwd of
        None \<Rightarrow> None
      | Some newPwd \<Rightarrow> encrypt_loop env ps (reg_replace pwd newPwd content))"

definition autoEncryptPwd :: "'m auth_env \<Rightarrow> string list \<Rightarrow> 'm auth_state \<Rightarrow> 'm auth_state" where
  "autoEncryptPwd env ps r =
     (if \<not> autoEncrypt env \<or> ps = [] then r
      else case confContent r of
        None \<Rightarrow> r
      | Some content \<Rightarrow>
          (case (if pbePwd env \<noteq> [] then encrypt_loop env ps content else Some content) of
             None \<Rightarrow> r
           | Some newContent \<Rightarrow>
               r\<lparr>confContent := Some newContent,
                 decodedPasswordMap := (\<lambda>k. map_option (\<lambda>_. False) (decodedPasswordMap r k))\<rparr>))"

section \<open>Registering methods\<close>

text \<open>
  What the four \<open>registerAuthMap\<close> functions share: create the method unless the key is
  cached, then append the cached methods to those of the server; \<open>None\<close> is an error.
\<close>

definition register_method ::
  "auth_key \<Rightarrow> 'm option \<Rightarrow> string \<Rightarrow> 'm auth_state \<Rightarrow> 'm auth_state option" where
  "register_method authKey created server r =
     (case (case authMethodMap r authKey of
              Some ms \<Rightarrow> Some (ms, r)
            | None \<Rightarrow> map_option (\<lambda>m. ([m], r\<lparr>authMethodMap := (authMethodMap r)(authKey \<mapsto> [m])\<rparr>)) created) of
        None \<Rightarrow> None
      | Some (ms, r') \<Rightarrow>
          Some (r'\<lparr>serverAuthMethodMap :=
            (serverAuthMethodMap r')(server \<mapsto> methods_of (serverAuthMethodMap r') server @ ms)\<rparr>))"

text \<open>\<open>decodePassword\<close>: a failing prompt or codec panics; \<open>$ECHO_PWD\<close> ends the program.\<close>

definition decodePassword ::
  "'m auth_env \<Rightarrow> string \<Rightarrow> string \<Rightarrow> 'm auth_state \<Rightarrow> (string \<times> 'm auth_state) outcome" where
  "decodePassword env password rawTemplLine r =
     (if to_lower ascii_lower password = ''{prompt}''
      then (case promptRun env of
              None \<Rightarrow> Panic
            | Some result \<Rightarrow>
                Done (result, if rawTemplLine \<noteq> [] then updatePromptPwd env password result rawTemplLine r else r))
      else (case pbeDecode env password of
              None \<Rightarrow> Panic
            | Some pwd \<Rightarrow>
                if echoPwd env = ''1'' then Exit 0 else Done (pwd, registerAutoEncryptPwd env password r)))"

definition registerAuthMapPassword ::
  "'m auth_env \<Rightarrow> string \<Rightarrow> string \<Rightarrow> string \<Rightarrow> 'm auth_state \<Rightarrow> 'm auth_state outcome" where
  "registerAuthMapPassword env serverID password rawTemplLine r =
     (if password = [] then Done r
      else obind (decodePassword env password rawTemplLine r) (\<lambda>(pwd, r').
        case register_method (AuthKeyPassword, pwd) (Some (mkPassword env pwd)) serverID r' of
          Some r'' \<Rightarrow> Done r''
        | None \<Rightarrow> Done r'))"

text \<open>The error of the three functions below is printed and dropped by every caller.\<close>

definition registerAuthMapPublicKey ::
  "'m auth_env \<Rightarrow> string \<Rightarrow> string \<Rightarrow> string \<Rightarrow> 'm auth_state \<Rightarrow> 'm auth_state option" where
  "registerAuthMapPublicKey env serverID key password r =
     (if key = [] then Some r
      else register_method (AuthKeyKey, key) (mkKey env key password) serverID r)"

definition registerAuthMapPublicKeyCommand ::
  "'m auth_env \<Rightarrow> string \<Rightarrow> string \<Rightarrow> string \<Rightarrow> 'm auth_state \<Rightarrow> 'm auth_state option" where
  "registerAuthMapPublicKeyCommand env server command password r =
     (if command = [] then Some r
      else register_method (AuthKeyKey, command) (mkKeyCommand env command password) server r)"

definition registerAuthMapCertificate ::
  "'m auth_env \<Rightarrow> string \<Rightarrow> string \<Rightarrow> string \<Rightarrow> 'm auth_state \<Rightarrow> 'm auth_state option" where
  "registerAuthMapCertificate env server cert signer r =
     register_method (AuthKeyCert, cert) (mkCert env cert signer) server r"

definition or_keep :: "'s option \<Rightarrow> 's \<Rightarrow> 's" where
  "or_keep new old = (case new of Some r \<Rightarrow> r | None \<Rightarrow> old)"

fun passes_loop :: "'m auth_env \<Rightarrow> string \<Rightarrow> string \<Rightarrow> string list \<Rightarrow> 'm auth_state \<Rightarrow> 'm auth_state outcome" where
  "passes_loop env server raw [] r = Done r"
| "passes_loop env server raw (p # ps) r =
     obind (registerAuthMapPassword env server p raw r) (passes_loop env server raw ps)"

fun keys_loop :: "'m auth_env \<Rightarrow> string \<Rightarrow> string list \<Rightarrow> 'm auth_state \<Rightarrow> 'm auth_state" where
  "keys_loop env server [] r = r"
| "keys_loop env server (key # keys) r =
     (let pair = split2 key ''::'';
          keyName = hd pair;
          keyPass = (if length pair > 1 then pair ! 1 else [])
      in keys_loop env server keys (or_keep (registerAuthMapPublicKey env server keyName keyPass r) r))"

text \<open>\<open>createAuthMethodMapForServer\<close> after the proxy: note the ID in the second step.\<close>

definition register_cert :: "'m auth_env \<Rightarrow> string \<Rightarrow> server_config \<Rightarrow> 'm auth_state \<Rightarrow> 'm auth_state" where
  "register_cert env server c r =
     (if sc_Cert c = [] then r
      else case mkSigner env (sc_CertKey c) (sc_CertKeyPass c) of
        None \<Rightarrow> r
      | Some signer \<Rightarrow> or_keep (registerAuthMapCertificate env server (sc_Cert c) signer r) r)"

definition register_server :: "'m auth_env \<Rightarrow> string \<Rightarrow> server_config \<Rightarrow> 'm auth_state \<Rightarrow> 'm auth_state outcome" where
  "register_server env server c r =
     obind (registerAuthMapPassword env server (sc_Pass c) (sc_Raw c) r) (\<lambda>r1.
     obind (passes_loop env server (sc_Raw c) (sc_Passes c) r1) (\<lambda>r2.
       let r3 = or_keep (registerAuthMapPublicKey env (sc_ID c) (sc_Key c) (sc_KeyPass c) r2) r2;
           r4 = keys_loop env server (sc_Keys c) r3;
           r5 = or_keep (registerAuthMapPublicKeyCommand env server (sc_KeyCommand c) (sc_KeyCommandPass c) r4) r4
       in Done (register_cert env server c r5)))"

text \<open>
  The recursion over \<open>config.Proxy\<close> (whatever the proxy type is); \<open>None\<close> is not
  returning.
\<close>

partial_function (option) createAuthMethodMapForServer ::
  "'m auth_env \<Rightarrow> string \<Rightarrow> 'm auth_state \<Rightarrow> 'm auth_state outcome option" where
  "createAuthMethodMapForServer env server r =
     (let c = server_at (st_servers r) server in
      if sc_Proxy c \<noteq> []
      then (if st_servers r (sc_Proxy c) = None then Some (Exit 1)
            else Option.bind (createAuthMethodMapForServer env (sc_Proxy c) r)
                   (\<lambda>o1. Some (obind o1 (register_server env server c))))
      else Some (register_server env server c r))"

declare createAuthMethodMapForServer.simps [code]

fun servers_auth_loop ::
  "'m auth_env \<Rightarrow> string list \<Rightarrow> 'm auth_state \<Rightarrow> 'm auth_state outcome option" where
  "servers_auth_loop env [] r = Some (Done r)"
| "servers_auth_loop env (s # ss) r =
     Option.bind (createAuthMethodMapForServer env s r)
       (\<lambda>o1. case o1 of Done r' \<Rightarrow> servers_auth_loop env ss r' | Panic \<Rightarrow> Some Panic | Exit n \<Rightarrow> Some (Exit n))"

text \<open>\<open>getSSHServers\<close>: the servers asked for, then the ssh hops of their routes.\<close>

fun ssh_hops_loop :: "servers \<Rightarrow> proxies \<Rightarrow> string list \<Rightarrow> string list option" where
  "ssh_hops_loop sv px [] = Some []"
| "ssh_hops_loop sv px (s # ss) =
     Option.bind (getProxyRoute sv px s) (\<lambda>route.
     Option.bind (ssh_hops_loop sv px ss) (\<lambda>rest.
       Some ((case route of
                Inr hops \<Rightarrow> map hop_Name (filter (\<lambda>h. hop_Type h = ''ssh'') hops)
              | Inl e \<Rightarrow> []) @ rest)))"

definition getSSHServers :: "servers \<Rightarrow> proxies \<Rightarrow> string list \<Rightarrow> string list option" where
  "getSSHServers sv px serverList =
     map_option (\<lambda>hops. GetUniqueSlice (serverList @ hops)) (ssh_hops_loop sv px serverList)"

text \<open>\<open>CreateAuthMethodMap\<close>; \<open>enum\<close> is the order of the deferred range.\<close>

definition CreateAuthMethodMap ::
  "'m auth_env \<Rightarrow> proxies \<Rightarrow> ((string \<rightharpoonup> bool) \<Rightarrow> string list) \<Rightarrow> string list \<Rightarrow> 'm auth_state
   \<Rightarrow> 'm auth_state outcome option" where
  "CreateAuthMethodMap env px enum serverList r =
     Option.bind (getSSHServers (st_servers r) px serverList) (\<lambda>srvs.
     Option.bind (servers_auth_loop env srvs
                    (r\<lparr>authMethodMap := Map.empty, serverAuthMethodMap := Map.empty\<rparr>)) (\<lambda>o1.
       Some (obind o1 (\<lambda>r'. Done (autoEncryptPwd env (enum (decodedPasswordMap r')) r')))))"

section \<open>The server of a connection\<close>

text \<open>
  \<open>parseDirectServer\<close>: \<open>hashID\<close> is \<open>"xx-"\<close> and the hash of the text,
  \<open>parse\<close> is \<open>hostparse.ParseDirectServer\<close>, \<open>keyPath\<close> is \<open>$KEY\<close>
  with its expansion.
\<close>

definition parseDirectServer ::
  "'m auth_env \<Rightarrow> (string \<Rightarrow> string) \<Rightarrow> (string \<Rightarrow> parsed_host option) \<Rightarrow> (string \<times> string outcome)
   \<Rightarrow> string \<Rightarrow> 'm auth_state \<Rightarrow> (server_config \<times> 'm auth_state) outcome" where
  "parseDirectServer env hashID parse keyPath server r =
     (let autoID = hashID server in
      case st_servers r autoID of
        Some c \<Rightarrow> obind (registerAuthMapPassword env autoID (sc_Pass c) [] r) (\<lambda>r'. Done (c, r'))
      | None \<Rightarrow>
          (case parse server of
             None \<Rightarrow> Exit 1
           | Some h \<Rightarrow>
               (let c0 = zero_server\<lparr>sc_User := h_User h, sc_Pass := h_Password h, sc_Addr := h_Addr h,
                           sc_Port := h_Port h, sc_ID := autoID, sc_DirectServer := True\<rparr>
                in obind (if fst keyPath \<noteq> []
                          then obind (snd keyPath) (\<lambda>k. Done (c0\<lparr>sc_Key := k, sc_OriginalKey := fst keyPath\<rparr>))
                          else Done c0) (\<lambda>c.
                   obind (registerAuthMapPassword env autoID (sc_Pass c) []
                            (r\<lparr>st_servers := (st_servers r)(autoID \<mapsto> c)\<rparr>)) (\<lambda>r'. Done (c, r'))))))"

text \<open>
  \<open>getServerConfig\<close>: the error of \<open>GetPassPhrase\<close> is \<open>Inl\<close>; the result is
  \<open>Inl\<close> its message or the configuration.
\<close>

definition getServerConfig ::
  "'m auth_env \<Rightarrow> (string \<Rightarrow> 'm auth_state \<Rightarrow> (server_config \<times> 'm auth_state) outcome) \<Rightarrow> string
   \<Rightarrow> (string + string) \<Rightarrow> string \<Rightarrow> 'm auth_state \<Rightarrow> ((string + server_config) \<times> 'm auth_state) outcome" where
  "getServerConfig env direct inputPwd typed serverID r =
     obind (case st_servers r serverID of Some c \<Rightarrow> Done (c, r) | None \<Rightarrow> direct serverID r) (\<lambda>(c, r1).
       if methods_of (serverAuthMethodMap r1) (sc_ID c) \<noteq> [] then Done (Inr c, r1)
       else if sc_Key c \<noteq> []
       then Done (Inr c, or_keep (registerAuthMapPublicKey env (sc_ID c) (sc_Key c) (sc_KeyPass c) r1) r1)
       else if inputPwd \<noteq> ''0''
       then (case typed of
               Inl e \<Rightarrow> if contains e ''input is empty'' then Done (Inr c, r1)
                        else Done (Inl (''Error: '' @ serverID @ '' has No AuthMethod.'' @ [newline]), r1)
             | Inr password \<Rightarrow>
                 obind (registerAuthMapPassword env (sc_ID c) password (sc_Raw c) r1)
                   (\<lambda>r2. Done (Inr (c\<lparr>sc_Pass := password\<rparr>), r2)))
       else Done (Inr c, r1))"

text \<open>The methods \<open>CreateSSHConnect\<close> gives to the connection of a configured server.\<close>

definition connect_methods :: "'m auth_state \<Rightarrow> server_config \<Rightarrow> 'm list" where
  "connect_methods r c = methods_of (serverAuthMethodMap r) (sc_ID c)"

text \<open>What \<open>CreateSSHConnect\<close> gives to the connection to the target.\<close>

record ('d, 'm) connect_params =
  cp_dialer :: "'d option"
  cp_ForwardAgent :: bool
  cp_ForwardX11 :: bool
  cp_ConnectTimeout :: int
  cp_SendKeepAliveMax :: int
  cp_SendKeepAliveInterval :: int
  cp_addr :: string
  cp_port :: string
  cp_user :: string
  cp_methods :: "'m list"
  cp_brg :: string

text \<open>
  \<open>CreateSSHConnect\<close> up to the call of \<open>CreateClient\<close> on the target: the route,
  the chain of dialers, the proxy of the environment when there is no route, and the address after
  \<open>$IP2\<close>. \<open>envDialer\<close> creates the dialer of \<open>proxyByEnv\<close>.
\<close>

definition CreateSSHConnect ::
  "(string \<Rightarrow> proxy_config \<Rightarrow> 'd option \<Rightarrow> string + 'd) \<Rightarrow> (string \<Rightarrow> string + 'd)
   \<Rightarrow> (server_config \<Rightarrow> 'm list \<Rightarrow> 'd option \<Rightarrow> string + 'd) \<Rightarrow> (env_proxy \<Rightarrow> 'd \<Rightarrow> string + 'd option)
   \<Rightarrow> 'd \<Rightarrow> proxies \<Rightarrow> (string \<rightharpoonup> string) \<Rightarrow> string \<Rightarrow> bool \<Rightarrow> string \<Rightarrow> server_config \<Rightarrow> 'm auth_state
   \<Rightarrow> (string + ('d, 'm) connect_params) outcome option" where
  "CreateSSHConnect mkProxy mkCommand mkSsh envDialer base px environ ip2 rX11 server c r =
     (case getProxyRoute (st_servers r) px server of
        None \<Rightarrow> None
      | Some (Inl e) \<Rightarrow> Some (Done (Inl e))
      | Some (Inr route) \<Rightarrow> Some (
          obind (dial_loop mkProxy mkCommand
                   (\<lambda>sc name d. mkSsh sc (methods_of (serverAuthMethodMap r) name) d)
                   (st_servers r) px route (Some base) None) (\<lambda>res.
            case res of
              Inl e \<Rightarrow> Done (Inl e)
            | Inr (dialer, err) \<Rightarrow>
                (case (if route = [] then envDialer (proxyByEnv environ c) base else Inr None) of
                   Inl e \<Rightarrow> Done (Inl e)
                 | Inr proxyDialer \<Rightarrow>
                     (case err of
                        Some e \<Rightarrow> Done (Inl e)
                      | None \<Rightarrow>
                          let (addr, port) = resolveIP2Override ip2 (sc_Addr c) (sc_Port c) in
                          Done (Inr \<lparr>cp_dialer = (if proxyDialer \<noteq> None then proxyDialer else dialer),
                            cp_ForwardAgent = sc_SSHAgentUse c, cp_ForwardX11 = (sc_X11 c \<or> rX11),
                            cp_ConnectTimeout = sc_ConnectTimeout c,
                            cp_SendKeepAliveMax = sc_ServerAliveCountMax c,
                            cp_SendKeepAliveInterval = sc_ServerAliveCountInterval c,
                            cp_addr = addr, cp_port = port, cp_user = sc_User c,
                            cp_methods = connect_methods r c, cp_brg = sc_Brg c\<rparr>))))))"

text \<open>The end of \<open>CreateSSHConnect\<close>: \<open>err\<close> is the result of \<open>CreateClient\<close>. A direct
  server is written to the file of temporary hosts when its connection failed; the callers write the
  ones that were connected.\<close>

definition connect_end :: "server_config \<Rightarrow> string option \<Rightarrow> ('w \<Rightarrow> 'w \<times> string option) \<Rightarrow> 'w \<Rightarrow> 'w \<times> string option" where
  "connect_end c err writeTempHosts cf = (if err \<noteq> None \<and> sc_DirectServer c then writeTempHosts cf else (cf, None))"

lemma failed_host_stored: "sc_DirectServer c \<Longrightarrow> connect_end c (Some e) w cf = w cf"
  by (simp add: connect_end_def)

section \<open>The contract of the registering functions\<close>

text \<open>
  A registering step works on one server: the methods of the others stay, those of the target
  only grow at the end, and the configuration is not touched.
\<close>

locale registrar =
  fixes reg :: "'m auth_state \<Rightarrow> 'm auth_state outcome"
    and target :: string
  assumes other: "reg r = Done r' \<Longrightarrow> s \<noteq> target \<Longrightarrow>
      methods_of (serverAuthMethodMap r') s = methods_of (serverAuthMethodMap r) s"
    and grows: "reg r = Done r' \<Longrightarrow>
      prefix (methods_of (serverAuthMethodMap r) target) (methods_of (serverAuthMethodMap r') target)"
    and same_servers: "reg r = Done r' \<Longrightarrow> st_servers r' = st_servers r"
begin

lemma keeps: "reg r = Done r' \<Longrightarrow> prefix (methods_of (serverAuthMethodMap r) s) (methods_of (serverAuthMethodMap r') s)"
  using other [of r r' s] grows [of r r'] by (cases "s = target") auto

lemma still_registered:
  "reg r = Done r' \<Longrightarrow> methods_of (serverAuthMethodMap r) s \<noteq> [] \<Longrightarrow> methods_of (serverAuthMethodMap r') s \<noteq> []"
  using keeps [of r r' s] by auto

end

lemma registrar_id: "registrar Done t"
  by unfold_locales auto

lemma registrar_then:
  assumes "registrar f t" and "registrar g t"
  shows "registrar (\<lambda>r. obind (f r) g) t"
proof (unfold_locales, goal_cases)
  case (1 r r' s)
  then show ?case using registrar.other [OF assms(1)] registrar.other [OF assms(2)]
    by (fastforce simp: obind_Done_iff)
next
  case (2 r r')
  then show ?case using registrar.grows [OF assms(1)] registrar.grows [OF assms(2)]
    by (auto simp: obind_Done_iff) (meson prefix_order.trans)
next
  case (3 r r')
  then show ?case using registrar.same_servers [OF assms(1)] registrar.same_servers [OF assms(2)]
    by (auto simp: obind_Done_iff)
qed

lemma methods_of_upd [simp]: "methods_of (m(k \<mapsto> v)) s = (if s = k then v else methods_of m s)"
  by (simp add: methods_of_def)

lemma register_method_facts:
  assumes "register_method key created server r = Some r'"
  shows "st_servers r' = st_servers r"
    and "s \<noteq> server \<Longrightarrow> methods_of (serverAuthMethodMap r') s = methods_of (serverAuthMethodMap r) s"
    and "prefix (methods_of (serverAuthMethodMap r) server) (methods_of (serverAuthMethodMap r') server)"
  using assms by (auto simp: register_method_def split: option.splits prod.splits)

lemma decodePassword_state:
  assumes "decodePassword env p raw r = Done (pwd, r')"
  shows "st_servers r' = st_servers r \<and> serverAuthMethodMap r' = serverAuthMethodMap r \<and> authMethodMap r' = authMethodMap r"
  using assms
  by (auto simp: decodePassword_def updatePromptPwd_def registerAutoEncryptPwd_def Let_def
      split: if_splits option.splits)

interpretation password: registrar "registerAuthMapPassword env server p raw" server
proof (unfold_locales, goal_cases)
  case (1 r r' s)
  then show ?case
    by (auto simp: registerAuthMapPassword_def obind_Done_iff register_method_facts dest!: decodePassword_state
        split: if_splits option.splits)
next
  case (2 r r')
  then show ?case
    using register_method_facts(3)
    by (fastforce simp: registerAuthMapPassword_def obind_Done_iff dest: decodePassword_state
        split: if_splits option.splits)
next
  case (3 r r')
  then show ?case
    by (auto simp: registerAuthMapPassword_def obind_Done_iff register_method_facts dest!: decodePassword_state
        split: if_splits option.splits)
qed

interpretation publickey: registrar "\<lambda>r. Done (or_keep (registerAuthMapPublicKey env server key pass r) r)" server
  by unfold_locales
    (auto simp: registerAuthMapPublicKey_def or_keep_def register_method_facts split: option.splits if_splits)

interpretation keycommand: registrar "\<lambda>r. Done (or_keep (registerAuthMapPublicKeyCommand env server key pass r) r)" server
  by unfold_locales
    (auto simp: registerAuthMapPublicKeyCommand_def or_keep_def register_method_facts split: option.splits if_splits)

interpretation certificate: registrar "\<lambda>r. Done (register_cert env server c r)" server
  by unfold_locales
    (auto simp: register_cert_def registerAuthMapCertificate_def or_keep_def register_method_facts
      split: option.splits if_splits)

interpretation passes: registrar "passes_loop env server raw ps" server
proof (induction ps)
  case Nil
  then show ?case using registrar_id by (simp add: fun_eq_iff [symmetric])
next
  case (Cons p ps)
  have "passes_loop env server raw (p # ps) =
      (\<lambda>r. obind (registerAuthMapPassword env server p raw r) (passes_loop env server raw ps))"
    by (rule ext) simp
  then show ?case using registrar_then [OF password.registrar_axioms Cons] by simp
qed

interpretation keylist: registrar "\<lambda>r. Done (keys_loop env server ks r)" server
proof (induction ks)
  case Nil
  then show ?case using registrar_id by simp
next
  case (Cons k ks)
  show ?case
    using registrar_then [OF publickey.registrar_axioms Cons] by (simp add: Let_def)
qed

lemma register_server_other:
  assumes "register_server env server c r = Done r'" and "s \<noteq> server" and "s \<noteq> sc_ID c \<or> sc_Key c = []"
  shows "methods_of (serverAuthMethodMap r') s = methods_of (serverAuthMethodMap r) s"
proof -
  from assms(1) obtain r1 r2 where r: "registerAuthMapPassword env server (sc_Pass c) (sc_Raw c) r = Done r1"
      "passes_loop env server (sc_Raw c) (sc_Passes c) r1 = Done r2"
    and r': "(let r3 = or_keep (registerAuthMapPublicKey env (sc_ID c) (sc_Key c) (sc_KeyPass c) r2) r2;
           r4 = keys_loop env server (sc_Keys c) r3;
           r5 = or_keep (registerAuthMapPublicKeyCommand env server (sc_KeyCommand c) (sc_KeyCommandPass c) r4) r4
       in register_cert env server c r5) = r'"
    by (auto simp: register_server_def obind_Done_iff Let_def)
  have e: "methods_of (serverAuthMethodMap (or_keep (registerAuthMapPublicKey env (sc_ID c) (sc_Key c) (sc_KeyPass c) r2) r2)) s
      = methods_of (serverAuthMethodMap r2) s"
  proof (cases "sc_Key c = []")
    case False
    with assms(3) show ?thesis using publickey.other [OF refl, of s "sc_ID c"] by simp
  qed (simp add: registerAuthMapPublicKey_def or_keep_def)
  then show ?thesis
    using r' [symmetric] assms(2)
    by (simp add: Let_def certificate.other [OF refl] keycommand.other [OF refl] keylist.other [OF refl]
        e passes.other [OF r(2)] password.other [OF r(1)])
qed

lemma register_server_password:
  assumes "register_server env server c r = Done r'" and "sc_Pass c \<noteq> []" and "\<forall>k. authMethodMap r k \<noteq> Some []"
  shows "methods_of (serverAuthMethodMap r') server \<noteq> []"
proof -
  from assms(1) obtain r1 r2 where r: "registerAuthMapPassword env server (sc_Pass c) (sc_Raw c) r = Done r1"
      "passes_loop env server (sc_Raw c) (sc_Passes c) r1 = Done r2"
    and r': "(let r3 = or_keep (registerAuthMapPublicKey env (sc_ID c) (sc_Key c) (sc_KeyPass c) r2) r2;
           r4 = keys_loop env server (sc_Keys c) r3;
           r5 = or_keep (registerAuthMapPublicKeyCommand env server (sc_KeyCommand c) (sc_KeyCommandPass c) r4) r4
       in register_cert env server c r5) = r'"
    by (auto simp: register_server_def obind_Done_iff Let_def)
  have "methods_of (serverAuthMethodMap r1) server \<noteq> []"
    using r(1) assms(2,3)
    by (auto simp: registerAuthMapPassword_def obind_Done_iff register_method_def dest!: decodePassword_state
        split: option.splits prod.splits)
  then show ?thesis
    using r' [symmetric] passes.still_registered [OF r(2)]
    by (simp add: Let_def publickey.still_registered [OF refl] keylist.still_registered [OF refl]
      keycommand.still_registered [OF refl] certificate.still_registered [OF refl])
qed

lemma create_no_proxy:
  "sc_Proxy (server_at (st_servers r) server) = [] \<Longrightarrow>
   createAuthMethodMapForServer env server r
   = Some (register_server env server (server_at (st_servers r) server) r)"
  by (subst createAuthMethodMapForServer.simps) (simp add: Let_def)

lemma create_missing_proxy:
  "sc_Proxy (server_at (st_servers r) server) \<noteq> [] \<Longrightarrow>
   st_servers r (sc_Proxy (server_at (st_servers r) server)) = None \<Longrightarrow>
   createAuthMethodMapForServer env server r = Some (Exit 1)"
  by (subst createAuthMethodMapForServer.simps) (simp add: Let_def)

lemma route_no_proxy:
  "sc_Proxy (server_at sv server) = [] \<Longrightarrow> sc_ProxyCommand (server_at sv server) = [] \<Longrightarrow>
   getProxyRoute sv px server = Some (Inr [])"
  by (simp add: getProxyRoute_eq next_hop_def proxy_of_def is_proxy_type_def Let_def)

lemma route_one_proxy:
  assumes "sc_ProxyCommand (server_at sv server) = []" and "sv server \<noteq> None"
    and "sc_Proxy (server_at sv server) = p" and "p \<noteq> []" and "is_proxy_type (sc_ProxyType (server_at sv server))"
    and "px_Proxy (proxy_at px p) = []"
  shows "getProxyRoute sv px server = Some (Inr [\<lparr>hop_Name = p, hop_Type = sc_ProxyType (server_at sv server),
           hop_Port = sc_Port (server_at sv server)\<rparr>])"
  using assms by (auto simp: getProxyRoute_eq next_hop_def proxy_of_def is_proxy_type_def Let_def)

section \<open>Properties\<close>

text \<open>A server behind an http, https or socks proxy cannot be used: its route is found, but the
  registration of authentication methods looks the proxy up among the servers, whatever its type,
  and ends the program.\<close>

theorem http_proxy_is_fatal:
  assumes "st_servers r server = Some c" and "sc_Proxy c = p" and "p \<noteq> []" and "is_proxy_type (sc_ProxyType c)"
    and "sc_ProxyCommand c = []" and "px p = Some pc" and "px_Proxy pc = []" and "st_servers r p = None"
  shows "getProxyRoute (st_servers r) px server
           = Some (Inr [\<lparr>hop_Name = p, hop_Type = sc_ProxyType c, hop_Port = sc_Port c\<rparr>])
       \<and> CreateAuthMethodMap env px enum [server] r = Some (Exit 1)"
proof -
  have route: "getProxyRoute (st_servers r) px server
      = Some (Inr [\<lparr>hop_Name = p, hop_Type = sc_ProxyType c, hop_Port = sc_Port c\<rparr>])"
    using route_one_proxy [of "st_servers r" server p px] assms by (simp add: proxy_at_def)
  have "sc_ProxyType c \<noteq> ''ssh''" using assms(4) by (auto simp: is_proxy_type_def)
  then have "getSSHServers (st_servers r) px [server] = Some [server]"
    using route slice.uniq_fixed [of "[server]"] by (simp add: getSSHServers_def)
  with route show ?thesis
    using assms create_missing_proxy
      [of "r\<lparr>authMethodMap := Map.empty, serverAuthMethodMap := Map.empty\<rparr>" server env]
    by (simp add: CreateAuthMethodMap_def)
qed

text \<open>The methods are registered under the key of the entry and looked up under its ID.\<close>

lemma password_lost_when_id_differs:
  assumes "st_servers r server = Some c" and "sc_Proxy c = []" and "sc_ProxyCommand c = []"
    and "sc_Pass c \<noteq> []" and "sc_Key c = []" and "sc_ID c \<noteq> server"
    and "CreateAuthMethodMap env px enum [server] r = Some (Done r')"
  shows "connect_methods r' c = [] \<and> methods_of (serverAuthMethodMap r') server \<noteq> []"
proof -
  let ?r0 = "r\<lparr>authMethodMap := Map.empty, serverAuthMethodMap := Map.empty\<rparr>"
  have "getSSHServers (st_servers r) px [server] = Some [server]"
    using route_no_proxy [of "st_servers r" server px] assms(1-3) slice.uniq_fixed [of "[server]"]
    by (simp add: getSSHServers_def)
  moreover have "createAuthMethodMapForServer env server ?r0 = Some (register_server env server c ?r0)"
    using create_no_proxy [of ?r0 server env] assms(1,2) by simp
  ultimately obtain r1 where r1: "register_server env server c ?r0 = Done r1"
      "r' = autoEncryptPwd env (enum (decodedPasswordMap r1)) r1"
    using assms(7) by (cases "register_server env server c ?r0") (auto simp: CreateAuthMethodMap_def)
  then have same: "serverAuthMethodMap r' = serverAuthMethodMap r1"
    by (auto simp: autoEncryptPwd_def split: option.splits)
  have "methods_of (serverAuthMethodMap r1) (sc_ID c) = methods_of (serverAuthMethodMap ?r0) (sc_ID c)"
    using register_server_other [OF r1(1) assms(6)] assms(5) by simp
  then show ?thesis
    using same register_server_password [OF r1(1) assms(4)]
    by (simp add: connect_methods_def methods_of_def)
qed

definition demo_env :: "string auth_env" where
  "demo_env = \<lparr>mkPassword = (\<lambda>p. p), mkKey = (\<lambda>k p. None), mkKeyCommand = (\<lambda>k p. None), mkSigner = (\<lambda>k p. None),
     mkCert = (\<lambda>c s. None), promptRun = None, pbeDecode = Some, pbeEncode = Some, pbePwd = [], echoPwd = [],
     autoEncrypt = False\<rparr>"

definition demo_run :: "servers \<Rightarrow> string auth_state" where
  "demo_run sv = \<lparr>authMethodMap = Map.empty, serverAuthMethodMap = Map.empty, decodedPasswordMap = Map.empty,
     confContent = None, st_servers = sv\<rparr>"

lemma http_proxy_is_fatal_witness:
  "CreateAuthMethodMap demo_env [''corp'' \<mapsto> zero_proxy\<lparr>px_Addr := ''10.0.0.1'', px_Port := ''3128''\<rparr>] (\<lambda>_. []) [''web'']
     (demo_run [''web'' \<mapsto> zero_server\<lparr>sc_Addr := ''10.1.1.1'', sc_Proxy := ''corp'', sc_ProxyType := ''http''\<rparr>])
   = Some (Exit 1)"
  by (rule conjunct2 [OF http_proxy_is_fatal [where p = "''corp''"
        and c = "zero_server\<lparr>sc_Addr := ''10.1.1.1'', sc_Proxy := ''corp'', sc_ProxyType := ''http''\<rparr>"
        and pc = "zero_proxy\<lparr>px_Addr := ''10.0.0.1'', px_Port := ''3128''\<rparr>"]])
    (simp_all add: demo_run_def is_proxy_type_def)

lemma demo_auth:
  assumes "sv server = Some c" and "sc_Proxy c = []" and "sc_ProxyCommand c = []" and "sc_Pass c = ''x9''"
    and "sc_Passes c = []"
  shows "\<exists>r'. CreateAuthMethodMap demo_env Map.empty (\<lambda>_. []) [server] (demo_run sv) = Some (Done r')"
proof -
  let ?r = "(demo_run sv)\<lparr>authMethodMap := Map.empty, serverAuthMethodMap := Map.empty\<rparr>"
  have low: "to_lower ascii_lower ''x9'' \<noteq> ''{prompt}''"
    by (subst to_lower_ascii) (simp_all add: ascii_def lower_char_def less_eq_char_def)
  have route: "getSSHServers (st_servers (demo_run sv)) Map.empty [server] = Some [server]"
    using route_no_proxy [of sv server] slice.uniq_fixed [of "[server]"] assms
    by (simp add: getSSHServers_def demo_run_def)
  have "\<exists>r'. registerAuthMapPassword demo_env server (sc_Pass c) (sc_Raw c) ?r = Done r'"
    using low assms(4)
    by (auto simp: registerAuthMapPassword_def decodePassword_def demo_env_def split: option.split)
  then obtain r1 where "register_server demo_env server c ?r = Done r1"
    using assms(5) by (auto simp: register_server_def obind_Done_iff Let_def)
  then have "createAuthMethodMapForServer demo_env server ?r = Some (Done r1)"
    using create_no_proxy [of ?r server demo_env] assms by (simp add: demo_run_def)
  with route show ?thesis by (simp add: CreateAuthMethodMap_def)
qed

end
