(* ===== verification/Ssh_Shell.thy ===== *)
theory Ssh_Shell
  imports Ssh_Auth
begin

text \<open>
  src/ssh/shell.go, cmd.go and the printed headers of run.go: how the options of the command line
  override a server's configuration, which forwards a session starts, the headers, the path of the
  terminal log, the scripts sent to the shell, and the connections and the order of runs of command
  mode. A forward is recorded as the call made on the connection.
\<close>

section \<open>Options of a run\<close>

record run_opts =
  ro_ServerList :: "string list"
  ro_PortForwardMode :: string
  ro_PortForwardLocal :: string
  ro_PortForwardRemote :: string
  ro_DynamicPortForward :: string
  ro_IsBashrc :: bool
  ro_IsNotBashrc :: bool
  ro_IsParallel :: bool
  ro_IsTerm :: bool
  ro_ExecCmd :: "string list"

datatype net_action =
    TCPLocalForward string string
  | TCPRemoteForward string string
  | TCPDynamicForward string string

definition overwriteBashrcConfig :: "run_opts \<Rightarrow> server_config \<Rightarrow> server_config" where
  "overwriteBashrcConfig r c =
     (let c1 = (if ro_IsBashrc r then c\<lparr>sc_LocalRcUse := ''yes''\<rparr> else c)
      in if ro_IsNotBashrc r then c1\<lparr>sc_LocalRcUse := ''no''\<rparr> else c1)"

definition overwrite_mode :: "run_opts \<Rightarrow> server_config \<Rightarrow> server_config" where
  "overwrite_mode r c = (if ro_PortForwardMode r \<noteq> [] then c\<lparr>sc_PortForwardMode := ro_PortForwardMode r\<rparr> else c)"

definition overwrite_addrs :: "run_opts \<Rightarrow> server_config \<Rightarrow> server_config" where
  "overwrite_addrs r c =
     (if ro_PortForwardLocal r \<noteq> [] \<and> ro_PortForwardRemote r \<noteq> []
      then c\<lparr>sc_PortForwardLocal := ro_PortForwardLocal r, sc_PortForwardRemote := ro_PortForwardRemote r\<rparr>
      else c)"

definition overwritePortForwardConfig :: "run_opts \<Rightarrow> server_config \<Rightarrow> server_config" where
  "overwritePortForwardConfig r c =
     (let c2 = overwrite_addrs r (overwrite_mode r c)
      in if ro_DynamicPortForward r \<noteq> [] then c2\<lparr>sc_DynamicPortForward := ro_DynamicPortForward r\<rparr> else c2)"

text \<open>The switch on the mode, shared by the two callers.\<close>

definition mode_forward :: "server_config \<Rightarrow> net_action list" where
  "mode_forward c =
     (if sc_PortForwardMode c = ''L'' \<or> sc_PortForwardMode c = []
      then [TCPLocalForward (sc_PortForwardLocal c) (sc_PortForwardRemote c)]
      else if sc_PortForwardMode c = ''R''
      then [TCPRemoteForward (sc_PortForwardLocal c) (sc_PortForwardRemote c)]
      else [])"

definition dynamic_forward :: "server_config \<Rightarrow> net_action list" where
  "dynamic_forward c =
     (if sc_DynamicPortForward c \<noteq> [] then [TCPDynamicForward ''localhost'' (sc_DynamicPortForward c)] else [])"

text \<open>\<open>portForwarding\<close> of shell mode, with the dynamic forward started after it by \<open>shell\<close>.\<close>

definition portForwarding :: "server_config \<Rightarrow> net_action list" where
  "portForwarding c =
     (if sc_PortForwardLocal c \<noteq> [] \<and> sc_PortForwardRemote c \<noteq> [] then mode_forward c else [])"

definition shell_forwards :: "run_opts \<Rightarrow> server_config \<Rightarrow> net_action list" where
  "shell_forwards r c =
     (let c' = overwriteBashrcConfig r (overwritePortForwardConfig r c)
      in portForwarding c' @ dynamic_forward c')"

text \<open>\<open>setupPortForwarding\<close> of command mode: no test for empty addresses.\<close>

definition setupPortForwarding :: "run_opts \<Rightarrow> server_config \<Rightarrow> server_config \<times> net_action list" where
  "setupPortForwarding r c =
     (let c' = overwrite_addrs r (overwrite_mode r c) in (c', mode_forward c' @ dynamic_forward c'))"

section \<open>Headers (run.go)\<close>

definition printPortForward :: "string \<Rightarrow> string \<Rightarrow> string \<Rightarrow> string list" where
  "printPortForward m forwardLocal forwardRemote =
     (if forwardLocal \<noteq> [] \<and> forwardRemote \<noteq> []
      then let mode = (if m = ''L'' \<or> m = [] then ''LOCAL '' else if m = ''R'' then ''REMOTE'' else []);
               arrow = (if m = ''L'' \<or> m = [] then '' =>'' else if m = ''R'' then ''<= '' else [])
           in [''Port Forward  :'' @ mode,
               ''               local['' @ forwardLocal @ ''] '' @ arrow @ '' remote['' @ forwardRemote @ '']'']
      else [])"

definition printDynamicPortForward :: "string \<Rightarrow> string list" where
  "printDynamicPortForward port =
     (if port \<noteq> [] then [''DynamicForward:'' @ port, ''               connect Socks5.''] else [])"

definition hop_text :: "hop \<Rightarrow> string" where
  "hop_text h =
     ''['' @ hop_Type h @ (if hop_Type h = ''command'' then '':'' else ''://'') @ hop_Name h
     @ (if hop_Port h \<noteq> [] then '':'' @ hop_Port h else []) @ '']''"

text \<open>\<open>printProxy\<close>: \<open>None\<close> when the route is not returned.\<close>

definition printProxy :: "servers \<Rightarrow> proxies \<Rightarrow> string \<Rightarrow> string list option" where
  "printProxy sv px server =
     (case getProxyRoute sv px server of
        None \<Rightarrow> None
      | Some (Inl e) \<Rightarrow> Some []
      | Some (Inr route) \<Rightarrow>
          Some (if route = [] then []
                else [''Proxy         :''
                      @ str_join (''localhost'' # map hop_text route @ [server]) '' => '']))"

definition PrintSelectServer :: "servers \<Rightarrow> (string \<Rightarrow> string) \<Rightarrow> string list \<Rightarrow> string list" where
  "PrintSelectServer sv hostInfo serverList =
     concat (map (\<lambda>server.
       let c = server_at sv server in
       [''Select Server: '' @ server @ '' '' @ sc_User c @ ''@'' @ sc_Addr c @ '':'' @ sc_Port c @ '' '' @ sc_Note c]
       @ (if hostInfo server \<noteq> [] then [''Host Info: '' @ hostInfo server] else [])) serverList)"

definition printRunCommand :: "run_opts \<Rightarrow> string" where
  "printRunCommand r = ''Run Command   :'' @ str_join (ro_ExecCmd r) '' ''"

section \<open>The terminal log\<close>

text \<open>\<open>Replace\<close> with a limit of one replacement and whether it changed anything.\<close>

definition ReplaceOne :: "string \<Rightarrow> string \<Rightarrow> string \<Rightarrow> string \<times> bool" where
  "ReplaceOne s old new = (let r = replace_first s old new in (r, r \<noteq> s))"

definition getLogDirPath :: "(string \<Rightarrow> string) \<Rightarrow> string \<Rightarrow> string \<Rightarrow> string \<Rightarrow> string \<times> bool \<times> bool" where
  "getLogDirPath expandHome logDir date server =
     (let (d1, dateFound) = ReplaceOne (expandHome logDir) ''<Date>'' date;
          (d2, hostnameFound) = ReplaceOne d1 ''<ServerName>'' server
      in (d2, dateFound, hostnameFound))"

definition getLogPath :: "(string \<Rightarrow> string) \<Rightarrow> string \<Rightarrow> string \<Rightarrow> string \<Rightarrow> string" where
  "getLogPath expandHome logDir date server0 =
     (let s1 = (case str_index ''@'' server0 of Some idx \<Rightarrow> drop (idx + 1) server0 | None \<Rightarrow> server0);
          server = replace_all s1 '':'' ''_'';
          (dir, dateFound, serverFound) = getLogDirPath expandHome logDir date server;
          f1 = (if \<not> dateFound then date else []);
          f2 = (if \<not> serverFound then (if f1 \<noteq> [] then f1 @ ''_'' else f1) @ server else f1)
      in path_join [dir, f2 @ ''.log''])"

section \<open>Scripts\<close>

definition is_eol :: "char \<Rightarrow> bool" where
  "is_eol c \<longleftrightarrow> c = CHR 0x0A \<or> c = CHR 0x0D"

definition trim_right_semicolons :: "string \<Rightarrow> string" where
  "trim_right_semicolons s = rev (dropWhile (\<lambda>c. c = CHR '';'') (rev s))"

text \<open>\<open>readScriptFile\<close>; an unreadable file is fatal.\<close>

definition readScriptFile :: "(string \<Rightarrow> string option) \<Rightarrow> string \<Rightarrow> string \<Rightarrow> string \<Rightarrow> string outcome" where
  "readScriptFile readFile confPath scriptFile defaultScript =
     obind (if scriptFile = [] then Done defaultScript
            else let f = (if \<not> has_prefix scriptFile ''/''
                          then path_clean (path_join [path_dir confPath, scriptFile]) else scriptFile)
                 in case readFile f of None \<Rightarrow> Exit 1 | Some s \<Rightarrow> Done s)
       (\<lambda>script. Done (filter (\<lambda>c. \<not> is_eol c) (trim_right_semicolons (trim_space script))))"

text \<open>The command of \<open>localrcShell\<close> for the encoded rc files.\<close>

definition localrc_cmd :: "string \<Rightarrow> string \<Rightarrow> string" where
  "localrc_cmd rcData decoder =
     (if decoder \<noteq> []
      then ''bash --noprofile --rcfile <(echo '' @ rcData @ '' | '' @ decoder @ '')''
      else ''bash --noprofile --rcfile<(echo '' @ rcData
           @ ''|((base64 --help|grep -q coreutils)&&base64 -d<(cat)||base64 -D<(cat) ))'')"

section \<open>Shell mode\<close>

text \<open>
  What \<open>shell\<close> does, in order. The outcomes of the calls are in the environment: the errors
  of the connection, the session and the interactive shell, the port of the file explorer, the log
  and host information settings, and the scripts of \<open>readScriptFile\<close>. The error of
  \<open>portForwarding\<close> has no place in it: the code assigns it to \<open>err\<close> and then either
  waits for ever or overwrites it with the error of the interactive shell.
\<close>

datatype shell_event =
    Headers
  | NewConnection
  | FileExplorer int
  | NewSession
  | StoreTempHost
  | ForwardAgent
  | StartForward net_action
  | WaitForever
  | LocalCommand string
  | LogTo string
  | LocalRcShell "string list" string
  | InteractiveShell "string list" int int bool string string

datatype shell_end = Returned "string option" | Fatal | NeverReturns

record shell_env =
  se_connectErr :: "string option"
  se_stash :: bool
  se_randPort :: int
  se_stashPort :: "int \<Rightarrow> int"
  se_sessionErr :: "string option"
  se_isNone :: bool
  se_logEnable :: bool
  se_logPath :: string
  se_hostInfoEnabled :: bool
  se_hostInfo :: string
  se_hostInfoScript :: "string outcome"
  se_processInfoScript :: "string outcome"
  se_convertKeys :: "string \<Rightarrow> string list"
  se_shellErr :: "string option"

definition web_port :: "shell_env \<Rightarrow> server_config \<Rightarrow> int" where
  "web_port env c = (if se_stash env \<and> sc_WebPort c \<le> 0 then se_randPort env else sc_WebPort c)"

text \<open>The part under the switch: the local commands around the interactive shell.\<close>

definition shell_session :: "shell_env \<Rightarrow> int \<Rightarrow> server_config \<Rightarrow> shell_event list \<times> shell_end" where
  "shell_session env webPort c =
     (let pre = (if sc_PreCmd c \<noteq> [] then [LocalCommand (sc_PreCmd c)] else [])
                @ (if se_logEnable env then [LogTo (se_logPath env)] else []);
          post = (if sc_PostCmd c \<noteq> [] then [LocalCommand (sc_PostCmd c)] else [])
      in if sc_LocalRcUse c = ''yes''
         then (pre @ LocalRcShell (sc_LocalRcPath c) (sc_LocalRcDecodeCmd c) # post, Returned (se_shellErr env))
         else case (se_hostInfoScript env, se_processInfoScript env) of
           (Done hs, Done ps) \<Rightarrow>
             (pre @ InteractiveShell (se_convertKeys env (sc_InitialCmd c)) (sc_InitialCmdSleep c) webPort
                      (se_hostInfoEnabled env \<and> se_hostInfo env = []) hs ps # post,
              Returned (se_shellErr env))
         | _ \<Rightarrow> (pre, Fatal))"

definition explorer :: "shell_env \<Rightarrow> server_config \<Rightarrow> shell_event list \<times> int" where
  "explorer env c =
     (let port = web_port env c in if port > 0 then ([FileExplorer port], se_stashPort env port) else ([], 0))"

text \<open>\<open>sshAgent\<close>: the connection gets the agent of the run and forwards it.\<close>

definition sshAgent :: "server_config \<Rightarrow> shell_event list" where
  "sshAgent c = (if sc_SSHAgentUse c then [ForwardAgent] else [])"

definition shell_setup :: "shell_env \<Rightarrow> server_config \<Rightarrow> shell_event list" where
  "shell_setup env c =
     Headers # NewConnection # fst (explorer env c) @ NewSession
     # (if sc_DirectServer c then [StoreTempHost] else []) @ sshAgent c
     @ map StartForward (portForwarding c @ dynamic_forward c)"

definition shell :: "shell_env \<Rightarrow> run_opts \<Rightarrow> server_config \<Rightarrow> shell_event list \<times> shell_end" where
  "shell env r c0 =
     (let c = overwriteBashrcConfig r (overwritePortForwardConfig r c0) in
      if se_connectErr env \<noteq> None then ([Headers, NewConnection], Returned (se_connectErr env))
      else if se_sessionErr env \<noteq> None
      then (Headers # NewConnection # fst (explorer env c) @ [NewSession], Returned (se_sessionErr env))
      else if se_isNone env then (shell_setup env c @ [WaitForever], NeverReturns)
      else (case shell_session env (snd (explorer env c)) c of
              (es, end) \<Rightarrow> (shell_setup env c @ es, end)))"

section \<open>Command mode\<close>

text \<open>
  \<open>createConnMap\<close>: \<open>connect\<close> is \<open>getServerConfig\<close> and then
  \<open>CreateSSHConnect\<close> on the run's state \<open>'s\<close>, \<open>None\<close> when one of them fails. The
  map is keyed by the ID of the configuration.
\<close>

fun conn_loop ::
  "(string \<Rightarrow> 's \<Rightarrow> (server_config \<times> 'c) option \<times> 's) \<Rightarrow> string list \<Rightarrow> 's \<Rightarrow> (string \<rightharpoonup> 'c) \<Rightarrow> (string \<rightharpoonup> 'c) \<times> 's" where
  "conn_loop connect [] st m = (m, st)"
| "conn_loop connect (server # servers) st m =
     (case connect server st of
        (None, st') \<Rightarrow> conn_loop connect servers st' m
      | (Some (cf, conn), st') \<Rightarrow> conn_loop connect servers st' (m(sc_ID cf \<mapsto> conn)))"

definition createConnMap ::
  "(string \<Rightarrow> 's \<Rightarrow> (server_config \<times> 'c) option \<times> 's) \<Rightarrow> run_opts \<Rightarrow> 's \<Rightarrow> (string \<rightharpoonup> 'c) \<times> 's" where
  "createConnMap connect r st = conn_loop connect (ro_ServerList r) st Map.empty"

text \<open>
  \<open>createWriter\<close> for one entry \<open>s\<close> of the map: the configuration of the output and the
  forwards; the key of the map is used as a server name.
\<close>

definition createWriter_conf :: "servers \<Rightarrow> run_opts \<Rightarrow> string \<Rightarrow> server_config \<times> net_action list" where
  "createWriter_conf sv r s =
     (let c = server_at sv s
      in if length (ro_ServerList r) = 1 then setupPortForwarding r c else (c, []))"

text \<open>What \<open>runCommand\<close> does on a connection, in order; a spawned command signals at its end.\<close>

datatype run_event = SpawnCommand string | SendStdin string | CloseStdin | RunCommand string | SignalFinished

definition runCommand :: "run_opts \<Rightarrow> string \<Rightarrow> string \<Rightarrow> run_event list" where
  "runCommand r command stdinData =
     (if ro_IsParallel r then [SpawnCommand command]
      else if stdinData \<noteq> [] then [SpawnCommand command, SendStdin stdinData, CloseStdin]
      else [RunCommand command, SignalFinished])"

text \<open>\<open>cmd\<close>: the command line sent, and the data read for it from a pipe.\<close>

definition cmd_line :: "run_opts \<Rightarrow> string" where
  "cmd_line r = str_join (ro_ExecCmd r) '' ''"

definition cmd_stdin :: "run_opts \<Rightarrow> bool \<Rightarrow> string \<Rightarrow> string" where
  "cmd_stdin r isStdinPipe stdin =
     (if \<not> ro_IsParallel r \<and> length (ro_ServerList r) > 1 \<and> isStdinPipe then stdin else [])"

fun start_kind :: "run_opts \<Rightarrow> string \<Rightarrow> string" where
  "start_kind r mode =
     (if ro_ExecCmd r \<noteq> [] \<and> mode = ''cmd'' then ''cmd''
      else if mode = ''shell'' then ''shell''
      else if mode = ''pshell'' then ''pshell''
      else [])"

section \<open>Facts\<close>

lemma conn_loop_collapse:
  assumes "\<forall>s \<in> set ss. \<forall>st. \<exists>cf conn st'. connect s st = (Some (cf, conn), st') \<and> sc_ID cf = i"
    and "ss \<noteq> []"
  shows "\<exists>conn st'. conn_loop connect ss st m = (m(i \<mapsto> conn), st')"
  using assms
proof (induction ss arbitrary: st m)
  case (Cons s ss)
  then obtain cf conn st' where c: "connect s st = (Some (cf, conn), st')" "sc_ID cf = i" by fastforce
  show ?case
  proof (cases "ss = []")
    case False
    have "\<forall>s \<in> set ss. \<forall>st. \<exists>cf conn st'. connect s st = (Some (cf, conn), st') \<and> sc_ID cf = i"
      using Cons.prems(1) by simp
    then obtain conn' st'' where "conn_loop connect ss st' (m(i \<mapsto> conn)) = (m(i \<mapsto> conn, i \<mapsto> conn'), st'')"
      using Cons.IH False by blast
    then show ?thesis using c by (simp del: fun_upd_apply) blast
  next
    case True
    then have "conn_loop connect (s # ss) st m = (m(i \<mapsto> conn), st')" using c by (simp del: fun_upd_apply)
    then show ?thesis by blast
  qed
qed simp

section \<open>Properties\<close>

text \<open>In command mode, servers that share an ID (all hosts of a template) collapse to one: the
  map of connections has a single entry, so the command runs on one host only however many were
  selected.\<close>

theorem same_id_runs_once:
  assumes "ro_ServerList r \<noteq> []"
    and "\<forall>s \<in> set (ro_ServerList r). \<forall>st. \<exists>cf conn st'. connect s st = (Some (cf, conn), st') \<and> sc_ID cf = i"
  shows "dom (fst (createConnMap connect r st)) = {i}"
proof -
  obtain conn st' where "conn_loop connect (ro_ServerList r) st Map.empty = ([i \<mapsto> conn], st')"
    using conn_loop_collapse [OF assms(2,1)] by blast
  then show ?thesis by (simp add: createConnMap_def)
qed

definition demo_opts :: run_opts where
  "demo_opts = \<lparr>ro_ServerList = [''web1'', ''web2''], ro_PortForwardMode = [], ro_PortForwardLocal = [],
     ro_PortForwardRemote = [], ro_DynamicPortForward = [], ro_IsBashrc = False, ro_IsNotBashrc = False,
     ro_IsParallel = False, ro_IsTerm = False, ro_ExecCmd = [''date'']\<rparr>"

lemma same_id_runs_once_witness:
  "dom (fst (createConnMap (\<lambda>s st. (Some (zero_server\<lparr>sc_ID := ''web''\<rparr>, s), st)) demo_opts ())) = {''web''}"
  by (rule same_id_runs_once) (simp_all add: demo_opts_def)

text \<open>mode on one server opens a local forward even when none is configured: it calls
  \<open>TCPLocalForward\<close> with two empty addresses (which listens on a free port of every
  interface), where shell mode starts nothing.\<close>

theorem command_mode_always_forwards:
  assumes "ro_ServerList r = [s]" and "sv s = Some c" and "sc_PortForwardMode c = []"
    and "sc_PortForwardLocal c = []" and "sc_PortForwardRemote c = []" and "sc_DynamicPortForward c = []"
    and "ro_PortForwardMode r = []" and "ro_PortForwardLocal r = []" and "ro_DynamicPortForward r = []"
  shows "snd (createWriter_conf sv r s) = [TCPLocalForward [] []] \<and> shell_forwards r c = []"
  using assms
  by (auto simp: createWriter_conf_def setupPortForwarding_def overwrite_mode_def overwrite_addrs_def
      mode_forward_def dynamic_forward_def shell_forwards_def overwritePortForwardConfig_def
      overwriteBashrcConfig_def portForwarding_def Let_def)

lemma command_mode_always_forwards_witness:
  "snd (createWriter_conf [''web'' \<mapsto> zero_server] (demo_opts\<lparr>ro_ServerList := [''web'']\<rparr>) ''web'') = [TCPLocalForward [] []]"
  by (rule conjunct1 [OF command_mode_always_forwards [where c = zero_server]]) (simp_all add: demo_opts_def)

text \<open>The script sent to the remote shell is one line without a final semicolon run: no line end
  is left in it, whatever the file holds.\<close>

theorem readScriptFile_one_line:
  "readScriptFile readFile confPath scriptFile dflt = Done s \<Longrightarrow> CHR 0x0A \<notin> set s \<and> CHR 0x0D \<notin> set s"
  by (auto simp: readScriptFile_def obind_Done_iff is_eol_def)

lemma readScriptFile_one_line_witness:
  "\<exists>s. readScriptFile (\<lambda>_. None) [] [] ''uname;'' = Done s \<and> s = ''uname'' \<and> CHR 0x0A \<notin> set s"
proof -
  have "readScriptFile (\<lambda>_. None) [] [] ''uname;'' = Done ''uname''"
    by (simp add: readScriptFile_def trim_space_ascii ascii_def space_char_def trim_right_semicolons_def is_eol_def)
  then show ?thesis using readScriptFile_one_line by blast
qed

definition demo_shell :: shell_env where
  "demo_shell = \<lparr>se_connectErr = None, se_stash = False, se_randPort = 8333, se_stashPort = id,
     se_sessionErr = None, se_isNone = True, se_logEnable = False,
     se_logPath = [], se_hostInfoEnabled = False, se_hostInfo = [], se_hostInfoScript = Done [],
     se_processInfoScript = Done [], se_convertKeys = (\<lambda>_. []), se_shellErr = None\<rparr>"

text \<open>C36 The local commands are paired and bracket the session: whenever the shell ran and came
  back, the command before it is the first event of the session and the command after it the last
  one, and without a connection or a session neither is run.\<close>

theorem local_commands_bracket_session:
  assumes "shell env r c = (es, Returned e)" and "sc_PreCmd c \<noteq> []" and "sc_PostCmd c \<noteq> []"
  shows "if se_connectErr env = None \<and> se_sessionErr env = None
    then (\<exists>start mid. es = start @ [LocalCommand (sc_PreCmd c)] @ mid @ [LocalCommand (sc_PostCmd c)]
            \<and> (\<forall>x. LocalCommand x \<notin> set (start @ mid)))
    else (\<forall>x. LocalCommand x \<notin> set es)"
proof -
  let ?c = "overwriteBashrcConfig r (overwritePortForwardConfig r c)"
  have pp: "sc_PreCmd ?c = sc_PreCmd c" "sc_PostCmd ?c = sc_PostCmd c"
    by (simp_all add: overwriteBashrcConfig_def overwritePortForwardConfig_def overwrite_mode_def
        overwrite_addrs_def Let_def)
  have session: "\<exists>mid. fst (shell_session env w ?c) = [LocalCommand (sc_PreCmd c)] @ mid @ [LocalCommand (sc_PostCmd c)]
      \<and> (\<forall>x. LocalCommand x \<notin> set mid)" if "snd (shell_session env w ?c) = Returned e" for w
    using that assms(2,3) pp by (auto simp: shell_session_def Let_def split: outcome.splits if_splits)
  have quiet: "LocalCommand x \<notin> set (shell_setup env c')" "LocalCommand x \<notin> set (fst (explorer env c'))" for x c'
    by (auto simp: shell_setup_def sshAgent_def explorer_def Let_def)
  show ?thesis
  proof (cases "se_connectErr env = None \<and> se_sessionErr env = None")
    case True
    let ?w = "snd (explorer env ?c)"
    have "es = shell_setup env ?c @ fst (shell_session env ?w ?c) \<and> snd (shell_session env ?w ?c) = Returned e"
      using assms(1) True by (auto simp: shell_def Let_def split: prod.splits if_splits)
    then show ?thesis using session [of ?w] True quiet(1) [of _ ?c] by auto
  next
    case False
    then show ?thesis using assms(1) quiet(2) by (auto simp: shell_def Let_def split: if_splits)
  qed
qed

lemma local_commands_bracket_session_witness:
  "\<exists>start mid. [Headers, NewConnection, NewSession, LocalCommand ''mount'',
       InteractiveShell [] 0 0 False [] [], LocalCommand ''umount'']
     = start @ [LocalCommand ''mount''] @ mid @ [LocalCommand ''umount'']
     \<and> LocalCommand ''x'' \<notin> set (start @ mid)"
proof -
  let ?c = "zero_server\<lparr>sc_PreCmd := ''mount'', sc_PostCmd := ''umount''\<rparr>"
  have "shell (demo_shell\<lparr>se_isNone := False\<rparr>) demo_opts ?c
    = ([Headers, NewConnection, NewSession, LocalCommand ''mount'',
        InteractiveShell [] 0 0 False [] [], LocalCommand ''umount''], Returned None)"
    by (simp add: shell_def shell_setup_def sshAgent_def explorer_def shell_session_def demo_shell_def demo_opts_def web_port_def overwriteBashrcConfig_def
        overwritePortForwardConfig_def overwrite_mode_def overwrite_addrs_def portForwarding_def
        dynamic_forward_def Let_def)
  from local_commands_bracket_session [OF this] show ?thesis
    by (simp add: demo_shell_def) blast
qed

end
