(* ===== verification/Output.thy ===== *)
theory Output
  imports Conf_Types
begin

text \<open>
  src/output/output.go: the prompt in front of every line of command and shell mode, the printer
  that splits the output of a host into lines, the colours, and the broadcast of the standard input
  to the sessions. A pipe is the text written to it; a writer is the text it has received.
\<close>

section \<open>The prompt\<close>

record out_conf =
  o_Templete :: string
  o_Prompt :: string
  o_Server :: string
  o_Count :: int
  o_ServerList :: "string list"
  o_Conf :: server_config
  o_EnableHeader :: bool
  o_DisableHeader :: bool
  o_AutoColor :: bool

definition rune_count :: "string \<Rightarrow> nat" where
  "rune_count s = length (runes s)"

text \<open>\<open>fmt.Sprintf("%-*s", w, s)\<close> counts runes; a negative width is the same as its
  absolute value.\<close>

definition pad_right :: "int \<Rightarrow> string \<Rightarrow> string" where
  "pad_right w s = s @ replicate (nat \<bar>w\<bar> - rune_count s) CHR '' ''"

definition escape :: char where
  "escape = CHR 0x1B"

definition OutColorStrings :: "nat \<Rightarrow> string \<Rightarrow> string" where
  "OutColorStrings num inStrings =
     [escape] @ ''['' @ format_uint (31 + num mod 5) @ ''m'' @ inStrings @ [escape] @ ''[0m''"

text \<open>The text that replaces \<open>${SERVER}\<close>.\<close>

definition server_field :: "string list \<Rightarrow> string \<Rightarrow> string" where
  "server_field list server =
     (let len = GetMaxLength list;
          addL = int len - int (length server);
          colorServerName = OutColorStrings (GetOrderNumber server list) server
      in pad_right (int (length colorServerName) + addL) colorServerName)"

definition Create :: "string \<Rightarrow> out_conf \<Rightarrow> out_conf" where
  "Create server ot =
     (let p1 = replace_all (o_Templete ot) ''${SERVER}'' (server_field (o_ServerList ot) server);
          p2 = replace_all p1 ''${ADDR}'' (sc_Addr (o_Conf ot));
          p3 = replace_all p2 ''${USER}'' (sc_User (o_Conf ot));
          p4 = replace_all p3 ''${PORT}'' (sc_Port (o_Conf ot))
      in ot\<lparr>o_Server := server, o_Prompt := p4\<rparr>)"

definition GetPrompt :: "out_conf \<Rightarrow> string" where
  "GetPrompt ot = replace_all (o_Prompt ot) ''${COUNT}'' (itoa (o_Count ot))"

section \<open>The printer\<close>

text \<open>
  The texts \<open>sc.Scan\<close> gives over all rounds of the outer loop, for a scanner whose buffer
  holds \<open>limit\<close> bytes (64 KB): a line that does not fit stops the scanner; the next call
  gives what is in the buffer, and nothing comes after.
\<close>

definition drop_cr :: "string \<Rightarrow> string" where
  "drop_cr l = trim_suffix l [CHR 0x0D]"

function scan_tokens :: "nat \<Rightarrow> string \<Rightarrow> string list" where
  "scan_tokens limit s =
     (if s = [] then []
      else let l = takeWhile (\<lambda>c. c \<noteq> newline) s
           in if limit \<le> length l then [drop_cr (take limit s)]
              else drop_cr l # scan_tokens limit (drop (Suc (length l)) s))"
  by pat_completeness auto
termination
  by (relation "measure (length \<circ> snd)") auto

declare scan_tokens.simps [simp del]

definition with_header :: "out_conf \<Rightarrow> bool" where
  "with_header ot \<longleftrightarrow> length (o_ServerList ot) > 1 \<and> \<not> o_DisableHeader ot \<or> o_EnableHeader ot"

text \<open>What \<open>Printer\<close> prints for the text of its pipe. It returns only when the reading end
  was closed (\<open>io.ErrClosedPipe\<close>): after the end of the text it polls for ever.\<close>

definition Printer :: "nat \<Rightarrow> out_conf \<Rightarrow> string \<Rightarrow> string list" where
  "Printer limit ot input =
     map (\<lambda>text. if with_header ot then GetPrompt ot @ '' '' @ text @ [newline] else text @ [newline])
       (scan_tokens limit input)"

datatype read_end = NoErr | ClosedOrEOF | OtherErr

definition printer_returns :: "read_end \<Rightarrow> bool \<Rightarrow> bool" where
  "printer_returns e closedPipe \<longleftrightarrow> e \<noteq> NoErr \<and> closedPipe"

section \<open>The broadcast of the input\<close>

text \<open>
  \<open>PushPipeWriter\<close>: each read gives data, its error and whether \<open>isExit\<close> is ready in
  the \<open>select\<close>. The result is the texts of the writers and whether they were closed;
  the reads run out while the loop still waits.
\<close>

type_synonym read = "string \<times> read_end \<times> bool"

fun PushPipeWriter :: "read list \<Rightarrow> string list \<Rightarrow> string list \<times> bool" where
  "PushPipeWriter [] out = (out, False)"
| "PushPipeWriter ((d, err, exit) # rs) out =
     (let out' = (if d \<noteq> [] then map (\<lambda>w. w @ d) out else out) in
      case err of
        NoErr \<Rightarrow> PushPipeWriter rs out'
      | ClosedOrEOF \<Rightarrow> (out', True)
      | OtherErr \<Rightarrow> if exit then (out', True) else PushPipeWriter rs out')"

text \<open>\<open>PushInput\<close>: the data up to a newline (empty at the end of the input) and whether
  \<open>isExit\<close> is ready; only that ends the loop.\<close>

fun PushInput :: "(string \<times> bool) list \<Rightarrow> string list \<Rightarrow> string list \<times> bool" where
  "PushInput [] out = (out, False)"
| "PushInput ((data, exit) # rs) out =
     (let out' = (if data \<noteq> [] then map (\<lambda>w. w @ data) out else out)
      in if exit then (out', True) else PushInput rs out')"

section \<open>Facts\<close>

lemma decode_rune_le: "s \<noteq> [] \<Longrightarrow> snd (decode_rune s) \<le> length s"
proof -
  assume "s \<noteq> []"
  obtain bs where bs: "map byte (take 4 s) = bs" by blast
  have "length (map byte (take 4 s)) \<le> length s" by simp
  then have len: "length bs \<le> length s" unfolding bs .
  have "bs \<noteq> []" using bs \<open>s \<noteq> []\<close> by auto
  then consider b0 where "bs = [b0]" | b0 b1 where "bs = [b0, b1]" | b0 b1 b2 where "bs = [b0, b1, b2]"
    | b0 b1 b2 b3 r where "bs = b0 # b1 # b2 # b3 # r"
    by (cases bs; cases "tl bs"; cases "tl (tl bs)"; cases "tl (tl (tl bs))") auto
  then show ?thesis using len unfolding decode_rune_def bs by cases (simp_all split: if_split)
qed

lemma decode_rune_before_ascii:
  assumes "\<not> digit7 a"
  shows "decode_rune ((c # cs) @ a # t) = decode_rune (c # cs)"
proof -
  have a: "byte a < 128" using assms byte_ascii by simp
  consider "cs = []" | b1 where "cs = [b1]" | b1 b2 where "cs = [b1, b2]" | b1 b2 b3 r where "cs = b1 # b2 # b3 # r"
    by (cases cs; cases "tl cs"; cases "tl (tl cs)") auto
  then show ?thesis
    using a by cases (auto simp: decode_rune_def is_cont_def split: list.splits)
qed

lemma runes_before_ascii: "\<not> digit7 a \<Longrightarrow> runes (s @ a # t) = runes s @ runes (a # t)"
proof (induction s rule: runes.induct)
  case (2 c cs)
  obtain r w where rw: "decode_rune (c # cs) = (r, w)" by force
  have w: "1 \<le> w" "w \<le> Suc (length cs)"
    using decode_rune_width [OF refl, of c cs] decode_rune_le [of "c # cs"] rw by simp_all
  have d: "decode_rune (c # (cs @ a # t)) = (r, w)"
    using decode_rune_before_ascii [OF 2(2), of c cs t] rw by simp
  have "runes (c # (cs @ a # t)) = (r, take w (c # cs)) # runes (drop (w - 1) cs @ a # t)"
    using d w by (cases w) (simp_all add: runes.simps(2))
  also have "\<dots> = (r, take w (c # cs)) # runes (drop (w - 1) cs) @ runes (a # t)"
    using 2 rw by simp
  finally show ?case using rw by (simp add: runes.simps(2))
qed simp

lemma runes_ascii_Cons: "\<not> digit7 a \<Longrightarrow> runes (a # t) = (byte a, [a]) # runes t"
  by (simp add: runes.simps(2) decode_rune_def byte_ascii)

lemma rune_count_between:
  assumes "ascii p" and "ascii q"
  shows "rune_count (p @ s @ q) = length p + rune_count s + length q"
proof -
  have "rune_count (p @ x) = length p + rune_count x" for x
    using assms(1) by (induction p) (simp_all add: ascii_def rune_count_def runes_ascii_Cons)
  moreover have "rune_count (s @ q) = rune_count s + length q"
  proof (cases q)
    case (Cons a t)
    then have "\<not> digit7 a" using assms(2) by (simp add: ascii_def)
    then have "rune_count (s @ q) = rune_count s + rune_count q"
      using Cons runes_before_ascii by (simp add: rune_count_def)
    then show ?thesis using runes_ascii [OF assms(2)] by (simp add: rune_count_def)
  qed simp
  ultimately show ?thesis by simp
qed

lemma rune_count_le: "rune_count s \<le> length s"
  unfolding rune_count_def
proof (induction s rule: runes.induct)
  case (2 c cs)
  obtain r w where "decode_rune (c # cs) = (r, w)" by force
  with 2 show ?case by (force simp: runes.simps(2))
qed simp

lemma max_loop_ge: "m \<le> max_loop m es \<and> (\<forall>e \<in> set es. length e \<le> max_loop m es)"
proof (induction es arbitrary: m)
  case (Cons e es)
  from Cons.IH [of "if m < length e then length e else m"] show ?case by (auto split: if_splits)
qed simp

lemma GetMaxLength_ge: "e \<in> set es \<Longrightarrow> length e \<le> GetMaxLength es"
  using max_loop_ge by (simp add: GetMaxLength_def)

lemma color_digits: "n < 5 \<Longrightarrow> length (format_uint (31 + n)) = 2 \<and> ascii (format_uint (31 + n))"
proof -
  assume "n < 5"
  then have "n = 0 \<or> n = 1 \<or> n = 2 \<or> n = 3 \<or> n = 4" by linarith
  then show ?thesis by (elim disjE; hypsubst) code_simp+
qed

lemma color_around:
  obtains p where "OutColorStrings n s = p @ s @ [escape] @ ''[0m''" and "ascii p" and "length p = 5"
proof
  show "OutColorStrings n s = ([escape] @ ''['' @ format_uint (31 + n mod 5) @ ''m'') @ s @ [escape] @ ''[0m''"
    by (simp add: OutColorStrings_def)
  show "ascii ([escape] @ ''['' @ format_uint (31 + n mod 5) @ ''m'')"
    using color_digits [of "n mod 5"] by (simp add: ascii_def escape_def)
  show "length ([escape] @ ''['' @ format_uint (31 + n mod 5) @ ''m'') = 5"
    using color_digits [of "n mod 5"] by simp
qed

lemma color_counts:
  "rune_count (OutColorStrings n s) = rune_count s + 9"
  "length (OutColorStrings n s) = length s + 9"
proof -
  obtain p where p: "OutColorStrings n s = p @ s @ [escape] @ ''[0m''" "ascii p" "length p = 5"
    by (rule color_around)
  have "ascii ([escape] @ ''[0m'')" by (simp add: ascii_def escape_def)
  from rune_count_between [OF p(2) this, of s] p
  show "rune_count (OutColorStrings n s) = rune_count s + 9" by simp
  from p show "length (OutColorStrings n s) = length s + 9" by simp
qed

lemma rune_count_pad: "rune_count (pad_right w s) = max (nat \<bar>w\<bar>) (rune_count s)"
proof -
  have "ascii (replicate k CHR '' '')" for k by (simp add: ascii_def list_all_iff)
  from rune_count_between [OF _ this, of "[]" s] show ?thesis
    by (simp add: pad_right_def ascii_def)
qed

lemma takeWhile_line: "newline \<notin> set l \<Longrightarrow> takeWhile (\<lambda>c. c \<noteq> newline) (l @ newline # rest) = l"
  by (induction l) auto

lemma takeWhile_all_line: "newline \<notin> set l \<Longrightarrow> takeWhile (\<lambda>c. c \<noteq> newline) l = l"
  by (induction l) auto

lemma scan_tokens_line:
  assumes "newline \<notin> set l" and "length l < limit"
  shows "scan_tokens limit (l @ newline # rest) = drop_cr l # scan_tokens limit rest"
  using assms by (subst scan_tokens.simps) (simp add: takeWhile_line Let_def)

lemma scan_tokens_last:
  assumes "newline \<notin> set l" and "length l < limit"
  shows "scan_tokens limit l = (if l = [] then [] else [drop_cr l])"
  using assms by (subst scan_tokens.simps) (simp add: Let_def takeWhile_all_line scan_tokens.simps [of limit "[]"])

lemma scan_tokens_lines:
  assumes "\<forall>l \<in> set (split_on newline s). length l < limit"
  shows "scan_tokens limit s = scan_lines s"
  using assms
proof (induction "count_byte s newline" arbitrary: s)
  case 0
  then have n: "newline \<notin> set s" by (auto simp: count_byte_def filter_empty_conv)
  then show ?case
    using 0 scan_tokens_last [of s limit] by (simp add: split_on_absent scan_lines_def drop_cr_def)
next
  case (Suc k)
  then have "filter (\<lambda>x. x = newline) s \<noteq> []" by (auto simp: count_byte_def)
  then have "newline \<in> set s" by (auto simp: filter_empty_conv)
  then obtain l rest where s: "s = l @ newline # rest" "newline \<notin> set l"
    using split_list_first by fastforce
  have sp: "split_on newline s = l # split_on newline rest" using s by (simp add: split_on_append)
  have "filter (\<lambda>x. x = newline) l = []" using s(2) by (auto simp: filter_empty_conv)
  then have "k = count_byte rest newline" using Suc(2) s by (simp add: count_byte_def)
  then have "scan_tokens limit rest = scan_lines rest" using Suc sp by simp
  then show ?case
    using scan_tokens_line [OF s(2), of limit rest] Suc.prems sp s(1)
    by (simp add: scan_lines_def drop_cr_def Let_def)
qed

lemma PushPipeWriter_writers:
  "\<exists>n \<le> length rs. fst (PushPipeWriter rs out) = map (\<lambda>w. w @ concat (map fst (take n rs))) out
     \<and> (snd (PushPipeWriter rs out) \<or> n = length rs)"
proof (induction rs out rule: PushPipeWriter.induct)
  case (2 d err exit rs out)
  let ?out = "if d \<noteq> [] then map (\<lambda>w. w @ d) out else out"
  have out: "?out = map (\<lambda>w. w @ d) out" by simp
  show ?case
  proof (cases "err = ClosedOrEOF \<or> (err = OtherErr \<and> exit)")
    case True
    then have "PushPipeWriter ((d, err, exit) # rs) out = (map (\<lambda>w. w @ d) out, True)" by auto
    then show ?thesis by (intro exI [of _ 1]) simp
  next
    case False
    then have step: "PushPipeWriter ((d, err, exit) # rs) out = PushPipeWriter rs (map (\<lambda>w. w @ d) out)"
      by (cases err) auto
    from False 2 obtain n where n: "n \<le> length rs"
      "fst (PushPipeWriter rs (map (\<lambda>w. w @ d) out)) = map (\<lambda>w. w @ concat (map fst (take n rs))) (map (\<lambda>w. w @ d) out)"
      "snd (PushPipeWriter rs (map (\<lambda>w. w @ d) out)) \<or> n = length rs"
      unfolding out by (cases err) metis+
    then show ?thesis
      unfolding step by (intro exI [of _ "Suc n"]) simp
  qed
qed simp

section \<open>Properties\<close>

text \<open>The prompts of the selected servers line up: the coloured and padded name has the same
  number of runes for every server of the list, also when names are not ASCII (the padding is
  computed from bytes, but both the width and the difference use the same byte length).\<close>

theorem prompts_aligned:
  assumes "s \<in> set servers"
  shows "rune_count (server_field servers s) = GetMaxLength servers + 9"
  using GetMaxLength_ge [OF assms] rune_count_le [of s]
  by (simp add: server_field_def Let_def rune_count_pad color_counts)

lemma prompts_aligned_witness:
  "rune_count (server_field [''web1'', ''database''] ''web1'') = GetMaxLength [''web1'', ''database''] + 9"
  by (rule prompts_aligned) simp

text \<open>The printer prints the lines of the pipe, each behind the prompt when more than one server
  is selected, as long as every line fits the buffer of the scanner.\<close>

theorem Printer_prints_lines:
  assumes "\<forall>l \<in> set (split_on newline input). length l < limit"
  shows "Printer limit ot input
    = map (\<lambda>l. (if with_header ot then GetPrompt ot @ '' '' else []) @ l @ [newline]) (scan_lines input)"
  using scan_tokens_lines [OF assms] by (simp add: Printer_def)

definition demo_out :: out_conf where
  "demo_out = \<lparr>o_Templete = [], o_Prompt = ''web :: '', o_Server = ''web'', o_Count = 0, o_ServerList = [''web''],
     o_Conf = zero_server, o_EnableHeader = False, o_DisableHeader = False, o_AutoColor = True\<rparr>"

lemma Printer_prints_lines_witness:
  "Printer 8 demo_out (''ab'' @ [newline] @ ''c'')
    = [''ab'' @ [newline], ''c'' @ [newline]]"
proof -
  have "Printer 8 demo_out (''ab'' @ [newline] @ ''c'')
    = map (\<lambda>l. [] @ l @ [newline]) (scan_lines (''ab'' @ [newline] @ ''c''))"
    using Printer_prints_lines [of "''ab'' @ [newline] @ ''c''" 8 demo_out]
    by (simp add: newline_def with_header_def demo_out_def)
  then show ?thesis by (simp add: scan_lines_def newline_def trim_suffix_def suffix_def)
qed

text \<open>A line that does not fit the buffer is cut, and everything the host prints after it is
  lost.\<close>

theorem Printer_stops_at_long_line:
  assumes "newline \<notin> set l" and "limit \<le> length l"
  shows "Printer limit ot (l @ newline # rest)
    = [(if with_header ot then GetPrompt ot @ '' '' else []) @ drop_cr (take limit l) @ [newline]]"
proof -
  have "scan_tokens limit (l @ newline # rest) = [drop_cr (take limit l)]"
    using assms by (subst scan_tokens.simps) (simp add: takeWhile_line Let_def)
  then show ?thesis by (simp add: Printer_def)
qed

lemma Printer_stops_at_long_line_witness:
  "Printer 3 demo_out (''abcd'' @ newline # ''next'') = [drop_cr ''abc'' @ [newline]]"
  using Printer_stops_at_long_line [of "''abcd''" 3 demo_out "''next''"]
  by (simp add: newline_def with_header_def demo_out_def)

text \<open>Every session gets the same input: each writer receives exactly the data read, in order,
  up to the end of the loop.\<close>

theorem PushPipeWriter_broadcasts:
  "\<exists>n \<le> length rs. fst (PushPipeWriter rs out) = map (\<lambda>w. w @ concat (map fst (take n rs))) out
     \<and> (snd (PushPipeWriter rs out) \<or> n = length rs)"
  by (rule PushPipeWriter_writers)

end
