(* ===== verification/Sshlib_Net.thy ===== *)
theory Sshlib_Net
  imports Common
begin

text \<open>
  src/sshlib: addresses and chains of bridges (brg.go), the X11 display and its authority file, the
  accept loops of the forwards (forward.go), and the kind of dialer of a proxy (proxy.go). Sockets
  are lists of outcomes; the SHA-1 port of a bridge name and \<open>ss.AnyOf\<close> are arguments.
\<close>

section \<open>Host and port (net)\<close>

text \<open>\<open>net.SplitHostPort\<close>; \<open>None\<close> is any of its errors.\<close>

definition split_host_port :: "string \<Rightarrow> (string \<times> string) option" where
  "split_host_port hp =
     (case str_last_index '':'' hp of
        None \<Rightarrow> None
      | Some i \<Rightarrow>
          if take 1 hp = ''[''
          then (case str_index '']'' hp of
                  None \<Rightarrow> None
                | Some e \<Rightarrow>
                    if e + 1 = i \<and> CHR ''['' \<notin> set (drop 1 hp) \<and> CHR '']'' \<notin> set (drop (e + 1) hp)
                    then Some (drop 1 (take e hp), drop (i + 1) hp) else None)
          else if CHR '':'' \<in> set (take i hp) \<or> CHR ''['' \<in> set hp \<or> CHR '']'' \<in> set hp then None
          else Some (take i hp, drop (i + 1) hp))"

definition join_host_port :: "string \<Rightarrow> string \<Rightarrow> string" where
  "join_host_port host port =
     (if CHR '':'' \<in> set host then ''['' @ host @ '']:'' @ port else host @ '':'' @ port)"

section \<open>Bridges (brg.go)\<close>

definition is_letter :: "char \<Rightarrow> bool" where
  "is_letter c \<longleftrightarrow> (97 \<le> byte c \<and> byte c \<le> 122) \<or> (65 \<le> byte c \<and> byte c \<le> 90)"

text \<open>\<open>parseHashedPort\<close>: the first two bytes of the hash of the name, which has twenty.\<close>

fun parseHashedPort :: "(string \<Rightarrow> string) \<Rightarrow> string \<Rightarrow> nat" where
  "parseHashedPort sha1 port = (case sha1 port of a # b # _ \<Rightarrow> 256 * byte a + byte b | _ \<Rightarrow> 0)"

text \<open>One part of the list: a digit, or host and port with a name for the port; \<open>hash\<close> is
  \<open>parseHashedPort\<close>.\<close>

definition brg_part :: "(string \<Rightarrow> nat) \<Rightarrow> string \<Rightarrow> string outcome" where
  "brg_part hash part =
     (case (if length part = 1 then atoi part else None) of
        Some p \<Rightarrow>
          if 1 \<le> p \<and> p \<le> 9 then Done (''127.0.0.1:'' @ itoa (1000 + p - 1)) else Panic
      | None \<Rightarrow>
          (case split_host_port part of
             None \<Rightarrow> Panic
           | Some (host, port) \<Rightarrow>
               (case port of
                  [] \<Rightarrow> Panic
                | l # _ \<Rightarrow>
                    Done ((if host = [] then ''127.0.0.1'' else host) @ '':''
                      @ (if is_letter l then format_uint (hash port) else port)))))"

fun brg_loop :: "(string \<Rightarrow> nat) \<Rightarrow> string list \<Rightarrow> string list \<Rightarrow> string list outcome" where
  "brg_loop hash [] proxies = Done proxies"
| "brg_loop hash (part # parts) proxies =
     obind (brg_part hash part) (\<lambda>p. brg_loop hash parts (proxies @ [p]))"

definition createBrgProxies :: "(string \<Rightarrow> nat) \<Rightarrow> string \<Rightarrow> string list outcome" where
  "createBrgProxies hash brgEnv = brg_loop hash (split_on CHR '','' brgEnv) []"

text \<open>The lines \<open>TARGET\<close> written to the first bridge and the address that is dialled;
  \<open>brg\<close> and \<open>brgTargets\<close> are the package variables, \<open>proxyName\<close> is
  \<open>$BRG_PROXY\<close>.\<close>

definition target_line :: "string \<Rightarrow> string \<Rightarrow> string" where
  "target_line proxy uri = ''TARGET '' @ uri @ proxy @ '';''"

definition CreateTargetInfo ::
  "(string \<Rightarrow> string list \<Rightarrow> bool) \<Rightarrow> (string \<Rightarrow> nat) \<Rightarrow> string \<Rightarrow> string list \<Rightarrow> (string \<rightharpoonup> string)
   \<Rightarrow> string \<Rightarrow> string \<Rightarrow> (string list \<times> string) outcome" where
  "CreateTargetInfo anyOf hash proxyName brg brgTargets uri confBrg =
     (let host = (case split_host_port uri of Some (h, p) \<Rightarrow> h | None \<Rightarrow> []) in
      if anyOf host [''127.0.0.1'', ''localhost''] then Done ([], uri)
      else
        let proxy = (if proxyName \<noteq> [] then '' proxy='' @ proxyName else []) in
        obind (if confBrg = ''0'' then Done [] else if confBrg \<noteq> [] then createBrgProxies hash confBrg else Done brg)
          (\<lambda>localBrg.
            case localBrg of
              b # bs \<Rightarrow> Done (map (target_line proxy) bs @ [target_line proxy uri], b)
            | [] \<Rightarrow>
                (case brgTargets uri of
                   None \<Rightarrow> Done ([], uri)
                 | Some addr \<Rightarrow>
                     Done ([target_line proxy uri],
                       if has_prefix addr '':'' then ''127.0.0.1'' @ addr else addr))))"

text \<open>\<open>FindPort\<close>: the first port from the start that answers.\<close>

function FindPort :: "(int \<Rightarrow> bool) \<Rightarrow> int \<Rightarrow> int" where
  "FindPort dial p = (if p < 65535 then if dial p then p else FindPort dial (p + 1) else -1)"
  by pat_completeness auto
termination
  by (relation "measure (\<lambda>(dial, p). nat (65535 - p))") auto

declare FindPort.simps [simp del]

section \<open>X11 (forward.go)\<close>

definition getX11Display :: "string \<Rightarrow> string outcome" where
  "getX11Display display =
     (let colonIdx = go_pos (str_last_index '':'' display);
          dotIdx = go_pos (str_last_index ''.'' display)
      in if colonIdx < 0 then Done ''0''
         else go_slice display (colonIdx + 1) (if dotIdx < 0 then int (length display) else dotIdx))"

text \<open>The socket \<open>x11Connect\<close> dials.\<close>

definition x11Connect :: "string \<Rightarrow> string outcome" where
  "x11Connect display =
     obind (go_index display 0) (\<lambda>c.
       if c = CHR ''/'' then Done display
       else obind (getX11Display display) (\<lambda>d. Done (''/tmp/.X11-unix/X'' @ d)))"

datatype read_err = EOF | UnexpectedEOF | TooLong

text \<open>\<open>io.ReadFull\<close> and the read of a 16 bit number.\<close>

definition read_full :: "nat \<Rightarrow> string \<Rightarrow> read_err + (string \<times> string)" where
  "read_full n r =
     (if n \<le> length r then Inr (take n r, drop n r) else if r = [] then Inl EOF else Inl UnexpectedEOF)"

definition read_u16 :: "string \<Rightarrow> read_err + (nat \<times> string)" where
  "read_u16 r =
     (case read_full 2 r of
        Inl e \<Rightarrow> Inl e
      | Inr (b, r') \<Rightarrow> Inr (byte (b ! 0) * 256 + byte (b ! 1), r'))"

definition getBytes :: "string \<Rightarrow> read_err + (string \<times> string)" where
  "getBytes r =
     (case read_u16 r of
        Inl e \<Rightarrow> Inl e
      | Inr (n, r') \<Rightarrow> if n > 256 then Inl TooLong else read_full n r')"

definition getStrings4 :: "string \<Rightarrow> read_err + ((string \<times> string \<times> string \<times> string) \<times> string)" where
  "getStrings4 r =
     (case getBytes r of Inl e \<Rightarrow> Inl e | Inr (addr, r1) \<Rightarrow>
     (case getBytes r1 of Inl e \<Rightarrow> Inl e | Inr (disp, r2) \<Rightarrow>
     (case getBytes r2 of Inl e \<Rightarrow> Inl e | Inr (name, r3) \<Rightarrow>
     (case getBytes r3 of Inl e \<Rightarrow> Inl e | Inr (data, r4) \<Rightarrow> Inr ((addr, disp, name, data), r4)))))"

lemma read_full_shorter: "read_full n r = Inr (x, r') \<Longrightarrow> length r' \<le> length r"
  by (auto simp: read_full_def split: if_splits)

lemma read_u16_shorter: "read_u16 r = Inr (n, r') \<Longrightarrow> length r' < length r"
  by (auto simp: read_u16_def read_full_def split: if_splits)

lemma getBytes_shorter: "getBytes r = Inr (x, r') \<Longrightarrow> length r' < length r"
  by (auto simp: getBytes_def dest!: read_u16_shorter read_full_shorter split: sum.splits if_splits)

lemma getStrings4_shorter: "getStrings4 r = Inr (x, r') \<Longrightarrow> length r' < length r"
  by (auto simp: getStrings4_def dest!: getBytes_shorter split: sum.splits)

text \<open>The loop of \<open>readAuthority\<close> over the file; 256 is the family of local entries.\<close>

function readAuthority :: "string \<Rightarrow> string \<Rightarrow> string \<Rightarrow> read_err + (string \<times> string)" where
  "readAuthority hostname display r =
     (case read_u16 r of
        Inl e \<Rightarrow> Inl e
      | Inr (family, r1) \<Rightarrow>
          (case getStrings4 r1 of
             Inl e \<Rightarrow> Inl e
           | Inr ((addr, disp, name, data), r2) \<Rightarrow>
               if family = 256 \<and> addr = hostname \<and> disp = display then Inr (name, data)
               else readAuthority hostname display r2))"
  by pat_completeness auto
termination
  by (relation "measure (\<lambda>(h, d, r). length r)") (auto dest!: read_u16_shorter getStrings4_shorter)

declare readAuthority.simps [simp del]

text \<open>The error and cookie \<open>X11Forward\<close> goes on with.\<close>

definition hex_digit :: "nat \<Rightarrow> char" where
  "hex_digit d = (if d < 10 then char_of (48 + d) else char_of (87 + d))"

definition x11_cookie :: "read_err + (string \<times> string) \<Rightarrow> read_err + string" where
  "x11_cookie auth =
     (case auth of
        Inr (name, data) \<Rightarrow> Inr (concat (map (\<lambda>d. [hex_digit (byte d div 16), hex_digit (byte d mod 16)]) data))
      | Inl EOF \<Rightarrow> Inr []
      | Inl e \<Rightarrow> Inl e)"

section \<open>Accept loops (forward.go)\<close>

text \<open>
  The loop of \<open>TCPLocalForward\<close> after a successful listen: each event is the result of an
  accept and of the dial that follows; the pairs handed to \<open>forwarder\<close>.
\<close>

fun local_forward_loop :: "('a option \<times> 'b option) list \<Rightarrow> ('a \<times> 'b) list" where
  "local_forward_loop [] = []"
| "local_forward_loop ((accept, dial) # es) =
     (case accept of
        None \<Rightarrow> []
      | Some local \<Rightarrow>
          (case dial of
             None \<Rightarrow> []
           | Some remote \<Rightarrow> (local, remote) # local_forward_loop es))"

text \<open>\<open>TCPRemoteForward\<close> dials the local address first and then waits for a connection.\<close>

fun remote_forward_loop :: "('a option \<times> 'b option) list \<Rightarrow> ('a \<times> 'b) list" where
  "remote_forward_loop [] = []"
| "remote_forward_loop ((dial, accept) # es) =
     (case dial of
        None \<Rightarrow> []
      | Some local \<Rightarrow>
          (case accept of
             None \<Rightarrow> []
           | Some remote \<Rightarrow> (local, remote) # remote_forward_loop es))"

section \<open>Proxies (proxy.go)\<close>

record proxy_params =
  pp_Type :: string
  pp_Addr :: string
  pp_Port :: string
  pp_User :: string
  pp_Password :: string
  pp_Command :: string

datatype proxy_dialer =
    HttpDialer string
  | Socks5Dialer string "(string \<times> string) option"
  | CommandDialer string
  | NilDialer

definition proxyURL :: "proxy_params \<Rightarrow> string" where
  "proxyURL p =
     pp_Type p @ ''://''
     @ (if pp_User p \<noteq> [] \<and> pp_Password p \<noteq> [] then pp_User p @ '':'' @ pp_Password p @ ''@'' else [])
     @ pp_Addr p @ (if pp_Port p \<noteq> [] then '':'' @ pp_Port p else [])"

definition CreateProxyDialer :: "proxy_params \<Rightarrow> proxy_dialer" where
  "CreateProxyDialer p =
     (if pp_Type p = ''http'' \<or> pp_Type p = ''https'' then HttpDialer (proxyURL p)
      else if pp_Type p = ''socks'' \<or> pp_Type p = ''socks5''
      then Socks5Dialer (join_host_port (pp_Addr p) (pp_Port p))
             (if pp_User p \<noteq> [] \<and> pp_Password p \<noteq> [] then Some (pp_User p, pp_Password p) else None)
      else if pp_Type p = ''command'' then CommandDialer (pp_Command p)
      else NilDialer)"

section \<open>Facts\<close>

text \<open>A port made from a name is one of the 65536 ports, also a reserved one or 0.\<close>

lemma hashed_port_range: "parseHashedPort sha1 port < 65536"
proof -
  have "256 * byte a + byte b < 65536" for a b
    using byte_lt [of a] byte_lt [of b] by linarith
  then show ?thesis by (auto split: list.split)
qed

lemma str_last_index_absent: "c \<notin> set s \<Longrightarrow> str_last_index [c] s = None"
  by (induction s) auto

lemma str_last_index_append: "c \<notin> set t \<Longrightarrow> str_last_index [c] (s @ c # t) = Some (length s)"
  by (induction s) (auto simp: str_last_index_absent)

lemma str_index_absent: "c \<notin> set s \<Longrightarrow> str_index [c] s = None"
  by (induction s) auto

lemma str_index_append: "c \<notin> set s \<Longrightarrow> str_index [c] (s @ c # t) = Some (length s)"
  by (induction s) auto

lemma split_join_host_port:
  assumes "CHR '':'' \<notin> set port" and "CHR ''['' \<notin> set port" and "CHR '']'' \<notin> set port"
    and "CHR ''['' \<notin> set host" and "CHR '']'' \<notin> set host"
  shows "split_host_port (join_host_port host port) = Some (host, port)"
proof (cases "CHR '':'' \<in> set host")
  case True
  have last: "str_last_index '':'' ((''['' @ host @ '']'') @ CHR '':'' # port) = Some (length (''['' @ host @ '']''))"
    by (rule str_last_index_append) (use assms in simp)
  have idx: "str_index '']'' ((''['' @ host) @ CHR '']'' # ('':'' @ port)) = Some (length (''['' @ host))"
    by (rule str_index_append) (use assms in simp)
  show ?thesis using last idx True assms
    by (simp add: split_host_port_def join_host_port_def)
next
  case False
  have "str_last_index '':'' (host @ CHR '':'' # port) = Some (length host)"
    by (rule str_last_index_append) (use assms in simp)
  moreover have "take 1 (host @ '':'' @ port) \<noteq> ''[''" using assms(4) by (cases host) auto
  ultimately show ?thesis using False assms by (simp add: split_host_port_def join_host_port_def)
qed

lemma split_two_colons:
  assumes "CHR '':'' \<in> set a" and "CHR '':'' \<notin> set b" and "take 1 a \<noteq> ''[''"
  shows "split_host_port (a @ '':'' @ b) = None"
proof -
  have "str_last_index '':'' (a @ CHR '':'' # b) = Some (length a)"
    by (rule str_last_index_append) (use assms in simp)
  moreover have "take 1 (a @ '':'' @ b) \<noteq> ''[''" using assms(1,3) by (cases a) auto
  ultimately show ?thesis using assms(1) by (simp add: split_host_port_def)
qed

definition u16 :: "nat \<Rightarrow> string" where
  "u16 n = [char_of (n div 256), char_of (n mod 256)]"

definition put_bytes :: "string \<Rightarrow> string" where
  "put_bytes b = u16 (length b) @ b"

definition put_entry :: "nat \<times> string \<times> string \<times> string \<times> string \<Rightarrow> string" where
  "put_entry e = (case e of (family, addr, disp, name, data) \<Rightarrow>
     u16 family @ put_bytes addr @ put_bytes disp @ put_bytes name @ put_bytes data)"

definition entry_ok :: "nat \<times> string \<times> string \<times> string \<times> string \<Rightarrow> bool" where
  "entry_ok e = (case e of (family, addr, disp, name, data) \<Rightarrow>
     family < 65536 \<and> length addr \<le> 256 \<and> length disp \<le> 256 \<and> length name \<le> 256 \<and> length data \<le> 256)"

lemma read_u16_put: "n < 65536 \<Longrightarrow> read_u16 (u16 n @ r) = Inr (n, r)"
  by (simp add: read_u16_def read_full_def u16_def less_mult_imp_div_less)

lemma getBytes_put: "length b \<le> 256 \<Longrightarrow> getBytes (put_bytes b @ r) = Inr (b, r)"
  by (simp add: getBytes_def put_bytes_def read_u16_put read_full_def)

lemma readAuthority_entry:
  assumes "entry_ok (family, addr, disp, name, data)"
  shows "readAuthority h d (put_entry (family, addr, disp, name, data) @ r)
    = (if family = 256 \<and> addr = h \<and> disp = d then Inr (name, data) else readAuthority h d r)"
  using assms
  by (subst readAuthority.simps)
    (simp add: put_entry_def entry_ok_def read_u16_put getStrings4_def getBytes_put)

lemma readAuthority_empty: "readAuthority h d [] = Inl EOF"
  by (subst readAuthority.simps) (simp add: read_u16_def read_full_def)

fun first_entry :: "string \<Rightarrow> string \<Rightarrow> (nat \<times> string \<times> string \<times> string \<times> string) list \<Rightarrow> (string \<times> string) option" where
  "first_entry h d [] = None"
| "first_entry h d ((family, addr, disp, name, data) # es) =
     (if family = 256 \<and> addr = h \<and> disp = d then Some (name, data) else first_entry h d es)"

lemma last_dot: "str_last_index ''.'' (s @ t) = (case str_last_index ''.'' t of
    Some i \<Rightarrow> Some (length s + i) | None \<Rightarrow> str_last_index ''.'' s)"
proof (induction s)
  case Nil
  show ?case by (cases t) (auto split: option.splits)
next
  case (Cons a s)
  then show ?case by (auto split: option.splits)
qed

lemma last_index_mem: "c \<in> set s \<Longrightarrow> \<exists>i < length s. str_last_index [c] s = Some i"
proof (induction s)
  case (Cons a s)
  then show ?case by (cases "c \<in> set s") (auto simp: str_last_index_absent)
qed simp

lemma digits_plain: "x \<in> {CHR '':'', CHR ''['', CHR '']''} \<Longrightarrow> x \<notin> set (format_uint n)"
  using format_uint_digits [of x n] by (auto simp: is_digit_def byte_def)

section \<open>Properties\<close>

text \<open>C29 Reading the authority file undoes its format: for a file of entries whose fields fit the
  buffer, the result is the first local entry of the host and display, or the end of the file.\<close>

theorem readAuthority_first_match:
  assumes "\<forall>e \<in> set es. entry_ok e"
  shows "readAuthority h d (concat (map put_entry es))
    = (case first_entry h d es of Some x \<Rightarrow> Inr x | None \<Rightarrow> Inl EOF)"
  using assms
proof (induction es)
  case (Cons e es)
  obtain family addr disp name data where e: "e = (family, addr, disp, name, data)" by (cases e)
  with Cons show ?case by (simp add: readAuthority_entry)
qed (simp add: readAuthority_empty)

lemma readAuthority_first_match_witness:
  "readAuthority ''pc'' ''0'' (concat (map put_entry [(0, ''pc'', ''0'', ''a'', ''x''), (256, ''pc'', ''0'', ''b'', ''y'')]))
   = Inr (''b'', ''y'')"
  using readAuthority_first_match [of "[(0, ''pc'', ''0'', ''a'', ''x''), (256, ''pc'', ''0'', ''b'', ''y'')]" "''pc''" "''0''"]
  by (simp add: entry_ok_def)

text \<open>The display number is the text between the last colon and the screen; a DISPLAY without
  a screen on a host with a dot in its name or address (\<open>10.0.0.1:0\<close>) panics.\<close>

theorem getX11Display_spec:
  assumes "CHR '':'' \<notin> set n" and "CHR ''.'' \<notin> set n" and "CHR '':'' \<notin> set s" and "CHR ''.'' \<notin> set s"
  shows "getX11Display (h @ '':'' @ n @ ''.'' @ s) = Done n
    \<and> getX11Display (h @ '':'' @ n) = (if CHR ''.'' \<in> set h then Panic else Done n)"
proof
  have c: "str_last_index '':'' (h @ CHR '':'' # (n @ ''.'' @ s)) = Some (length h)"
    by (rule str_last_index_append) (use assms in simp)
  have d: "str_last_index ''.'' ((h @ '':'' @ n) @ CHR ''.'' # s) = Some (length (h @ '':'' @ n))"
    by (rule str_last_index_append) (use assms in simp)
  show "getX11Display (h @ '':'' @ n @ ''.'' @ s) = Done n"
    using c d by (simp add: getX11Display_def go_pos_def go_slice_def nat_add_distrib)
  have c': "str_last_index '':'' (h @ CHR '':'' # n) = Some (length h)"
    by (rule str_last_index_append) (use assms in simp)
  have nd: "str_last_index ''.'' ('':'' @ n) = None"
    using assms(2) by (simp add: str_last_index_absent)
  show "getX11Display (h @ '':'' @ n) = (if CHR ''.'' \<in> set h then Panic else Done n)"
  proof (cases "CHR ''.'' \<in> set h")
    case True
    then obtain i where "i < length h" "str_last_index ''.'' h = Some i" using last_index_mem by blast
    then have "str_last_index ''.'' (h @ CHR '':'' # n) = Some i" using last_dot [of h "'':'' @ n"] nd by simp
    then show ?thesis using c' True \<open>i < length h\<close> by (simp add: getX11Display_def go_pos_def go_slice_def)
  next
    case False
    then have "str_last_index ''.'' (h @ CHR '':'' # n) = None"
      using assms(2) by (intro str_last_index_absent) simp
    then show ?thesis using c' False by (simp add: getX11Display_def go_pos_def go_slice_def nat_add_distrib)
  qed
qed

lemma getX11Display_spec_witness:
  "getX11Display ''localhost:10.0'' = Done ''10'' \<and> getX11Display ''10.0.0.1:0'' = Panic"
  using getX11Display_spec [of "''10''" "''0''" "''localhost''"] getX11Display_spec [of "''0''" "''0''" "''10.0.0.1''"]
  by simp

text \<open>A bridge with an IPv6 address loses its brackets: the address that is dialled has two
  colons and no brackets, which is no address.\<close>

theorem ipv6_bridge_unusable:
  assumes "CHR '':'' \<in> set h" and "CHR ''['' \<notin> set h" and "CHR '']'' \<notin> set h"
    and "p \<noteq> []" and "CHR '':'' \<notin> set p" and "CHR ''['' \<notin> set p" and "CHR '']'' \<notin> set p"
  shows "\<exists>r. brg_part hash (join_host_port h p) = Done r \<and> split_host_port r = None"
proof -
  let ?port = "if is_letter (hd p) then format_uint (hash p) else p"
  have s: "split_host_port (join_host_port h p) = Some (h, p)"
    by (rule split_join_host_port) (use assms in auto)
  have "length (join_host_port h p) \<noteq> 1" using assms(1) by (simp add: join_host_port_def)
  then have "brg_part hash (join_host_port h p) = Done (h @ '':'' @ ?port)"
    using s assms(1,4) by (cases p) (auto simp: brg_part_def)
  moreover have "split_host_port (h @ '':'' @ ?port) = None"
  proof (rule split_two_colons)
    show "take 1 h \<noteq> ''[''" using assms(2) by (cases h) auto
  qed (use assms digits_plain in auto)
  ultimately show ?thesis by blast
qed

lemma ipv6_bridge_unusable_witness:
  "\<exists>r. brg_part (\<lambda>_. 0) (join_host_port ''::1'' ''1000'') = Done r \<and> split_host_port r = None"
  by (rule ipv6_bridge_unusable) simp_all

text \<open>A forward hands out exactly the connections before the first failed accept or dial: one
  failed dial of the target ends it for every later client.\<close>

theorem local_forward_until_failure:
  "local_forward_loop es = map (\<lambda>(a, b). (the a, the b)) (takeWhile (\<lambda>(a, b). a \<noteq> None \<and> b \<noteq> None) es)"
  by (induction es rule: local_forward_loop.induct) (auto split: option.splits)

end
