(* ===== verification/Sshlib_Term.thy ===== *)
theory Sshlib_Term
  imports Common Go_Machine
begin

text \<open>
  src/sshlib, the terminal of a shell: the capture of the response of a hidden command in the output
  (interrupt.go) with its two goroutines as a transition system, the local commands typed after two
  Ctrl-K, keep-alive (connect.go), the prompt detector and the log (shell.go, log.go), and file
  transfer through the terminal (dl.go, up.go). Times are in milliseconds.
\<close>

section \<open>The capturing writer (interrupt.go)\<close>

definition crlf :: string where
  "crlf = [CHR 0x0D, CHR 0x0A]"

text \<open>\<open>clearTag\<close>: the text between the tags and whether they were found.\<close>

definition open_tag :: "string \<Rightarrow> string" where
  "open_tag tag = ''open:'' @ tag @ crlf"

definition close_tag :: "string \<Rightarrow> string" where
  "close_tag tag = ''close:'' @ tag"

definition clearTag :: "string \<Rightarrow> string \<Rightarrow> (string \<times> bool) outcome" where
  "clearTag tag b =
     (let openTag = open_tag tag in
      case str_index openTag b of
        None \<Rightarrow> Done ([], False)
      | Some openPos \<Rightarrow>
          (case str_index (close_tag tag) (drop openPos b) of
             None \<Rightarrow> Done ([], False)
           | Some closePos \<Rightarrow>
               obind (go_slice b (int (openPos + length openTag)) (int (openPos + closePos)))
                 (\<lambda>s. Done (trim_space s, True))))"

record interrupt_writer =
  iw_tag :: string
  iw_time :: nat
  iw_buf :: string

definition capturing :: "nat \<Rightarrow> interrupt_writer \<Rightarrow> bool" where
  "capturing now w \<longleftrightarrow> iw_tag w \<noteq> [] \<and> now - iw_time w < 15000"

text \<open>
  \<open>interruptWriter.Read\<close> on \<open>p\<close> bytes of output at the time \<open>now\<close>;
  \<open>pending\<close> is the tag of a sender waiting on \<open>notifyC\<close>. The result is the new state,
  the bytes shown and the response sent on \<open>notifyRspC\<close>.
\<close>

definition iw_read ::
  "nat \<Rightarrow> string option \<Rightarrow> string \<Rightarrow> interrupt_writer \<Rightarrow> (interrupt_writer \<times> string \<times> string option) outcome" where
  "iw_read now pending p w =
     (if capturing now w then
        let buf = iw_buf w @ p in
        if contains buf (close_tag (iw_tag w) @ crlf) then
          obind (clearTag (iw_tag w) buf) (\<lambda>(rsp, closeFound).
            if closeFound then Done (w\<lparr>iw_tag := [], iw_buf := []\<rparr>, [], Some rsp)
            else Done (w\<lparr>iw_buf := buf\<rparr>, [], None))
        else Done (w\<lparr>iw_buf := buf\<rparr>, [], None)
      else (case pending of
              Some tag \<Rightarrow> Done (\<lparr>iw_tag = tag, iw_time = now, iw_buf = p\<rparr>, [], None)
            | None \<Rightarrow> Done (w, p, None)))"

section \<open>The two goroutines\<close>

text \<open>
  \<open>executeCmd\<close> (dl.go) writes a command, offers its tag on \<open>notifyC\<close> and waits for the
  response until its time-out; the copying goroutine reads output and offers a response on
  \<open>notifyRspC\<close>. Both channels are unbuffered.
\<close>

definition exec_line :: "string \<Rightarrow> string \<Rightarrow> string" where
  "exec_line tag cmd = ''echo open:'' @ tag @ ''; '' @ cmd @ ''; echo close:'' @ tag @ [CHR 0x0D]"

datatype reader_state = RIdle | RNotifying string nat | RWaiting nat
datatype writer_state = WRunning | WSending string

record term_sys =
  t_iw :: interrupt_writer
  t_reader :: reader_state
  t_writer :: writer_state
  t_now :: nat
  t_shown :: string
  t_results :: "string option list"

definition pending_tag :: "reader_state \<Rightarrow> string option" where
  "pending_tag r = (case r of RNotifying tag timeout \<Rightarrow> Some tag | _ \<Rightarrow> None)"

definition notified :: "nat \<Rightarrow> interrupt_writer \<Rightarrow> reader_state \<Rightarrow> reader_state" where
  "notified now w r =
     (case r of RNotifying tag timeout \<Rightarrow> if capturing now w then r else RWaiting (now + timeout) | _ \<Rightarrow> r)"

inductive term_step :: "term_sys \<Rightarrow> term_sys \<Rightarrow> bool" where
  exec: "t_reader s = RIdle \<Longrightarrow> tag \<noteq> [] \<Longrightarrow> term_step s (s\<lparr>t_reader := RNotifying tag timeout\<rparr>)"
| got_output: "t_writer s = WRunning \<Longrightarrow> p \<noteq> [] \<Longrightarrow>
    iw_read (t_now s) (pending_tag (t_reader s)) p (t_iw s) = Done (w', shown, rsp) \<Longrightarrow>
    term_step s (s\<lparr>t_iw := w', t_reader := notified (t_now s) (t_iw s) (t_reader s),
      t_shown := t_shown s @ shown, t_writer := (case rsp of None \<Rightarrow> WRunning | Some r \<Rightarrow> WSending r)\<rparr>)"
| deliver: "t_reader s = RWaiting d \<Longrightarrow> t_writer s = WSending r \<Longrightarrow>
    term_step s (s\<lparr>t_reader := RIdle, t_writer := WRunning, t_results := t_results s @ [Some r]\<rparr>)"
| timeout: "t_reader s = RWaiting d \<Longrightarrow> d \<le> t_now s \<Longrightarrow>
    term_step s (s\<lparr>t_reader := RIdle, t_results := t_results s @ [None]\<rparr>)"
| tick: "term_step s (s\<lparr>t_now := t_now s + n\<rparr>)"

definition term_init :: term_sys where
  "term_init = \<lparr>t_iw = \<lparr>iw_tag = [], iw_time = 0, iw_buf = []\<rparr>, t_reader = RIdle, t_writer = WRunning,
     t_now = 0, t_shown = [], t_results = []\<rparr>"

text \<open>Nobody takes the response the writer offers, and the writer takes no notification.\<close>

definition frozen :: "term_sys \<Rightarrow> bool" where
  "frozen s \<longleftrightarrow> (\<exists>r. t_writer s = WSending r) \<and> (\<forall>d. t_reader s \<noteq> RWaiting d)"

section \<open>Local commands (interrupt.go)\<close>

text \<open>\<open>GetEnvSshEnv\<close> and the detection of a second Ctrl-K within a second.\<close>

definition GetEnvSshEnv :: "(nat \<Rightarrow> nat) \<Rightarrow> string \<Rightarrow> nat" where
  "GetEnvSshEnv ul env =
     (if to_lower ul env = ''0'' \<or> to_lower ul env = ''off'' \<or> to_lower ul env = ''no'' \<or> to_lower ul env = ''n''
      then 0 else 1)"

record ctrl_k =
  LastKeyCtrK :: bool
  LastKeyCtrKTime :: nat

definition ctrlk_step :: "char \<Rightarrow> string \<Rightarrow> nat \<Rightarrow> ctrl_k \<Rightarrow> ctrl_k \<times> bool" where
  "ctrlk_step keyCtrlK p now st =
     (let isKeyCtrK = (p = [keyCtrlK])
      in (\<lparr>LastKeyCtrK = isKeyCtrK, LastKeyCtrKTime = now\<rparr>,
          isKeyCtrK \<and> LastKeyCtrK st \<and> now - LastKeyCtrKTime st \<le> 1000))"

datatype local_cmd =
    Help | HostInfo | Ps string | Dash | Web | Quit | Up string | Dl string | Passed string

text \<open>
  The dispatch on a line; \<open>anyOf\<close> is \<open>ss.AnyOf\<close>, \<open>logging\<close> whether
  \<open>SetLog\<close> was called. \<open>ToggleLogging\<close> stores through a pointer that only
  \<open>SetLog\<close> sets, and the argument \<open>cmdFields[0]\<close> of \<open>ss.If\<close> is evaluated for a
  line without fields, too.
\<close>

definition local_command ::
  "(string \<Rightarrow> string list \<Rightarrow> bool) \<Rightarrow> (nat \<Rightarrow> nat) \<Rightarrow> bool \<Rightarrow> string \<Rightarrow> local_cmd outcome" where
  "local_command anyOf ul logging line =
     (if \<not> logging then Panic
      else obind (go_index (go_fields line) 0) (\<lambda>f.
       let fs = tl (go_fields line); cmd = to_lower ul f in Done (
         if fs = [] \<and> anyOf cmd [''.?''] then Help
         else if fs = [] \<and> anyOf cmd [''.hostinfo''] then HostInfo
         else if length fs = 1 \<and> anyOf cmd [''.ps''] then Ps (hd fs)
         else if fs = [] \<and> anyOf cmd [''.dash''] then Dash
         else if fs = [] \<and> anyOf cmd [''.web''] then Web
         else if fs = [] \<and> anyOf cmd [''.exit'', ''.quit''] then Quit
         else if length fs = 1 \<and> anyOf cmd [''.up''] then Up (hd fs)
         else if length fs = 1 \<and> anyOf cmd [''.dl''] then Dl (hd fs)
         else Passed line)))"

text \<open>
  What a command writes to the remote shell directly (the transfers and the host information write
  through \<open>up\<close>, \<open>dl\<close> and \<open>executeCmd\<close>); \<open>psCmds\<close> is the split template of
  \<open>.ps\<close>, \<open>None\<close> for its error, \<open>Some []\<close> without a script.
\<close>

definition direct_writes :: "(string \<Rightarrow> string list option) \<Rightarrow> local_cmd \<Rightarrow> string list" where
  "direct_writes psCmds c =
     (let cr = [CHR 0x0D] in
      case c of
        Passed line \<Rightarrow> [line, cr]
      | Quit \<Rightarrow> [''exit'', cr]
      | Ps pid \<Rightarrow> (case psCmds pid of None \<Rightarrow> [] | Some cmds \<Rightarrow> map (\<lambda>x. x @ cr @ cr) cmds @ [cr])
      | _ \<Rightarrow> [cr])"

text \<open>
  The lines of \<open>Read\<close> behind the two Ctrl-K: each line typed (or the error of reading it)
  with what is written to the remote shell, and the result of \<open>Read\<close>, \<open>None\<close> while it
  waits for a line. With \<open>envOff\<close> (\<open>GetEnvSshEnv\<close> is 0) it goes on with the next line; a
  template of \<open>.ps\<close> that fails returns at once.
\<close>

fun local_lines ::
  "(string \<Rightarrow> string list \<Rightarrow> bool) \<Rightarrow> (nat \<Rightarrow> nat) \<Rightarrow> bool \<Rightarrow> (string \<Rightarrow> string list option) \<Rightarrow> bool
   \<Rightarrow> (string option + string) list \<Rightarrow> (string list \<times> string option option) outcome" where
  "local_lines anyOf ul logging psCmds envOff [] = Done ([], None)"
| "local_lines anyOf ul logging psCmds envOff (typed # rest) =
     (case typed of
        Inl err \<Rightarrow> Done ([[CHR 0x0D]], Some err)
      | Inr line \<Rightarrow>
          obind (local_command anyOf ul logging line) (\<lambda>c.
            let failed = (case c of Ps pid \<Rightarrow> psCmds pid = None | _ \<Rightarrow> False) in
            if envOff \<and> \<not> failed
            then obind (local_lines anyOf ul logging psCmds envOff rest) (\<lambda>(ws, r). Done (direct_writes psCmds c @ ws, r))
            else Done (direct_writes psCmds c, Some None)))"

text \<open>\<open>Read\<close> on \<open>p\<close> from the terminal: bytes that pass through, or the lines of a local
  session; an empty read passes the error on.\<close>

definition interruptReader_Read ::
  "(string \<Rightarrow> string list \<Rightarrow> bool) \<Rightarrow> (nat \<Rightarrow> nat) \<Rightarrow> bool \<Rightarrow> (string \<Rightarrow> string list option) \<Rightarrow> bool \<Rightarrow> char
   \<Rightarrow> string \<Rightarrow> string option \<Rightarrow> nat \<Rightarrow> (string option + string) list \<Rightarrow> ctrl_k
   \<Rightarrow> (ctrl_k \<times> string \<times> string list \<times> string option option) outcome" where
  "interruptReader_Read anyOf ul logging psCmds envOff keyCtrlK p err now typed st =
     (let lines = (\<lambda>st'. obind (local_lines anyOf ul logging psCmds envOff typed) (\<lambda>(ws, r). Done (st', [], ws, r))) in
      if envOff then lines st
      else if p = [] then Done (st, [], [], Some err)
      else let (st', second) = ctrlk_step keyCtrlK p now st in
           if second then lines st' else Done (st', p, [], Some None))"

section \<open>Keep-alive (connect.go)\<close>

definition keepalive_max :: "int \<Rightarrow> nat" where
  "keepalive_max c = (if c > 0 then nat c else 5)"

text \<open>\<open>SendKeepAlive\<close> on the outcomes of its requests: whether the session was closed.\<close>

fun SendKeepAlive :: "nat \<Rightarrow> nat \<Rightarrow> bool list \<Rightarrow> bool" where
  "SendKeepAlive m i [] = False"
| "SendKeepAlive m i (ok # rs) =
     (let i' = (if ok then 0 else i + 1) in if m \<le> i' then True else SendKeepAlive m i' rs)"

section \<open>Prompt and log (shell.go, log.go)\<close>

definition BytesHasSuffix :: "string \<Rightarrow> string list \<Rightarrow> bool" where
  "BytesHasSuffix p sfxs = list_ex (has_suffix p) sfxs"

fun checker_reads :: "bool \<Rightarrow> string list \<Rightarrow> bool" where
  "checker_reads ready [] = ready"
| "checker_reads ready (p # ps) =
     checker_reads (ready \<or> BytesHasSuffix p [''# '', ''$ '']) ps"

text \<open>The log: the file, the buffer of \<open>logWriter\<close> and the text waiting for its line end. A
  write, and a round of \<open>cleanLog\<close>, which runs only without \<open>logKeepAnsiCode\<close>;
  \<open>fmt1\<close> is the time stamp, the clean-up of codes and the print of a line.\<close>

record log_state =
  lg_file :: string
  lg_buf :: string
  lg_pre :: string

definition log_write :: "bool \<Rightarrow> bool \<Rightarrow> bool \<Rightarrow> string \<Rightarrow> log_state \<Rightarrow> log_state" where
  "log_write toggle keepAnsi timestamp p l =
     (if \<not> toggle then l
      else if \<not> keepAnsi \<or> timestamp then l\<lparr>lg_buf := lg_buf l @ p\<rparr>
      else l\<lparr>lg_file := lg_file l @ p\<rparr>)"

definition clean_round :: "(string \<Rightarrow> string) \<Rightarrow> log_state \<Rightarrow> log_state" where
  "clean_round fmt1 l =
     (let line = takeWhile (\<lambda>c. c \<noteq> newline) (lg_buf l) in
      if lg_buf l = [] then l
      else if length line = length (lg_buf l)
      then l\<lparr>lg_buf := [], lg_pre := lg_pre l @ line\<rparr>
      else l\<lparr>lg_buf := drop (Suc (length line)) (lg_buf l), lg_pre := [],
             lg_file := lg_file l @ fmt1 (lg_pre l @ line @ [newline])\<rparr>)"

datatype log_event = LogWrite bool string | CleanRound

fun log_run :: "bool \<Rightarrow> bool \<Rightarrow> (string \<Rightarrow> string) \<Rightarrow> log_event list \<Rightarrow> log_state \<Rightarrow> log_state" where
  "log_run keepAnsi timestamp fmt1 [] l = l"
| "log_run keepAnsi timestamp fmt1 (LogWrite toggle p # es) l =
     log_run keepAnsi timestamp fmt1 es (log_write toggle keepAnsi timestamp p l)"
| "log_run keepAnsi timestamp fmt1 (CleanRound # es) l =
     log_run keepAnsi timestamp fmt1 es (if keepAnsi then l else clean_round fmt1 l)"

section \<open>Files through the terminal (dl.go, up.go)\<close>

definition field0 :: "string \<Rightarrow> string" where
  "field0 s = (case go_fields s of [] \<Rightarrow> [] | f # fs \<Rightarrow> f)"

text \<open>\<open>lsSize\<close>; \<open>parse\<close> is \<open>ss.Parse\<close>, 0 for its error.\<close>

definition lsSize :: "(string \<Rightarrow> int) \<Rightarrow> string \<Rightarrow> (string + int) outcome" where
  "lsSize parse rsp =
     obind (if length (go_fields rsp) \<ge> 4 then obind (go_index (go_fields rsp) 4) (\<lambda>f. Done (parse f)) else Done 0)
       (\<lambda>n. Done (if n > 0 then Inr n else Inl rsp))"

definition dl_cmd :: "string \<Rightarrow> nat \<Rightarrow> string" where
  "dl_cmd file skip =
     ''dd if='' @ file @ '' bs=102400 count=1 skip='' @ format_uint skip @ '' 2>/dev/null | base64 -w 0 && echo''"

text \<open>The parts written to the decoder: up to the first empty response (also of a time-out).\<close>

fun dl_loop :: "string list \<Rightarrow> string list" where
  "dl_loop [] = []"
| "dl_loop (rsp # rsps) = (if rsp = [] then [] else rsp # dl_loop rsps)"

text \<open>The reads of \<open>up\<close>, with the buffer that shrinks to the last read.\<close>

function up_reads :: "nat \<Rightarrow> string \<Rightarrow> string list" where
  "up_reads bsz file =
     (if file = [] \<or> bsz = 0 then [] else
      let bs = take bsz file in bs # up_reads (length bs) (drop bsz file))"
  by pat_completeness auto
termination
  by (relation "measure (\<lambda>(bsz, file). length file)") auto

declare up_reads.simps [simp del]

definition part_name :: "string \<Rightarrow> nat \<Rightarrow> string" where
  "part_name pfx idx = pfx @ ''.'' @ format_uint idx"

definition up_cmd :: "(string \<Rightarrow> string) \<Rightarrow> string \<Rightarrow> nat \<Rightarrow> string \<Rightarrow> string \<Rightarrow> string" where
  "up_cmd b64 pfx idx bs t =
     ''echo open:'' @ t @ ''; echo '' @ b64 bs @ '' | base64 -d > '' @ part_name pfx idx
     @ '' ; md5sum '' @ part_name pfx idx @ ''; echo close:'' @ t @ [CHR 0x0D]"

definition up_join :: "string \<Rightarrow> nat \<Rightarrow> string \<Rightarrow> string" where
  "up_join pfx count t =
     ''echo open:'' @ t @ ''; cat '' @ pfx @ ''.{1..'' @ format_uint count @ ''} > '' @ pfx
     @ ''; rm -fr '' @ pfx @ ''.{1..'' @ format_uint count @ ''}; echo close:'' @ t @ [CHR 0x0D]"

text \<open>The commands sent: one part per read while the checksums agree, then the join.\<close>

fun up_loop ::
  "(string \<Rightarrow> string) \<Rightarrow> (string \<Rightarrow> string) \<Rightarrow> (nat \<Rightarrow> string) \<Rightarrow> (nat \<Rightarrow> string) \<Rightarrow> string \<Rightarrow> nat \<Rightarrow> string list \<Rightarrow> string list" where
  "up_loop b64 md5 tag reply pfx count [] = [up_join pfx count (tag (count + 1))]"
| "up_loop b64 md5 tag reply pfx count (bs # rest) =
     up_cmd b64 pfx (count + 1) bs (tag (count + 1))
     # (if field0 (reply (count + 1)) \<noteq> md5 bs then [] else up_loop b64 md5 tag reply pfx (count + 1) rest)"

text \<open>\<open>up\<close> before its loop: the file must be there and open; the parts get a name below
  \<open>/tmp\<close>.\<close>

definition up ::
  "(string \<Rightarrow> string) \<Rightarrow> (string \<Rightarrow> string) \<Rightarrow> (nat \<Rightarrow> string) \<Rightarrow> (nat \<Rightarrow> string) \<Rightarrow> string \<Rightarrow> bool \<Rightarrow> string option \<Rightarrow> string \<Rightarrow> string list" where
  "up b64 md5 tag reply tid statOk content fname =
     (if \<not> statOk then []
      else case content of
        None \<Rightarrow> []
      | Some f \<Rightarrow> up_loop b64 md5 tag reply (slash # ''tmp'' @ slash # tid @ ''.'' @ path_base fname) 0 (up_reads 20480 f))"

text \<open>The settings of the log: \<open>SetLog\<close>, and \<open>ToggleLogging\<close> through the pointer it sets.\<close>

record log_conf =
  lc_logging :: bool
  lc_logFile :: string
  lc_logTimestamp :: bool
  lc_toggle :: "bool option"

definition SetLog :: "string \<Rightarrow> bool \<Rightarrow> log_conf \<Rightarrow> log_conf" where
  "SetLog path timestamp c = c\<lparr>lc_logging := True, lc_logFile := path, lc_logTimestamp := timestamp, lc_toggle := Some True\<rparr>"

definition ToggleLogging :: "bool \<Rightarrow> log_conf \<Rightarrow> log_conf outcome" where
  "ToggleLogging t c = (case lc_toggle c of None \<Rightarrow> Panic | Some _ \<Rightarrow> Done (c\<lparr>lc_toggle := Some t\<rparr>))"

lemma toggle_needs_SetLog: "lc_toggle c = None \<Longrightarrow> ToggleLogging t c = Panic" "ToggleLogging t (SetLog path ts c) \<noteq> Panic"
  by (simp_all add: ToggleLogging_def SetLog_def)

section \<open>Facts\<close>

lemma go_slice_nat: "i \<le> j \<Longrightarrow> j \<le> length s \<Longrightarrow> go_slice s (int i) (int j) = Done (take (j - i) (drop i s))"
  by (simp add: go_slice_def flip: of_nat_diff)

lemma clearTag_found:
  assumes "str_index (open_tag tag) b = Some i"
    and "str_index (close_tag tag) (drop i b) = Some j"
    and "length (open_tag tag) \<le> j"
  shows "clearTag tag b = Done (trim_space (take (j - length (open_tag tag)) (drop (i + length (open_tag tag)) b)), True)"
proof -
  have "j \<le> length (drop i b)" using str_index_SomeD [OF assms(2)] by linarith
  moreover have "i + length (open_tag tag) \<le> length b" using str_index_SomeD [OF assms(1)] by simp
  ultimately have "go_slice b (int (i + length (open_tag tag))) (int (i + j))
      = Done (take (i + j - (i + length (open_tag tag))) (drop (i + length (open_tag tag)) b))"
    using assms(3) by (intro go_slice_nat) auto
  also have "i + j - (i + length (open_tag tag)) = j - length (open_tag tag)" by simp
  finally show ?thesis using assms(1,2) by (simp add: clearTag_def Let_def)
qed

text \<open>The reads of one capture, at one time: the state, what was shown, the responses.\<close>

fun iw_run :: "nat \<Rightarrow> string list \<Rightarrow> interrupt_writer \<Rightarrow> (interrupt_writer \<times> string \<times> string list) outcome" where
  "iw_run now [] w = Done (w, [], [])"
| "iw_run now (p # ps) w =
     obind (iw_read now None p w) (\<lambda>(w', shown, rsp).
     obind (iw_run now ps w') (\<lambda>(w'', shown', rsps).
       Done (w'', shown @ shown', (case rsp of None \<Rightarrow> [] | Some r \<Rightarrow> [r]) @ rsps)))"

lemma iw_run_collects:
  assumes "capturing now w" and "\<not> contains (iw_buf w @ concat ps) (close_tag (iw_tag w) @ crlf)"
  shows "iw_run now ps w = Done (w\<lparr>iw_buf := iw_buf w @ concat ps\<rparr>, [], [])"
  using assms
proof (induction ps arbitrary: w)
  case (Cons p ps)
  have "\<not> contains (iw_buf w @ p) (close_tag (iw_tag w) @ crlf)"
  proof
    assume "contains (iw_buf w @ p) (close_tag (iw_tag w) @ crlf)"
    then have "sublist (close_tag (iw_tag w) @ crlf) ((iw_buf w @ p) @ concat ps)"
      unfolding contains_iff_sublist sublist_def by (metis append.assoc)
    then show False using Cons.prems(2) by (simp add: contains_iff_sublist)
  qed
  then have "iw_read now None p w = Done (w\<lparr>iw_buf := iw_buf w @ p\<rparr>, [], None)"
    using Cons.prems(1) by (simp add: iw_read_def Let_def)
  then show ?case using Cons.IH [of "w\<lparr>iw_buf := iw_buf w @ p\<rparr>"] Cons.prems by (simp add: capturing_def)
qed simp

lemma iw_run_append:
  "iw_run now (ps @ qs) w = obind (iw_run now ps w) (\<lambda>(w', shown, rsps).
     obind (iw_run now qs w') (\<lambda>(w'', shown', rsps'). Done (w'', shown @ shown', rsps @ rsps')))"
proof (induction ps arbitrary: w)
  case Nil
  show ?case by (cases "iw_run now qs w") auto
next
  case (Cons p ps)
  show ?case
  proof (cases "iw_read now None p w")
    case (Done x)
    obtain w' shown rsp where x: "x = (w', shown, rsp)" by (cases x)
    show ?thesis
    proof (cases "iw_run now ps w'")
      case (Done y)
      then show ?thesis using \<open>iw_read now None p w = Done x\<close> x Cons.IH [of w']
        by (cases y; cases "iw_run now qs (fst y)") auto
    qed (use \<open>iw_read now None p w = Done x\<close> x Cons.IH [of w'] in auto)
  qed auto
qed

lemma frozen_step: "term_step s s' \<Longrightarrow> frozen s \<Longrightarrow> frozen s' \<and> t_shown s' = t_shown s \<and> t_results s' = t_results s"
  by (induction rule: term_step.induct) (auto simp: frozen_def)

interpretation freezing: stepping term_step "\<lambda>s. frozen s \<and> t_shown s = shown \<and> t_results s = results"
  by unfold_locales (use frozen_step in force)

lemma frozen_steps:
  "term_step\<^sup>*\<^sup>* s s' \<Longrightarrow> frozen s \<Longrightarrow> frozen s' \<and> t_shown s' = t_shown s \<and> t_results s' = t_results s"
  using freezing.steps_inv by blast

lemma keepalive_run:
  "i < m \<Longrightarrow> SendKeepAlive m i rs \<longleftrightarrow> prefix (replicate (m - i) False) rs \<or> sublist (replicate m False) rs"
proof (induction rs arbitrary: i)
  case Nil
  then show ?case by (cases "m - i"; cases m) auto
next
  case (Cons ok rs)
  obtain k where k: "m = Suc k" using Cons.prems by (cases m) auto
  show ?case
  proof (cases ok)
    case True
    have "SendKeepAlive m i (ok # rs) \<longleftrightarrow> prefix (replicate m False) rs \<or> sublist (replicate m False) rs"
      using Cons.IH [of 0] True k by (simp add: Let_def)
    moreover have "prefix (replicate m False) rs \<Longrightarrow> sublist (replicate m False) rs" by simp
    moreover have "\<not> prefix (replicate (m - i) False) (ok # rs)" using True Cons.prems by (cases "m - i") auto
    moreover have "sublist (replicate m False) (ok # rs) \<longleftrightarrow> sublist (replicate m False) rs"
      using True k by (auto simp: sublist_Cons_right)
    ultimately show ?thesis by blast
  next
    case False
    obtain d where d: "m - i = Suc d" using Cons.prems by (cases "m - i") auto
    have pre: "prefix (replicate k False) rs \<Longrightarrow> prefix (replicate d False) rs"
    proof -
      assume "prefix (replicate k False) rs"
      moreover have "replicate k False = replicate d False @ replicate (k - d) False"
        using d k by (simp flip: replicate_add)
      ultimately show ?thesis by (metis append_prefixD)
    qed
    have rhs: "prefix (replicate (m - i) False) (ok # rs) \<or> sublist (replicate m False) (ok # rs)
        \<longleftrightarrow> prefix (replicate d False) rs \<or> sublist (replicate m False) rs"
      using False d k pre by (auto simp: sublist_Cons_right)
    show ?thesis
    proof (cases "m \<le> i + 1")
      case True
      then have "d = 0" using d by simp
      then show ?thesis using rhs True False by (simp add: Let_def)
    next
      case big: False
      have md: "m - (i + 1) = d" using d by simp
      have "SendKeepAlive m i (ok # rs) \<longleftrightarrow> SendKeepAlive m (i + 1) rs" using big False by (simp add: Let_def)
      then show ?thesis using Cons.IH [of "i + 1"] big rhs md by simp
    qed
  qed
qed

lemma concat_up_reads: "0 < n \<Longrightarrow> concat (up_reads n f) = f \<and> (\<forall>bs \<in> set (up_reads n f). bs \<noteq> [] \<and> length bs \<le> n)"
proof (induction n f rule: up_reads.induct)
  case (1 n f)
  show ?case
  proof (cases "f = []")
    case True
    then show ?thesis by (simp add: up_reads.simps)
  next
    case False
    let ?rest = "up_reads (length (take n f)) (drop n f)"
    have eq: "up_reads n f = take n f # ?rest"
      using False 1(2) by (subst up_reads.simps) (simp add: Let_def)
    have ne: "\<not> (f = [] \<or> n = 0)" "0 < length (take n f)" using False 1(2) by simp_all
    have IH: "concat ?rest = drop n f \<and> (\<forall>bs \<in> set ?rest. bs \<noteq> [] \<and> length bs \<le> length (take n f))"
      by (rule 1(1) [OF ne(1) refl ne(2)])
    have "length bs \<le> n" if "length bs \<le> length (take n f)" for bs :: string using that by simp
    with IH have rest: "\<forall>bs \<in> set ?rest. bs \<noteq> [] \<and> length bs \<le> n" by blast
    have "take n f \<noteq> []" "length (take n f) \<le> n" using ne by auto
    with rest have all: "\<forall>bs \<in> set (up_reads n f). bs \<noteq> [] \<and> length bs \<le> n"
      by (subst eq) (metis set_ConsD)
    have "concat (up_reads n f) = take n f @ concat ?rest" by (subst eq) (rule concat.simps(2))
    also have "\<dots> = f" by (subst conjunct1 [OF IH]) (rule append_take_drop_id)
    finally have "concat (up_reads n f) = f" .
    with all show ?thesis by blast
  qed
qed

lemma up_loop_all:
  assumes "\<forall>k < length parts. field0 (reply (count + k + 1)) = md5 (parts ! k)"
  shows "up_loop b64 md5 tag reply pfx count parts
    = map (\<lambda>k. up_cmd b64 pfx (count + k + 1) (parts ! k) (tag (count + k + 1))) [0..<length parts]
      @ [up_join pfx (count + length parts) (tag (count + length parts + 1))]"
  using assms
proof (induction parts arbitrary: count)
  case (Cons bs rest)
  have "\<forall>k < length rest. field0 (reply (Suc count + k + 1)) = md5 (rest ! k)"
    using Cons.prems by (metis Suc_eq_plus1 Suc_less_eq add_Suc add_Suc_right length_Cons nth_Cons_Suc)
  moreover have "field0 (reply (count + 1)) = md5 bs" using Cons.prems by force
  ultimately show ?case using Cons.IH [of "Suc count"]
    by (simp add: upt_rec [of 0] map_Suc_upt [symmetric] del: upt_Suc)
qed simp

text \<open>The log as an abstract machine: the text written while logging is on, of which the complete
  lines are printed. The relation between the text and the state of the writer.\<close>

fun logged_text :: "log_event list \<Rightarrow> string" where
  "logged_text [] = []"
| "logged_text (LogWrite toggle p # es) = (if toggle then p else []) @ logged_text es"
| "logged_text (CleanRound # es) = logged_text es"

definition log_rel :: "(string \<Rightarrow> string) \<Rightarrow> string \<Rightarrow> log_state \<Rightarrow> bool" where
  "log_rel fmt1 s l \<longleftrightarrow> newline \<notin> set (lg_pre l)
     \<and> (\<exists>ls. (\<forall>x \<in> set ls. newline \<notin> set x) \<and> lg_file l = concat (map (\<lambda>x. fmt1 (x @ [newline])) ls)
          \<and> s = concat (map (\<lambda>x. x @ [newline]) ls) @ lg_pre l @ lg_buf l)"

lemma log_rel_write:
  "log_rel fmt1 s l \<Longrightarrow> log_rel fmt1 (s @ (if toggle then p else [])) (log_write toggle False timestamp p l)"
  by (auto simp: log_rel_def log_write_def)

lemma takeWhile_to: "c \<notin> set a \<Longrightarrow> takeWhile (\<lambda>x. x \<noteq> c) (a @ c # b) = a"
  by (induction a) auto

lemma takeWhile_none: "c \<notin> set a \<Longrightarrow> takeWhile (\<lambda>x. x \<noteq> c) a = a"
  by (induction a) auto

text \<open>A round takes the rest of the buffer, or one line.\<close>

lemma clean_round_cases:
  obtains "newline \<notin> set (lg_buf l)" "clean_round fmt l = l\<lparr>lg_buf := [], lg_pre := lg_pre l @ lg_buf l\<rparr>"
  | a b where "lg_buf l = a @ newline # b" "newline \<notin> set a"
      "clean_round fmt l = l\<lparr>lg_buf := b, lg_pre := [], lg_file := lg_file l @ fmt (lg_pre l @ a @ [newline])\<rparr>"
proof (cases "newline \<in> set (lg_buf l)")
  case False
  obtain f b p where l: "l = \<lparr>lg_file = f, lg_buf = b, lg_pre = p\<rparr>" by (cases l)
  with False show thesis by (intro that(1) False) (simp add: clean_round_def takeWhile_none)
next
  case True
  then obtain a b where "lg_buf l = a @ newline # b" "newline \<notin> set a" by (auto dest: split_list_first)
  then show thesis by (intro that(2) [of a b]) (simp_all add: clean_round_def takeWhile_to)
qed

lemma log_rel_clean:
  assumes "log_rel fmt1 s l"
  shows "log_rel fmt1 s (clean_round fmt1 l)"
proof -
  from assms obtain ls where ls: "newline \<notin> set (lg_pre l)" "\<forall>x \<in> set ls. newline \<notin> set x"
      "lg_file l = concat (map (\<lambda>x. fmt1 (x @ [newline])) ls)"
      "s = concat (map (\<lambda>x. x @ [newline]) ls) @ lg_pre l @ lg_buf l"
    by (auto simp: log_rel_def)
  show ?thesis
  proof (cases l rule: clean_round_cases [where fmt = fmt1])
    case 1
    then show ?thesis using ls by (auto simp: log_rel_def)
  next
    case (2 a b)
    then show ?thesis using ls by (auto simp: log_rel_def intro!: exI [of _ "ls @ [lg_pre l @ a]"])
  qed
qed

lemma log_rel_run:
  "log_rel fmt1 s l \<Longrightarrow> log_rel fmt1 (s @ logged_text es) (log_run False timestamp fmt1 es l)"
proof (induction es arbitrary: s l)
  case (Cons e es)
  show ?case
  proof (cases e)
    case (LogWrite toggle p)
    then show ?thesis using Cons.IH [OF log_rel_write [OF Cons.prems, of toggle p timestamp]] by simp
  next
    case CleanRound
    then show ?thesis using Cons.IH [OF log_rel_clean [OF Cons.prems]] by simp
  qed
qed simp

text \<open>Rounds without writes shrink the buffer until it is empty.\<close>

lemma clean_shrinks: "length (lg_buf (clean_round fmt1 l)) \<le> length (lg_buf l) - 1"
  by (cases l rule: clean_round_cases [where fmt = fmt1]) auto

lemma rounds_empty_buffer:
  "length (lg_buf l) \<le> n \<Longrightarrow> lg_buf (log_run False timestamp fmt1 (replicate n CleanRound) l) = []"
proof (induction n arbitrary: l)
  case (Suc n)
  then show ?case using clean_shrinks [of fmt1 l] by simp
qed simp

lemma log_run_append:
  "log_run k t f (es @ es') l = log_run k t f es' (log_run k t f es l)"
proof (induction es arbitrary: l)
  case (Cons e es)
  then show ?case by (cases e) simp_all
qed simp

lemma logged_rounds: "logged_text (replicate n CleanRound) = []"
  by (induction n) auto

lemma split_on_complete_lines:
  "\<forall>x \<in> set ls. newline \<notin> set x \<Longrightarrow> newline \<notin> set r \<Longrightarrow>
   split_on newline (concat (map (\<lambda>x. x @ [newline]) ls) @ r) = ls @ [r]"
  by (induction ls) (auto simp: split_on_append split_on_absent)

lemma log_buffer_bound: "length (lg_buf (log_run False timestamp fmt1 es l)) \<le> length (lg_buf l) + length (logged_text es)"
proof (induction es arbitrary: l)
  case (Cons e es)
  show ?case
  proof (cases e)
    case (LogWrite toggle p)
    then show ?thesis using Cons.IH [of "log_write toggle False timestamp p l"] by (auto simp: log_write_def)
  next
    case CleanRound
    then show ?thesis using Cons.IH [of "clean_round fmt1 l"] clean_shrinks [of fmt1 l] by simp
  qed
qed simp

lemma log_run_no_file: "lg_file (log_run True True fmt1 es l) = lg_file l"
proof (induction es arbitrary: l)
  case (Cons e es)
  then show ?case by (cases e) (simp_all add: log_write_def)
qed simp

section \<open>Properties\<close>


definition demo_writer :: interrupt_writer where
  "demo_writer = \<lparr>iw_tag = ''T'', iw_time = 0, iw_buf = ''$ ''\<rparr>"



text \<open>Such a state is reached when the whole response comes in the read that takes the notification:
  it is stored without looking for the end tag, the command times out, and the next output (here a
  prompt, three seconds later) completes the capture.\<close>

definition demo_capture :: term_sys where
  "demo_capture = term_init\<lparr>t_iw := \<lparr>iw_tag = ''T'', iw_time = 0, iw_buf = ''open:T'' @ crlf @ ''hi'' @ crlf @ ''close:T'' @ crlf\<rparr>,
     t_reader := RWaiting 3000\<rparr>"

definition demo_frozen :: term_sys where
  "demo_frozen = term_init\<lparr>t_iw := \<lparr>iw_tag = [], iw_time = 0, iw_buf = []\<rparr>, t_now := 3000,
     t_results := [None], t_writer := WSending ''hi''\<rparr>"

lemma demo_capture_read:
  "iw_read 3000 None ''$ '' (t_iw demo_capture) = Done (\<lparr>iw_tag = [], iw_time = 0, iw_buf = []\<rparr>, [], Some ''hi'')"
proof -
  have "clearTag ''T'' ((''open:T'' @ crlf @ ''hi'' @ crlf @ ''close:T'' @ crlf) @ ''$ '') = Done (trim_space (''hi'' @ crlf), True)"
    by (simp add: clearTag_def crlf_def go_slice_def open_tag_def close_tag_def)
  then show ?thesis
    by (simp add: iw_read_def demo_capture_def capturing_def contains_def crlf_def close_tag_def
        trim_space_ascii ascii_def space_char_def)
qed

lemma demo_frozen_reached: "term_step\<^sup>*\<^sup>* term_init demo_frozen"
proof -
  let ?s1 = "term_init\<lparr>t_reader := RNotifying ''T'' 3000\<rparr>"
  let ?s3 = "demo_capture\<lparr>t_now := 3000\<rparr>"
  let ?s4 = "?s3\<lparr>t_reader := RIdle, t_results := [None]\<rparr>"
  have 1: "term_step term_init ?s1"
    by (rule term_step.exec) (simp_all add: term_init_def)
  have 2: "term_step ?s1 demo_capture"
    using term_step.got_output [of ?s1 "''open:T'' @ crlf @ ''hi'' @ crlf @ ''close:T'' @ crlf"
        "t_iw demo_capture" "[]" None]
    by (simp add: term_init_def demo_capture_def iw_read_def capturing_def pending_tag_def notified_def)
  have 3: "term_step demo_capture ?s3"
    using term_step.tick [of demo_capture 3000] by (simp add: demo_capture_def term_init_def)
  have 4: "term_step ?s3 ?s4"
    using term_step.timeout [of ?s3 3000] by (simp add: demo_capture_def term_init_def)
  have 5: "term_step ?s4 demo_frozen"
    using term_step.got_output [of ?s4 "''$ ''" "\<lparr>iw_tag = [], iw_time = 0, iw_buf = []\<rparr>" "[]" "Some ''hi''"]
      demo_capture_read
    by (simp add: pending_tag_def notified_def demo_frozen_def demo_capture_def term_init_def)
  from 1 2 3 4 5 show ?thesis by (meson r_into_rtranclp rtranclp_trans)
qed


text \<open>Keep-alive closes the session exactly when that many requests in a row have failed; a
  success in between starts the count again.\<close>

theorem SendKeepAlive_iff:
  "SendKeepAlive (keepalive_max c) 0 rs \<longleftrightarrow> sublist (replicate (keepalive_max c) False) rs"
proof -
  have "0 < keepalive_max c" by (simp add: keepalive_max_def)
  from keepalive_run [OF this, of rs] show ?thesis by (auto dest: prefix_imp_sublist)
qed



text \<open>With time stamps and the codes kept, nothing is ever logged: the writes go to a buffer that
  only the clean-up goroutine empties, and it is not started.\<close>

theorem stamped_log_stays_empty:
  "lg_file (log_run True True fmt1 es l) = lg_file l"
  by (rule log_run_no_file)

text \<open>A local command ends the program unless a terminal log was set up: then only a line with a
  field is dispatched, and pressing Enter on an empty line panics, too.\<close>

theorem local_command_panics_iff:
  "local_command anyOf ul logging line = Panic \<longleftrightarrow> \<not> (logging \<and> go_fields line \<noteq> [])"
  by (cases "go_fields line") (simp_all add: local_command_def go_index_def Let_def)



end
