(* ===== verification/Sshlib_Conn.thy ===== *)
theory Sshlib_Conn
  imports Sshlib_Net
begin

text \<open>
  src/sshlib: the settings and the first bytes of a connection (\<open>CreateClient\<close> in connect.go)
  and the fan-out of the log writers (shell.go). The library
  functions of x/crypto/ssh are arguments.
\<close>

section \<open>Connections (connect.go)\<close>

datatype host_key_check = VerifyAndAppendNew "string list" | InsecureIgnoreHostKey

record client_config =
  cc_User :: string
  cc_Timeout :: int
  cc_HostKey :: host_key_check
  cc_Ciphers :: "string list"
  cc_MACs :: "string list"
  cc_KeyExchanges :: "string list"

definition env_list :: "string \<Rightarrow> string list" where
  "env_list env = (if env \<noteq> [] then split_on CHR '','' env else [])"

text \<open>The configuration \<open>CreateClient\<close> builds; \<open>environ\<close> is \<open>os.Getenv\<close>.\<close>

definition client_conf :: "(string \<Rightarrow> string) \<Rightarrow> string \<Rightarrow> int \<Rightarrow> bool \<Rightarrow> string list \<Rightarrow> client_config" where
  "client_conf environ user connectTimeout checkKnownHosts knownHostsFiles =
     \<lparr>cc_User = user, cc_Timeout = (if connectTimeout > 0 then connectTimeout else 20),
       cc_HostKey = (if checkKnownHosts
         then VerifyAndAppendNew (if knownHostsFiles = [] then [''~'' @ [slash] @ ''.ssh'' @ [slash] @ ''known_hosts''] else knownHostsFiles)
         else InsecureIgnoreHostKey),
       cc_Ciphers = env_list (environ ''SSH_CIPHER''), cc_MACs = env_list (environ ''SSH_MAC''),
       cc_KeyExchanges = env_list (environ ''SSH_KEX'')\<rparr>"

datatype conn_event = DialTo string | WriteTarget string | Handshake string client_config

text \<open>
  \<open>CreateClient\<close>: the events up to the first error; \<open>dial\<close>, \<open>wr\<close> and
  \<open>newConn\<close> give the errors. \<open>targetInfo\<close> is \<open>CreateTargetInfo\<close> applied to the
  bridge settings.
\<close>

fun write_targets :: "(string \<Rightarrow> string option) \<Rightarrow> string list \<Rightarrow> conn_event list \<times> string option" where
  "write_targets wr [] = ([], None)"
| "write_targets wr (t # ts) =
     (case wr t of
        Some e \<Rightarrow> ([WriteTarget t], Some e)
      | None \<Rightarrow> (let (es, err) = write_targets wr ts in (WriteTarget t # es, err)))"

definition CreateClient ::
  "(string \<Rightarrow> (string list \<times> string) outcome) \<Rightarrow> (string \<Rightarrow> string option) \<Rightarrow> (string \<Rightarrow> string option)
   \<Rightarrow> (string \<Rightarrow> string option) \<Rightarrow> client_config \<Rightarrow> string \<Rightarrow> string \<Rightarrow> (conn_event list \<times> string option) outcome" where
  "CreateClient targetInfo dial wr newConn cc host port =
     obind (targetInfo (join_host_port host port)) (\<lambda>(targets, uri).
       Done (case dial uri of
         Some e \<Rightarrow> ([DialTo uri], Some e)
       | None \<Rightarrow>
           (case write_targets wr targets of
              (es, Some e) \<Rightarrow> (DialTo uri # es, Some e)
            | (es, None) \<Rightarrow> (DialTo uri # es @ [Handshake uri cc], newConn uri))))"

text \<open>\<open>CheckClientAlive\<close> on the error of its request.\<close>

definition CheckClientAlive :: "string option \<Rightarrow> string option" where
  "CheckClientAlive err = (if err = None \<or> err = Some ''request failed'' then None else err)"

section \<open>Log writers (shell.go)\<close>

text \<open>\<open>withLogWriters\<close> flattens log writers; \<open>Write\<close> stops at the first error and
  checks the length of the first writer only.\<close>

definition withLogWriters :: "('w + 'w list) list \<Rightarrow> 'w list" where
  "withLogWriters ws = concat (map (\<lambda>w. case w of Inl x \<Rightarrow> [x] | Inr xs \<Rightarrow> xs) ws)"

datatype write_err = WriterErr string | ErrShortWrite

fun log_writers_loop :: "nat \<Rightarrow> nat \<Rightarrow> (nat \<times> string option) list \<Rightarrow> nat \<times> write_err option \<times> nat" where
  "log_writers_loop len i [] = (len, None, i)"
| "log_writers_loop len i ((n, err) # ws) =
     (case err of
        Some e \<Rightarrow> (n, Some (WriterErr e), Suc i)
      | None \<Rightarrow> if i = 0 \<and> n \<noteq> len then (n, Some ErrShortWrite, Suc i) else log_writers_loop len (Suc i) ws)"

section \<open>Facts\<close>

lemma write_targets_ok:
  "\<forall>t \<in> set ts. wr t = None \<Longrightarrow> write_targets wr ts = (map WriteTarget ts, None)"
  by (induction ts) simp_all

section \<open>Properties\<close>

text \<open>A connection through bridges dials the first one, sends it the others and then the server
  as targets in that order, and starts the handshake on that connection.\<close>

theorem CreateClient_through_bridges:
  assumes "split_host_port (join_host_port host port) = Some (host, port)"
    and "\<forall>x xs. anyOf x xs \<longleftrightarrow> x \<in> set xs" and "host \<noteq> ''127.0.0.1''" and "host \<noteq> ''localhost''"
    and "createBrgProxies hash confBrg = Done (b # bs)" and "confBrg \<noteq> ''0''" and "confBrg \<noteq> []"
    and "dial b = None" and "\<forall>t. wr t = None"
  shows "CreateClient (\<lambda>uri. CreateTargetInfo anyOf hash [] brg targets uri confBrg) dial wr newConn cc host port
    = Done (DialTo b # map (\<lambda>x. WriteTarget (''TARGET '' @ x @ '';'')) (bs @ [join_host_port host port]) @ [Handshake b cc],
            newConn b)"
  using assms
  by (simp add: CreateClient_def CreateTargetInfo_def target_line_def write_targets_ok comp_def)

definition demo_cc :: client_config where
  "demo_cc = client_conf (\<lambda>_. []) ''bob'' 0 False []"

lemma CreateClient_through_bridges_witness:
  "CreateClient (\<lambda>uri. CreateTargetInfo (\<lambda>x xs. x \<in> set xs) (\<lambda>_. 0) [] [] Map.empty uri '':1000,h:22'')
     (\<lambda>_. None) (\<lambda>_. None) (\<lambda>_. None) demo_cc ''web'' ''22''
   = Done (DialTo ''127.0.0.1:1000'' # map (\<lambda>x. WriteTarget (''TARGET '' @ x @ '';'')) [''h:22'', ''web:22'']
       @ [Handshake ''127.0.0.1:1000'' demo_cc], None)"
proof -
  have "createBrgProxies (\<lambda>_. 0) '':1000,h:22'' = Done [''127.0.0.1:1000'', ''h:22'']"
    by (simp add: createBrgProxies_def brg_part_def split_host_port_def is_letter_def byte_def)
  moreover have "split_host_port (join_host_port ''web'' ''22'') = Some (''web'', ''22'')"
    by (rule split_join_host_port) simp_all
  ultimately show ?thesis
    using CreateClient_through_bridges [where host = "''web''" and port = "''22''" and b = "''127.0.0.1:1000''" and bs = "[''h:22'']"
        and confBrg = "'':1000,h:22''" and hash = "\<lambda>_. 0" and anyOf = "\<lambda>x xs. x \<in> set xs" and brg = "[]"
        and targets = Map.empty and dial = "\<lambda>_. None" and wr = "\<lambda>_. None" and newConn = "\<lambda>_. None" and cc = demo_cc]
    by (simp add: join_host_port_def)
qed

end
