(* ===== verification/Sshlib_Session.thy ===== *)
theory Sshlib_Session
  imports Sshlib_Term
begin

text \<open>
  src/sshlib/shell.go, cmd.go, and the pty of src/sshlib/connect.go: what a session does between making the
  terminal raw and restoring it, as the sequence of its actions. Which action fails is the argument
  \<open>fails\<close> (\<open>Some e\<close> for the error \<open>e\<close>).
\<close>

datatype sess_event =
    MakeRaw
  | RestoreTerm
  | InterruptPipes int
  | OpenLog string
  | GetSize
  | RequestPty string nat
  | CloseSession
  | WatchResize
  | X11Forward
  | ForwardSshAgent
  | StartShell
  | StartCommand string
  | KeepAlive
  | TypeInput string
  | PauseMs int
  | WaitPrompt
  | Execute string
  | UpdateHostInfo string
  | WaitSession
  | CreateSession
  | PipeStream nat
  | OwnStream nat
  | RunCommand string

type_synonym fails = "sess_event \<Rightarrow> string option"
type_synonym sess_run = "sess_event list \<times> string option"

record connect_flags =
  cf_logging :: bool
  cf_logFile :: string
  cf_ForwardX11 :: bool
  cf_ForwardAgent :: bool

section \<open>Sequencing\<close>

text \<open>An action whose error is returned, one whose error is only printed, and the sequence of two
  runs that stops at the first error.\<close>

definition must :: "fails \<Rightarrow> sess_event \<Rightarrow> sess_run" where
  "must fails ev = ([ev], fails ev)"

definition may :: "sess_event \<Rightarrow> sess_run" where
  "may ev = ([ev], None)"

definition only_if :: "bool \<Rightarrow> sess_run \<Rightarrow> sess_run" where
  "only_if b r = (if b then r else ([], None))"

definition seq :: "sess_run \<Rightarrow> sess_run \<Rightarrow> sess_run" where
  "seq r q = (case r of (es, Some e) \<Rightarrow> (es, Some e) | (es, None) \<Rightarrow> (es @ fst q, snd q))"

text \<open>\<open>MakeRaw\<close> with the deferred \<open>Restore\<close>.\<close>

definition in_raw :: "fails \<Rightarrow> sess_run \<Rightarrow> sess_run" where
  "in_raw fails r =
     (case fails MakeRaw of
        Some e \<Rightarrow> ([MakeRaw], Some e)
      | None \<Rightarrow> (MakeRaw # fst r @ [RestoreTerm], snd r))"

section \<open>The set-up\<close>

text \<open>\<open>RequestTty\<close>: a refused pty closes the session.\<close>

definition RequestTty :: "fails \<Rightarrow> string \<Rightarrow> nat \<Rightarrow> sess_run" where
  "RequestTty fails tmv echo =
     seq (must fails GetSize)
       (let ev = RequestPty (if tmv = [] then ''xterm'' else tmv) echo in
        case fails ev of
          Some e \<Rightarrow> ([ev, CloseSession], Some e)
        | None \<Rightarrow> ([ev, WatchResize], None))"

text \<open>
  The size of the pty: \<open>RequestTty\<close> reads the size of the terminal and asks for a pty of it; from
  then on every change of the terminal is a signal in a channel for one, and the goroutine takes it,
  reads the size and passes it on. With \<open>early\<close> the terminal may also change between the reading and
  the registration of the signal, when nobody is told.
\<close>

datatype resize_phase = AskSize | AskPty "nat \<times> nat" | AwaitSignal | SizeWanted | SizeRead "nat \<times> nat"

record resize_sys =
  rz_term :: "nat \<times> nat"
  rz_pty :: "nat \<times> nat"
  rz_pending :: bool
  rz_phase :: resize_phase

inductive resize_step :: "bool \<Rightarrow> resize_sys \<Rightarrow> resize_sys \<Rightarrow> bool" for early :: bool where
  get_size: "rz_phase s = AskSize \<Longrightarrow> resize_step early s (s\<lparr>rz_phase := AskPty (rz_term s)\<rparr>)"
| get_pty: "rz_phase s = AskPty z \<Longrightarrow> resize_step early s (s\<lparr>rz_pty := z, rz_phase := AwaitSignal\<rparr>)"
| changed_early: "early \<Longrightarrow> rz_phase s = AskPty y \<Longrightarrow> resize_step early s (s\<lparr>rz_term := z\<rparr>)"
| changed: "rz_phase s \<noteq> AskSize \<Longrightarrow> \<forall>y. rz_phase s \<noteq> AskPty y \<Longrightarrow>
    resize_step early s (s\<lparr>rz_term := z, rz_pending := True\<rparr>)"
| take_signal: "rz_phase s = AwaitSignal \<Longrightarrow> rz_pending s \<Longrightarrow>
    resize_step early s (s\<lparr>rz_pending := False, rz_phase := SizeWanted\<rparr>)"
| read_size: "rz_phase s = SizeWanted \<Longrightarrow> resize_step early s (s\<lparr>rz_phase := SizeRead (rz_term s)\<rparr>)"
| window_change: "rz_phase s = SizeRead z \<Longrightarrow> resize_step early s (s\<lparr>rz_pty := z, rz_phase := AwaitSignal\<rparr>)"

inductive_cases resize_stepE: "resize_step early s t"

definition resize_start :: "nat \<times> nat \<Rightarrow> resize_sys" where
  "resize_start z = \<lparr>rz_term = z, rz_pty = (0, 0), rz_pending = False, rz_phase = AskSize\<rparr>"

definition setupShell :: "fails \<Rightarrow> connect_flags \<Rightarrow> string \<Rightarrow> nat \<Rightarrow> int \<Rightarrow> sess_run" where
  "setupShell fails cf tmv echo webPort =
     seq (may (InterruptPipes webPort))
       (seq (only_if (cf_logging cf) (may (OpenLog (cf_logFile cf))))
         (seq (RequestTty fails tmv echo)
           (seq (only_if (cf_ForwardX11 cf) (may X11Forward))
                (only_if (cf_ForwardAgent cf) (may ForwardSshAgent)))))"

section \<open>Sessions\<close>

text \<open>The initial input, with a pause between two commands.\<close>

text \<open>
  \<open>InitialPromptReadyChecker\<close>: the goroutine that copies the output stores that a prompt was
  seen and then tries to send on an unbuffered channel; \<open>Wait\<close> loads the flag, and when it is
  not set, receives from the channel until its time-out, after which it loads the flag again.
\<close>

datatype waiter = WaitBegin | WaitChecked | WaitSelecting | WaitDone bool
datatype notifier = NotifyIdle | NotifyStored

record prompt_sys =
  pr_ready :: bool
  pr_waiter :: waiter
  pr_notifier :: notifier

inductive prompt_step :: "prompt_sys \<Rightarrow> prompt_sys \<Rightarrow> bool" where
  read_prompt: "\<not> pr_ready s \<Longrightarrow> pr_notifier s = NotifyIdle \<Longrightarrow> BytesHasSuffix p [''# '', ''$ ''] \<Longrightarrow>
    prompt_step s (s\<lparr>pr_ready := True, pr_notifier := NotifyStored\<rparr>)"
| send: "pr_notifier s = NotifyStored \<Longrightarrow> pr_waiter s = WaitSelecting \<Longrightarrow>
    prompt_step s (s\<lparr>pr_notifier := NotifyIdle, pr_waiter := WaitDone True\<rparr>)"
| not_sent: "pr_notifier s = NotifyStored \<Longrightarrow> pr_waiter s \<noteq> WaitSelecting \<Longrightarrow> prompt_step s (s\<lparr>pr_notifier := NotifyIdle\<rparr>)"
| load: "pr_waiter s = WaitBegin \<Longrightarrow>
    prompt_step s (s\<lparr>pr_waiter := (if pr_ready s then WaitDone True else WaitChecked)\<rparr>)"
| select: "pr_waiter s = WaitChecked \<Longrightarrow> prompt_step s (s\<lparr>pr_waiter := WaitSelecting\<rparr>)"
| time_out: "pr_waiter s = WaitSelecting \<Longrightarrow> prompt_step s (s\<lparr>pr_waiter := WaitDone (pr_ready s)\<rparr>)"

inductive_cases prompt_stepE: "prompt_step s t"

definition prompt_start :: prompt_sys where
  "prompt_start = \<lparr>pr_ready = False, pr_waiter = WaitBegin, pr_notifier = NotifyIdle\<rparr>"

interpretation prompt: stepping prompt_step "\<lambda>s. (pr_notifier s = NotifyStored \<longrightarrow> pr_ready s) \<and> (pr_waiter s = WaitDone True \<longrightarrow> pr_ready s)"
  by unfold_locales (auto elim!: prompt_stepE split: if_splits)

text \<open>A wait that says yes has a prompt behind it.\<close>

lemma Wait_sound: "prompt_step\<^sup>*\<^sup>* prompt_start s \<Longrightarrow> pr_waiter s = WaitDone True \<Longrightarrow> pr_ready s"
  using prompt.steps_inv [of prompt_start s] by (simp add: prompt_start_def)

text \<open>The wake-up can be lost: a prompt between the load and the receive is only seen at the time-out.\<close>

interpretation missed: stepping prompt_step
  "\<lambda>s. pr_ready s \<and> pr_notifier s = NotifyIdle \<and> pr_waiter s \<in> {WaitChecked, WaitSelecting, WaitDone True}"
  by unfold_locales (auto elim!: prompt_stepE split: if_splits)

lemma wake_up_lost:
  "\<exists>s. prompt_step\<^sup>*\<^sup>* prompt_start s \<and> pr_ready s \<and> pr_waiter s = WaitSelecting
     \<and> (\<forall>t. prompt_step s t \<longrightarrow> t = s\<lparr>pr_waiter := WaitDone True\<rparr>)"
proof -
  let ?a = "prompt_start\<lparr>pr_waiter := WaitChecked\<rparr>"
  let ?b = "?a\<lparr>pr_ready := True, pr_notifier := NotifyStored\<rparr>"
  let ?c = "?b\<lparr>pr_notifier := NotifyIdle\<rparr>"
  let ?d = "?c\<lparr>pr_waiter := WaitSelecting\<rparr>"
  have "prompt_step prompt_start ?a" using prompt_step.load [of prompt_start] by (simp add: prompt_start_def)
  moreover have "prompt_step ?a ?b"
    by (rule prompt_step.read_prompt [of _ "''$ ''"]) (simp_all add: prompt_start_def BytesHasSuffix_def has_suffix_def)
  moreover have "prompt_step ?b ?c" by (rule prompt_step.not_sent) simp_all
  moreover have "prompt_step ?c ?d" by (rule prompt_step.select) simp
  ultimately have "prompt_step\<^sup>*\<^sup>* prompt_start ?d" by (meson converse_rtranclp_into_rtranclp rtranclp.rtrancl_refl)
  moreover have "\<forall>t. prompt_step ?d t \<longrightarrow> t = ?d\<lparr>pr_waiter := WaitDone True\<rparr>" by (auto elim!: prompt_stepE)
  ultimately show ?thesis by (rule_tac exI [of _ ?d]) simp
qed

definition initial_pause :: "int \<Rightarrow> int" where
  "initial_pause sleep = (if sleep = 0 then 250 else sleep)"

fun type_inputs :: "int \<Rightarrow> nat \<Rightarrow> string list \<Rightarrow> sess_event list" where
  "type_inputs pause i [] = []"
| "type_inputs pause i (cmd # cmds) =
     (if i > 0 then [PauseMs pause] else []) @ (if cmd \<noteq> [] then [TypeInput cmd] else [])
     @ type_inputs pause (Suc i) cmds"

text \<open>The host information: \<open>prompt\<close> is whether the prompt was seen in time and
  \<open>info\<close> the response without line ends.\<close>

definition drop_line_ends :: "string \<Rightarrow> string" where
  "drop_line_ends s = filter (\<lambda>c. c \<noteq> newline \<and> c \<noteq> CHR 0x0D) s"

definition host_info_run :: "bool \<Rightarrow> string \<Rightarrow> bool \<Rightarrow> string \<Rightarrow> sess_event list" where
  "host_info_run enabled script prompt response =
     (if enabled \<and> script \<noteq> [] then
        WaitPrompt # (if prompt then
          Execute script # (if drop_line_ends response \<noteq> [] then [UpdateHostInfo (drop_line_ends response)] else [])
        else [])
      else [])"

definition ShellInitial ::
  "fails \<Rightarrow> connect_flags \<Rightarrow> string \<Rightarrow> nat \<Rightarrow> string list \<Rightarrow> int \<Rightarrow> int \<Rightarrow> bool \<Rightarrow> string \<Rightarrow> bool \<Rightarrow> string \<Rightarrow> sess_run" where
  "ShellInitial fails cf tmv echo inputs sleep webPort hostInfoAuto script prompt response =
     in_raw fails
       (seq (setupShell fails cf tmv echo webPort)
         (seq (must fails StartShell)
           (seq (KeepAlive # type_inputs (initial_pause sleep) 0 inputs @ host_info_run hostInfoAuto script prompt response, None)
                (must fails WaitSession))))"

definition Shell :: "fails \<Rightarrow> connect_flags \<Rightarrow> string \<Rightarrow> nat \<Rightarrow> sess_run" where
  "Shell fails cf tmv echo =
     in_raw fails
       (seq (setupShell fails cf tmv echo 0)
         (seq (must fails StartShell) (seq (may KeepAlive) (must fails WaitSession))))"

definition CmdShell :: "fails \<Rightarrow> connect_flags \<Rightarrow> string \<Rightarrow> nat \<Rightarrow> string \<Rightarrow> sess_run" where
  "CmdShell fails cf tmv echo command =
     in_raw fails
       (seq (setupShell fails cf tmv echo 0)
         (seq (must fails (StartCommand command)) (seq (may KeepAlive) (must fails WaitSession))))"

section \<open>Commands (cmd.go)\<close>

text \<open>\<open>setOption\<close>: only the error of the pty is returned.\<close>

definition setOption :: "fails \<Rightarrow> bool \<Rightarrow> connect_flags \<Rightarrow> string \<Rightarrow> nat \<Rightarrow> sess_run" where
  "setOption fails tty cf tmv echo =
     seq (only_if tty (RequestTty fails tmv echo))
       (seq (only_if (cf_ForwardAgent cf) (may ForwardSshAgent)) (only_if (cf_ForwardX11 cf) (may X11Forward)))"

text \<open>The streams 0, 1 and 2 of the session: copied through a pipe to the one that was set, or those of
  the process.\<close>

definition set_stream :: "bool \<Rightarrow> nat \<Rightarrow> sess_event" where
  "set_stream given n = (if given then PipeStream n else OwnStream n)"

text \<open>\<open>Command\<close>: the error of the run is dropped. Afterwards the connection has no session.\<close>

definition Command :: "fails \<Rightarrow> bool \<Rightarrow> bool \<Rightarrow> connect_flags \<Rightarrow> string \<Rightarrow> nat \<Rightarrow> bool \<times> bool \<times> bool \<Rightarrow> string \<Rightarrow> sess_run" where
  "Command fails hasSession tty cf tmv echo given command =
     (case given of (stdin, stdout, stderr) \<Rightarrow>
       seq (only_if (\<not> hasSession) (must fails CreateSession))
         (seq (setOption fails tty cf tmv echo)
           ([set_stream stdin 0, set_stream stdout 1, set_stream stderr 2, RunCommand command], None)))"

section \<open>Facts\<close>

text \<open>What was typed into the session.\<close>

fun typed :: "sess_event list \<Rightarrow> string list" where
  "typed [] = []"
| "typed (TypeInput s # es) = s # typed es"
| "typed (e # es) = typed es"

lemma typed_append [simp]: "typed (xs @ ys) = typed xs @ typed ys"
  by (induction xs rule: typed.induct) auto

lemma typed_type_inputs: "typed (type_inputs pause i cmds) = filter (\<lambda>c. c \<noteq> []) cmds"
  by (induction pause i cmds rule: type_inputs.induct) auto

lemma typed_host_info [simp]: "typed (host_info_run enabled script prompt response) = []"
  by (simp add: host_info_run_def)

lemma typed_setup [simp]: "typed (fst (setupShell fails cf tmv echo webPort)) = []"
  by (auto simp: setupShell_def RequestTty_def seq_def must_def may_def only_if_def Let_def split: option.splits)

lemma in_raw_restores:
  "fails MakeRaw = None \<Longrightarrow> hd (fst (in_raw fails r)) = MakeRaw \<and> last (fst (in_raw fails r)) = RestoreTerm \<and> snd (in_raw fails r) = snd r"
  by (simp add: in_raw_def)

lemma setup_error: "snd (setupShell fails cf tmv echo webPort) =
    (if fails GetSize \<noteq> None then fails GetSize
     else fails (RequestPty (if tmv = [] then ''xterm'' else tmv) echo))"
  by (simp add: setupShell_def RequestTty_def seq_def must_def may_def only_if_def Let_def split: option.splits)

text \<open>No change of the terminal is lost in the channel for one signal: whenever the goroutine waits
  with nothing pending, the pty has the size of the terminal. A change during the set-up is lost.\<close>

definition resize_inv :: "resize_sys \<Rightarrow> bool" where
  "resize_inv s \<longleftrightarrow>
     (case rz_phase s of
        AskSize \<Rightarrow> True
      | AskPty z \<Rightarrow> z = rz_term s
      | AwaitSignal \<Rightarrow> rz_pending s \<or> rz_pty s = rz_term s
      | SizeWanted \<Rightarrow> True
      | SizeRead z \<Rightarrow> rz_pending s \<or> z = rz_term s)"

interpretation rz: stepping "resize_step False" resize_inv
  by unfold_locales (auto elim!: resize_stepE simp: resize_inv_def split: resize_phase.splits)

lemma resize_followed:
  "(resize_step False)\<^sup>*\<^sup>* (resize_start z) s \<Longrightarrow> rz_phase s = AwaitSignal \<Longrightarrow> \<not> rz_pending s \<Longrightarrow> rz_pty s = rz_term s"
  using rz.steps_inv [of "resize_start z" s] by (simp add: resize_inv_def resize_start_def)

lemma early_resize_lost:
  assumes "y \<noteq> z"
  shows "\<exists>s. (resize_step True)\<^sup>*\<^sup>* (resize_start z) s \<and> rz_phase s = AwaitSignal \<and> \<not> rz_pending s \<and> rz_pty s \<noteq> rz_term s"
proof -
  let ?a = "(resize_start z)\<lparr>rz_phase := AskPty z\<rparr>"
  let ?b = "?a\<lparr>rz_term := y\<rparr>"
  let ?c = "?b\<lparr>rz_pty := z, rz_phase := AwaitSignal\<rparr>"
  have "resize_step True (resize_start z) ?a"
    using resize_step.get_size [of "resize_start z" True] by (simp add: resize_start_def)
  moreover have "resize_step True ?a ?b" by (rule resize_step.changed_early) simp_all
  moreover have "resize_step True ?b ?c" by (rule resize_step.get_pty) simp
  ultimately have "(resize_step True)\<^sup>*\<^sup>* (resize_start z) ?c"
    by (meson converse_rtranclp_into_rtranclp rtranclp.rtrancl_refl)
  then show ?thesis using assms by (intro exI [of _ ?c]) (simp add: resize_start_def)
qed

section \<open>Properties\<close>

text \<open>A login session types exactly the non-empty initial commands, in their order, when the
  set-up and the start of the shell succeed, and nothing otherwise; once the terminal is raw it is
  restored at the end, with or without an error.\<close>

theorem ShellInitial_types_inputs:
  "typed (fst (ShellInitial fails cf tmv echo inputs sleep webPort hostInfoAuto script prompt response)) =
     (if fails MakeRaw = None \<and> snd (setupShell fails cf tmv echo webPort) = None \<and> fails StartShell = None
      then filter (\<lambda>c. c \<noteq> []) inputs else [])
   \<and> last (fst (ShellInitial fails cf tmv echo inputs sleep webPort hostInfoAuto script prompt response)) =
     (if fails MakeRaw = None then RestoreTerm else MakeRaw)"
proof -
  obtain es err where s: "setupShell fails cf tmv echo webPort = (es, err)" by fastforce
  then have "typed es = []" using typed_setup [of fails cf tmv echo webPort] by simp
  then show ?thesis
    by (auto simp: ShellInitial_def in_raw_def seq_def must_def s typed_type_inputs split: option.splits)
qed

text \<open>A command that fails on the host is not reported: whether its run has an error makes no
  difference to the actions and the result, which is an error exactly when the session or its pty
  cannot be had; in all other cases the command is run, as the last action.\<close>

theorem Command_result:
  "Command fails hasSession tty cf tmv echo given command = Command (fails(RunCommand command := e)) hasSession tty cf tmv echo given command
   \<and> snd (Command fails hasSession tty cf tmv echo given command) =
       (if \<not> hasSession \<and> fails CreateSession \<noteq> None then fails CreateSession
        else if \<not> tty then None
        else if fails GetSize \<noteq> None then fails GetSize
        else fails (RequestPty (if tmv = [] then ''xterm'' else tmv) echo))
   \<and> (snd (Command fails hasSession tty cf tmv echo given command) = None) =
       (last (fst (Command fails hasSession tty cf tmv echo given command)) = RunCommand command)"
  by (cases given; cases "fails CreateSession"; cases "fails GetSize";
      cases "fails (RequestPty (if tmv = [] then ''xterm'' else tmv) echo)")
    (auto simp: Command_def setOption_def RequestTty_def seq_def must_def may_def only_if_def Let_def)

end
