(* ===== verification/Scp.thy ===== *)
theory Scp
  imports Common
begin

text \<open>
  src/scp/main.go: copies between hosts as the operations issued on the sftp clients and the local
  file system, in order. What the file systems answer (walks, file information, contents, which
  operation fails) is an argument; the clients run in parallel, each with its own operations.
\<close>

record scp_info =
  si_IsRemote :: bool
  si_Server :: "string list"
  si_Path :: "string list"

datatype file_op =
    MkdirAll string
  | Mkdir string
  | OpenFile string
  | WriteFile string string
  | Chmod string nat

datatype copy_kind = ViaPush | Pull | Push | Nothing

definition copy_kind_of :: "scp_info \<Rightarrow> scp_info \<Rightarrow> copy_kind" where
  "copy_kind_of from_info to_info =
     (if si_IsRemote from_info \<and> si_IsRemote to_info then ViaPush
      else if si_IsRemote from_info then Pull
      else if si_IsRemote to_info then Push
      else Nothing)"

text \<open>The servers whose authentication methods \<open>Start\<close> prepares.\<close>

definition start_servers :: "scp_info \<Rightarrow> scp_info \<Rightarrow> string list" where
  "start_servers from_info to_info = si_Server to_info @ si_Server from_info"

section \<open>Push\<close>

text \<open>\<open>pushFile\<close>: the operations up to the first failure and whether all succeeded.\<close>

fun run_ops :: "(file_op \<Rightarrow> bool) \<Rightarrow> file_op list \<Rightarrow> file_op list \<times> bool" where
  "run_ops ok [] = ([], True)"
| "run_ops ok (x # xs) = (if ok x then (let (ys, r) = run_ops ok xs in (x # ys, r)) else ([x], False))"

definition pushFile :: "(file_op \<Rightarrow> bool) \<Rightarrow> string \<Rightarrow> string \<Rightarrow> file_op list \<times> bool" where
  "pushFile ok path content =
     run_ops ok [MkdirAll (path_dir path), OpenFile path, WriteFile path content]"

record local_fs =
  lf_lstat :: "string \<Rightarrow> (bool \<times> nat) option"
  lf_open :: "string \<Rightarrow> string option"

text \<open>The remote path of a local one; an error of \<open>Rel\<close> gives an empty relative path.\<close>

definition remote_path :: "string \<Rightarrow> string \<Rightarrow> string \<Rightarrow> string" where
  "remote_path to base path =
     path_join [to, case path_rel base path of Some r \<Rightarrow> r | None \<Rightarrow> []]"

text \<open>\<open>pushPath\<close>: a failing \<open>Lstat\<close> gives a nil file information, which is used.\<close>

definition pushPath ::
  "local_fs \<Rightarrow> (file_op \<Rightarrow> bool) \<Rightarrow> string \<Rightarrow> string \<Rightarrow> string \<Rightarrow> file_op list outcome" where
  "pushPath fs ok to base path =
     (let rpath = remote_path to base path in
      case lf_lstat fs path of
        None \<Rightarrow> Panic
      | Some (isDir, mode) \<Rightarrow> Done (
          if isDir then fst (run_ops ok [MkdirAll rpath, Chmod rpath mode])
          else (case lf_open fs path of
                  None \<Rightarrow> []
                | Some content \<Rightarrow>
                    (case pushFile ok rpath content of
                       (ops, True) \<Rightarrow> ops @ [Chmod rpath mode]
                     | (ops, False) \<Rightarrow> ops))))"

fun push_paths :: "local_fs \<Rightarrow> (file_op \<Rightarrow> bool) \<Rightarrow> string \<Rightarrow> (string \<times> string) list \<Rightarrow> file_op list outcome" where
  "push_paths fs ok to [] = Done []"
| "push_paths fs ok to ((base, path) # ps) =
     obind (pushPath fs ok to base path) (\<lambda>ops. obind (push_paths fs ok to ps) (\<lambda>rest. Done (ops @ rest)))"

text \<open>The walked paths of each argument with its base; an argument that cannot be walked is left out.\<close>

definition push_set :: "(string \<Rightarrow> fnode option) \<Rightarrow> string list \<Rightarrow> (string \<times> string) list" where
  "push_set tree paths =
     concat (map (\<lambda>p. case WalkDir p (tree p) of
                        None \<Rightarrow> []
                      | Some data \<Rightarrow> map (\<lambda>x. (path_dir p, x)) (sort data)) paths)"

text \<open>\<open>push\<close> for the connected \<open>clients\<close>: the operations on each.\<close>

definition push ::
  "local_fs \<Rightarrow> (string \<Rightarrow> fnode option) \<Rightarrow> (string \<Rightarrow> file_op \<Rightarrow> bool) \<Rightarrow> scp_info \<Rightarrow> scp_info \<Rightarrow> string list
   \<Rightarrow> (string \<times> file_op list outcome) list" where
  "push fs tree ok from_info to_info clients =
     (if si_Path to_info = [] then map (\<lambda>c. (c, Panic)) clients
      else map (\<lambda>c. (c, push_paths fs (ok c) (hd (si_Path to_info)) (push_set tree (si_Path from_info)))) clients)"

section \<open>Remote to remote\<close>

text \<open>
  A step of the walk on the source: an error, or a path with its kind; for a file that opens, the
  chunks its reader gives and, for each chunk, the index of the client whose goroutine read it. The
  goroutines of all targets share one reader.
\<close>

record via_entry =
  ve_err :: bool
  ve_path :: string
  ve_isDir :: bool
  ve_chunks :: "string list option"
  ve_sched :: "nat list"

definition shared_read :: "nat list \<Rightarrow> string list \<Rightarrow> nat \<Rightarrow> string" where
  "shared_read sched chunks i = concat (map snd (filter (\<lambda>(k, chunk). k = i) (zip sched chunks)))"

definition viaPushEntry :: "(file_op \<Rightarrow> bool) \<Rightarrow> string \<Rightarrow> nat \<Rightarrow> via_entry \<Rightarrow> file_op list" where
  "viaPushEntry ok root i e =
     (if ve_err e \<or> IsHidden root (ve_path e) then []
      else if ve_isDir e then [Mkdir (ve_path e)]
      else (case ve_chunks e of
              None \<Rightarrow> []
            | Some chunks \<Rightarrow> fst (pushFile ok (ve_path e) (shared_read (ve_sched e) chunks i))))"

definition viaPushPath :: "(file_op \<Rightarrow> bool) \<Rightarrow> string \<Rightarrow> nat \<Rightarrow> via_entry list \<Rightarrow> file_op list" where
  "viaPushPath ok root i es = concat (map (viaPushEntry ok root i) es)"

text \<open>\<open>viaPush\<close>: the source is the first server; nothing when it or every target fails.\<close>

definition viaPush ::
  "(string \<Rightarrow> via_entry list) \<Rightarrow> (string \<Rightarrow> bool) \<Rightarrow> (nat \<Rightarrow> file_op \<Rightarrow> bool) \<Rightarrow> scp_info \<Rightarrow> string list
   \<Rightarrow> file_op list list outcome" where
  "viaPush walked connects ok from_info tclients =
     obind (go_index (si_Server from_info) 0) (\<lambda>f.
       Done (if \<not> connects f \<or> tclients = [] then []
             else map (\<lambda>i. concat (map (\<lambda>path. viaPushPath (ok i) path i (walked path)) (si_Path from_info)))
                    [0..<length tclients]))"

section \<open>Pull\<close>

text \<open>\<open>tryEvalPath\<close>: the path itself, the target of a dangling link, or the matches.\<close>

definition tryEvalPath :: "(string \<Rightarrow> bool) \<Rightarrow> (string \<Rightarrow> string option) \<Rightarrow> (string \<Rightarrow> string list option) \<Rightarrow> string \<Rightarrow> string list option" where
  "tryEvalPath stat readLink glob path =
     (if stat path then Some [path]
      else case readLink path of
        Some p \<Rightarrow> Some [path_join [path_dir path, p]]
      | None \<Rightarrow> glob path)"

record pull_entry =
  pe_err :: bool
  pe_path :: string
  pe_isDir :: bool
  pe_mode :: nat
  pe_content :: "string option"

text \<open>The base directory of a client, and the operations on the local file system for one entry
  (\<open>createFile\<close> for a file).\<close>

definition pull_base :: "(string \<Rightarrow> string) \<Rightarrow> string \<Rightarrow> string \<Rightarrow> string list \<Rightarrow> string \<Rightarrow> string" where
  "pull_base expandHome cwd to servers server =
     path_abs cwd (if length servers > 1 then path_join [expandHome to, server] else expandHome to)"

definition local_path :: "string \<Rightarrow> string \<Rightarrow> string \<Rightarrow> string" where
  "local_path baseDir remoteBase p =
     path_join [baseDir, case path_rel remoteBase p of Some r \<Rightarrow> r | None \<Rightarrow> []]"

definition createFile :: "(file_op \<Rightarrow> bool) \<Rightarrow> string option \<Rightarrow> string \<Rightarrow> file_op list" where
  "createFile ok opened lpath =
     (case opened of
        None \<Rightarrow> []
      | Some content \<Rightarrow> fst (run_ops ok [OpenFile lpath, WriteFile lpath content]))"

definition pullEntry :: "(file_op \<Rightarrow> bool) \<Rightarrow> string \<Rightarrow> string \<Rightarrow> pull_entry \<Rightarrow> file_op list" where
  "pullEntry ok baseDir remoteBase e =
     (if pe_err e \<or> IsHidden remoteBase (pe_path e) then []
      else let lpath = local_path baseDir remoteBase (pe_path e) in
           (if pe_isDir e then [MkdirAll lpath]
            else createFile ok (pe_content e) lpath)
           @ [Chmod lpath (pe_mode e)])"

definition pullPath ::
  "(file_op \<Rightarrow> bool) \<Rightarrow> (string \<Rightarrow> string list option) \<Rightarrow> (string \<Rightarrow> pull_entry list) \<Rightarrow> string \<Rightarrow> string list \<Rightarrow> file_op list" where
  "pullPath ok evalPath walked baseDir paths =
     concat (map (\<lambda>path. case evalPath path of
                          None \<Rightarrow> []
                        | Some gps \<Rightarrow> concat (map (\<lambda>gp. concat (map (pullEntry ok baseDir (path_dir gp)) (walked gp))) gps))
              paths)"

definition pull ::
  "(string \<Rightarrow> string) \<Rightarrow> string \<Rightarrow> (file_op \<Rightarrow> bool) \<Rightarrow> (string \<Rightarrow> string \<Rightarrow> string list option)
   \<Rightarrow> (string \<Rightarrow> string \<Rightarrow> pull_entry list) \<Rightarrow> scp_info \<Rightarrow> scp_info \<Rightarrow> string list \<Rightarrow> (string \<times> file_op list outcome) list" where
  "pull expandHome cwd ok evalPath walked from_info to_info clients =
     map (\<lambda>c. (c, obind (go_index (si_Path to_info) 0) (\<lambda>to.
       let baseDir = pull_base expandHome cwd to (si_Server from_info) c
       in Done ((if length (si_Server from_info) > 1 then [MkdirAll (path_join [expandHome to, c])] else [])
                @ pullPath ok (evalPath c) (walked c) baseDir (si_Path from_info))))) clients"

text \<open>\<open>createScpConnects\<close>: the servers with a connection and an sftp client.\<close>

definition createScpConnects :: "(string \<Rightarrow> bool) \<Rightarrow> (string \<Rightarrow> bool) \<Rightarrow> string list \<Rightarrow> string list" where
  "createScpConnects connects client_ok targets = filter (\<lambda>s. connects s \<and> client_ok s) targets"

section \<open>Facts\<close>

lemma remote_path_render:
  assumes "plain bs" and "plain ts" and "plain xs" and "xs \<noteq> []"
  shows "remote_path (path_render r ts) (path_render q bs) (path_render q (bs @ xs)) = path_render r (ts @ xs)"
  using assms by (simp add: remote_path_def path_rel_render path_join_render)

lemma local_path_render:
  assumes "plain bs" and "plain ts" and "plain xs" and "xs \<noteq> []"
  shows "local_path (path_render r ts) (path_render q bs) (path_render q (bs @ xs)) = path_render r (ts @ xs)"
  using assms by (simp add: local_path_def path_rel_render path_join_render)

lemma render_inj:
  assumes "path_render r xs = path_render r ys" and "plain xs" and "plain ys"
  shows "xs = ys"
  using assms path_comps_render plainD(1) by metis

lemma shared_read_length:
  assumes "i \<noteq> j"
  shows "length (shared_read sched chunks i) + length (shared_read sched chunks j) \<le> length (concat chunks)"
proof (induction sched chunks rule: list_induct2')
  case (4 k sched c chunks)
  then show ?case using assms by (auto simp: shared_read_def)
qed (simp_all add: shared_read_def)

section \<open>Properties\<close>

text \<open>The file an operation works on.\<close>

fun op_path :: "file_op \<Rightarrow> string" where
  "op_path (MkdirAll p) = p"
| "op_path (Mkdir p) = p"
| "op_path (OpenFile p) = p"
| "op_path (WriteFile p content) = p"
| "op_path (Chmod p mode) = p"

lemma set_run_ops: "set (fst (run_ops ok xs)) \<subseteq> set xs"
  by (induction xs) (auto split: prod.splits)

lemma run_ops_all: "\<forall>x \<in> set xs. ok x \<Longrightarrow> run_ops ok xs = (xs, True)"
  by (induction xs) auto

lemma op_path_pullEntry:
  "x \<in> set (pullEntry ok baseDir remoteBase e) \<Longrightarrow> op_path x = local_path baseDir remoteBase (pe_path e)"
  by (auto simp: pullEntry_def createFile_def Let_def split: option.splits if_splits dest!: subsetD [OF set_run_ops])

text \<open>Everything under a pulled hidden path is skipped, also when the path itself was asked for.\<close>

lemma pullEntry_hidden: "IsHidden remoteBase (pe_path e) \<Longrightarrow> pullEntry ok baseDir remoteBase e = []"
  by (simp add: pullEntry_def createFile_def)

text \<open>C10 Push to a directory: a readable regular file at \<open>bs/xs\<close>, walked under an argument
  whose parent is \<open>bs\<close>, is written with its content and mode at \<open>to/xs\<close>, its directory
  is made first, and nothing else happens for it.\<close>

theorem push_places_file:
  assumes "plain bs" and "plain ts" and "plain xs" and "xs \<noteq> []"
    and "lf_lstat fs (path_render q (bs @ xs)) = Some (False, mode)"
    and "lf_open fs (path_render q (bs @ xs)) = Some content"
    and "\<forall>x. ok x"
  shows "pushPath fs ok (path_render r ts) (path_render q bs) (path_render q (bs @ xs)) =
    Done (let p = path_render r (ts @ xs) in [MkdirAll (path_dir p), OpenFile p, WriteFile p content, Chmod p mode])"
  using assms by (simp add: pushPath_def remote_path_render pushFile_def run_ops_all Let_def)

definition demo_fs :: local_fs where
  "demo_fs = \<lparr>lf_lstat = (\<lambda>p. if p = ''/home/u/a/b'' then Some (False, 420) else None),
     lf_open = (\<lambda>p. Some ''data'')\<rparr>"

lemma push_places_file_witness:
  "pushPath demo_fs (\<lambda>x. True) ''/srv'' ''/home/u'' ''/home/u/a/b'' =
    Done (let p = ''/srv/a/b'' in [MkdirAll (path_dir p), OpenFile p, WriteFile p ''data'', Chmod p 420])"
  using push_places_file [of "[''home'', ''u'']" "[''srv'']" "[''a'', ''b'']" demo_fs True 420 "''data''" "\<lambda>x. True" True]
  by (simp add: path_render_def plain_def good_comp_def demo_fs_def)

text \<open>C11 A copy between remote hosts with several targets: the goroutines of the targets share one
  reader of the source file, so of two targets at most one receives the whole of a file that is not
  empty, whatever the schedule.\<close>

theorem viaPush_targets_share_reader:
  assumes "ve_chunks e = Some chunks" and "concat chunks \<noteq> []" and "i \<noteq> j"
  shows "\<not> (WriteFile (ve_path e) (concat chunks) \<in> set (viaPushEntry ok root i e)
    \<and> WriteFile (ve_path e) (concat chunks) \<in> set (viaPushEntry ok' root j e))"
proof -
  have only: "WriteFile (ve_path e) c \<in> set (viaPushEntry ok'' root k e) \<Longrightarrow> c = shared_read (ve_sched e) chunks k" for k c ok''
    using assms(1) by (auto simp: viaPushEntry_def pushFile_def split: if_splits dest!: subsetD [OF set_run_ops])
  have "\<not> (shared_read (ve_sched e) chunks i = concat chunks \<and> shared_read (ve_sched e) chunks j = concat chunks)"
    using shared_read_length [OF assms(3), of "ve_sched e" chunks] assms(2) by auto
  with only show ?thesis by metis
qed

definition demo_via :: via_entry where
  "demo_via = \<lparr>ve_err = False, ve_path = ''/f'', ve_isDir = False, ve_chunks = Some [''ab'', ''cd''], ve_sched = [0, 1]\<rparr>"

lemma viaPush_targets_share_reader_witness:
  "viaPushEntry (\<lambda>x. True) ''/'' 1 demo_via \<noteq> []
   \<and> \<not> (WriteFile ''/f'' ''abcd'' \<in> set (viaPushEntry (\<lambda>x. True) ''/'' 0 demo_via)
      \<and> WriteFile ''/f'' ''abcd'' \<in> set (viaPushEntry (\<lambda>x. True) ''/'' 1 demo_via))"
proof
  show "viaPushEntry (\<lambda>x. True) ''/'' 1 demo_via \<noteq> []" by code_simp
  show "\<not> (WriteFile ''/f'' ''abcd'' \<in> set (viaPushEntry (\<lambda>x. True) ''/'' 0 demo_via)
      \<and> WriteFile ''/f'' ''abcd'' \<in> set (viaPushEntry (\<lambda>x. True) ''/'' 1 demo_via))"
    using viaPush_targets_share_reader [of demo_via "[''ab'', ''cd'']" 0 1 "\<lambda>x. True" "''/''" "\<lambda>x. True"]
    by (simp add: demo_via_def)
qed


definition demo_pull :: pull_entry where
  "demo_pull = \<lparr>pe_err = False, pe_path = ''/etc/f'', pe_isDir = True, pe_mode = 493, pe_content = None\<rparr>"


end
