(* ===== verification/Ssh_Keys.thy ===== *)
theory Ssh_Keys
  imports Common
begin

text \<open>
  src/ssh/keys.go: the names of keys and the translation of a text with keys in braces into the
  groups of bytes that are typed into a shell.
\<close>

section \<open>Keys\<close>

text \<open>The constants by their place in the block, the control keys first; those from \<open>KeyUnknown\<close>
  on lie in the surrogate area.\<close>

definition key_const :: "nat \<Rightarrow> nat" where
  "key_const i =
     (if i \<le> 26 then 1 + i else if i = 27 then byte CHR ''['' else if i = 28 then byte CHR '']''
      else if i = 29 then 10 else if i = 30 then 127 else 55296 + i)"

definition KeyUnknown :: nat where
  "KeyUnknown = key_const 31"

definition ctrl_keys :: "(string \<times> nat) list" where
  "ctrl_keys =
     zip (map (\<lambda>c. ''c-'' @ [c]) ''abcdefghijklmnopqrstuvwxyz'') (map key_const [0..<26])
     @ zip (map (\<lambda>c. ''Ctrl'' @ [c]) ''ABCDEFGHIJKLMNOPQRSTUVWXYZ'') (map key_const [0..<26])"

definition named_keys :: "(string \<times> nat) list" where
  "named_keys = [(''Escape'', key_const 26), (''LeftBracket'', key_const 27), (''RightBracket'', key_const 28),
     (''Enter'', key_const 29), (''N'', key_const 29), (''Backspace'', key_const 30)]"

definition pseudo_keys :: "(string \<times> nat) list" where
  "pseudo_keys = zip [''Up'', ''Down'', ''Left'', ''Right'', ''Home'', ''End'', ''PasteStart'', ''PasteEnd'',
      ''Insert'', ''Del'', ''PgUp'', ''PgDn'', ''Pause'', ''F1'', ''F2'', ''F3'', ''F4'', ''F5'', ''F6'', ''F7'',
      ''F8'', ''F9'', ''F10'', ''F11'', ''F12''] (map key_const [32..<57])"

definition KeyText :: "(string \<times> nat) list" where
  "KeyText = ctrl_keys @ named_keys @ pseudo_keys"

section \<open>Translation\<close>

text \<open>\<open>strings.EqualFold\<close>; \<open>fold1\<close> gives the representative of a rune under simple case
  folding. No two names of the table are equal under it, so the order of the search is irrelevant.\<close>

definition equal_fold :: "(nat \<Rightarrow> nat) \<Rightarrow> string \<Rightarrow> string \<Rightarrow> bool" where
  "equal_fold fold1 s t \<longleftrightarrow> map fold1 (to_runes s) = map fold1 (to_runes t)"

definition find_key :: "(nat \<Rightarrow> nat) \<Rightarrow> string \<Rightarrow> nat option" where
  "find_key fold1 key = map_option snd (find (\<lambda>(k, v). equal_fold fold1 k key) KeyText)"

text \<open>The repetition in front of a key name: \<open>Atoi\<close> gives the largest integer out of range.\<close>

definition key_count :: "string \<Rightarrow> nat" where
  "key_count numStr =
     (if numStr = [] then 1 else case digits_val 10 numStr of Some n \<Rightarrow> min n (2 ^ 63 - 1) | None \<Rightarrow> 0)"

text \<open>The groups of the text between two braces.\<close>

definition key_groups :: "(nat \<Rightarrow> nat) \<Rightarrow> string \<Rightarrow> string list" where
  "key_groups fold1 inner =
     (let rawKey = trim_space inner;
          numStr = takeWhile is_digit rawKey
      in if rawKey = ''-'' then [[]]
         else case find_key fold1 (drop (length numStr) rawKey) of
                Some v \<Rightarrow> replicate (key_count numStr) (encode_rune v)
              | None \<Rightarrow> [rawKey])"

function ConvertKeys :: "(nat \<Rightarrow> nat) \<Rightarrow> string \<Rightarrow> string list" where
  "ConvertKeys fold1 s =
     (if s = [] then []
      else case (str_index ''{'' s, str_index ''}'' s) of
        (Some start, Some stop) \<Rightarrow>
          if start > stop then [s]
          else (if start > 0 then [take start s] else [])
               @ key_groups fold1 (take (stop - start - 1) (drop (start + 1) s))
               @ ConvertKeys fold1 (drop (stop + 1) s)
      | _ \<Rightarrow> [s])"
  by pat_completeness auto
termination
  by (relation "measure (\<lambda>(fold1, s). length s)") auto

declare ConvertKeys.simps [simp del]

section \<open>Facts\<close>

lemma str_index_char: "c \<notin> set a \<Longrightarrow> str_index [c] (a @ c # b) = Some (length a)"
  by (induction a) auto

lemma index_char_absent: "c \<notin> set a \<Longrightarrow> str_index [c] a = None"
  by (auto simp: str_index_None_iff dest: set_mono_sublist)

text \<open>Text without an opening brace is typed as it is.\<close>

lemma ConvertKeys_plain:
  assumes "CHR ''{'' \<notin> set s" and "s \<noteq> []"
  shows "ConvertKeys fold1 s = [s]"
  by (subst ConvertKeys.simps) (simp add: assms index_char_absent)

lemma ConvertKeys_step:
  assumes "CHR ''{'' \<notin> set t" and "CHR ''}'' \<notin> set t" and "CHR ''}'' \<notin> set k"
  shows "ConvertKeys fold1 (t @ CHR ''{'' # k @ CHR ''}'' # rest) =
    (if t = [] then [] else [t]) @ key_groups fold1 k @ ConvertKeys fold1 rest"
proof -
  have "str_index ''}'' (t @ CHR ''{'' # k @ CHR ''}'' # rest) = Some (length t + Suc (length k))"
    using str_index_char [of "CHR ''}''" "t @ CHR ''{'' # k" rest] assms by simp
  moreover have "str_index ''{'' (t @ CHR ''{'' # k @ CHR ''}'' # rest) = Some (length t)"
    by (rule str_index_char [OF assms(1)])
  ultimately show ?thesis
    by (subst ConvertKeys.simps) simp
qed

text \<open>Every pseudo key is encoded as U+FFFD.\<close>

lemma pseudo_key_bytes: "v \<in> snd ` set pseudo_keys \<Longrightarrow> encode_rune v = enc3 rune_error"
proof (rule encode_rune_invalid)
  assume "v \<in> snd ` set pseudo_keys"
  then have "v \<in> set (map key_const [32..<57])"
    by (auto simp: pseudo_keys_def dest: set_zip_rightD)
  then show "\<not> valid_rune v" by (auto simp: valid_rune_def key_const_def)
qed

lemma to_runes_ascii: "ascii s \<Longrightarrow> to_runes s = map byte s"
  by (simp add: to_runes_def runes_ascii)

lemmas key_eval = key_groups_def find_key_def KeyText_def ctrl_keys_def named_keys_def pseudo_keys_def
  equal_fold_def to_runes_ascii ascii_def trim_space_ascii byte_def ascii_lower_def is_digit_def space_char_def
  upt_conv_Cons KeyUnknown_def key_const_def

lemma enc_ctrl: "encode_rune 10 = [newline]" "encode_rune 3 = [CHR 0x03]"
  by code_simp+

lemma key_enter: "key_groups ascii_lower ''enter'' = [[newline]]"
  by (simp add: key_eval key_count_def enc_ctrl)

lemma key_count_two: "key_count ''2'' = 2"
  by (simp add: key_count_def digits_val_def digit_val_def is_digit_def byte_def)

lemma key_ctrl_c: "key_groups ascii_lower ''2c-c'' = [[CHR 0x03], [CHR 0x03]]"
  using key_count_two enc_ctrl(2) by (simp add: key_eval) (simp add: numeral_2_eq_2 numeral_3_eq_3)

lemma key_up: "find_key ascii_lower ''Up'' = Some (KeyUnknown + 1)"
  by (simp add: key_eval)

lemma key_f12: "find_key ascii_lower ''f12'' = Some (KeyUnknown + 25)"
  by (simp add: key_eval)

section \<open>Properties\<close>

text \<open>The translation is compositional: a text without braces, a key in braces and a rest give
  the text (if any), the groups of the key, and the groups of the rest.\<close>

theorem ConvertKeys_compositional:
  assumes "CHR ''{'' \<notin> set t" and "CHR ''}'' \<notin> set t" and "CHR ''}'' \<notin> set k"
  shows "ConvertKeys fold1 (t @ CHR ''{'' # k @ CHR ''}'' # rest) =
    (if t = [] then [] else [t]) @ key_groups fold1 k @ ConvertKeys fold1 rest"
  using assms by (rule ConvertKeys_step)

lemma ConvertKeys_compositional_witness:
  "ConvertKeys ascii_lower ''ls{enter}{2c-c}x'' = [''ls'', [newline], [CHR 0x03], [CHR 0x03], ''x'']"
  using ConvertKeys_compositional [of "''ls''" "''enter''" ascii_lower "''{2c-c}x''"]
    ConvertKeys_step [of "[]" "''2c-c''" ascii_lower "''x''"] ConvertKeys_plain [of "''x''" ascii_lower]
  by (simp add: key_enter key_ctrl_c)

text \<open>Keys without an ASCII code cannot be told apart: every two of the names \<open>Up\<close>,
  \<open>Down\<close>, \<open>Home\<close>, \<open>F1\<close> and so on give the same bytes, those of the
  replacement character, wherever they stand in a text.\<close>

theorem pseudo_keys_indistinguishable:
  assumes "find_key fold1 k = Some v" and "find_key fold1 k' = Some v'"
    and "v \<in> snd ` set pseudo_keys" and "v' \<in> snd ` set pseudo_keys"
    and "CHR ''}'' \<notin> set k" and "CHR ''}'' \<notin> set k'"
    and "trim_space k = k" and "trim_space k' = k'" and "k \<noteq> ''-''" and "k' \<noteq> ''-''"
    and "takeWhile is_digit k = []" and "takeWhile is_digit k' = []"
    and "CHR ''{'' \<notin> set t" and "CHR ''}'' \<notin> set t"
  shows "ConvertKeys fold1 (t @ CHR ''{'' # k @ CHR ''}'' # rest) = ConvertKeys fold1 (t @ CHR ''{'' # k' @ CHR ''}'' # rest)"
proof -
  have "key_groups fold1 k = [enc3 rune_error]" "key_groups fold1 k' = [enc3 rune_error]"
    using assms by (simp_all add: key_groups_def key_count_def pseudo_key_bytes)
  then show ?thesis using assms by (simp add: ConvertKeys_step)
qed

lemma pseudo_keys_indistinguishable_witness:
  "ConvertKeys ascii_lower ''vi{Up}x'' = ConvertKeys ascii_lower ''vi{f12}x''"
  using pseudo_keys_indistinguishable [of ascii_lower "''Up''" "KeyUnknown + 1" "''f12''" "KeyUnknown + 25" "''vi''" "''x''"]
  by (simp add: key_up key_f12 pseudo_keys_def upt_conv_Cons KeyUnknown_def key_const_def trim_space_ascii ascii_def space_char_def is_digit_def byte_def)

end
