(* ===== verification/List_Text.thy ===== *)
theory List_Text
  imports List_View
begin

text \<open>
  src/list/list.go (\<open>getText\<close>, \<open>View\<close>) and the cells src/list/draw.go puts on the
  terminal. The column layout of \<open>text/tabwriter\<close> is written out for the writer the code sets up
  (left-aligned, padding of two blanks); text with form feeds is left out.
\<close>

section \<open>Columns\<close>

definition tab :: char where
  "tab = CHR 0x09"

definition line_end :: char where
  "line_end = CHR 0x0A"

text \<open>A cell belongs to a column when a tab ends it; the last cell of a line does not. A column is a run
  of adjacent lines with a cell there, as wide as its widest cell and the padding.\<close>

definition has_cell :: "nat \<Rightarrow> string list \<Rightarrow> bool" where
  "has_cell j cs \<longleftrightarrow> Suc j < length cs"

definition cell_width :: "string \<Rightarrow> nat" where
  "cell_width c = length (runes c)"

definition column_block :: "string list list \<Rightarrow> nat \<Rightarrow> nat \<Rightarrow> string list list" where
  "column_block ls i j = rev (takeWhile (has_cell j) (rev (take i ls))) @ takeWhile (has_cell j) (drop i ls)"

definition column_width :: "string list list \<Rightarrow> nat \<Rightarrow> nat \<Rightarrow> nat" where
  "column_width ls i j = foldr (\<lambda>cs w. max (cell_width (cs ! j) + 2) w) (column_block ls i j) 0"

definition pad_cell :: "nat \<Rightarrow> string \<Rightarrow> string" where
  "pad_cell w c = c @ replicate (w - cell_width c) CHR '' ''"

definition tab_line :: "string list list \<Rightarrow> nat \<Rightarrow> string" where
  "tab_line ls i =
     (let cs = ls ! i
      in concat (map (\<lambda>j. pad_cell (column_width ls i j) (cs ! j)) [0..<length cs - 1]) @ last cs)"

definition tab_lines :: "string list \<Rightarrow> string list" where
  "tab_lines texts = (let ls = map (split_on tab) texts in map (tab_line ls) [0..<length ls])"

text \<open>\<open>getText\<close>: the title and the rows through the writer, line by line with the line end; a row
  with a line end in it gives several lines.\<close>

definition getText :: "(string \<Rightarrow> string) \<Rightarrow> info \<Rightarrow> info" where
  "getText rowFn l =
     (let texts = concat (map (split_on line_end) (Title l # map rowFn (NameList l)))
      in l\<lparr>DataText := DataText l
              @ map (\<lambda>line. replace_all (line @ [line_end]) [tab] '' '') (tab_lines texts)\<rparr>)"

text \<open>\<open>View\<close>: the text and the event loop.\<close>

definition View :: "(nat \<Rightarrow> nat) \<Rightarrow> (string \<Rightarrow> string) \<Rightarrow> int \<Rightarrow> (int \<times> event) list \<Rightarrow> info \<Rightarrow> step_result outcome" where
  "View ul rowFn th es l = obind (key_init ul th (getText rowFn l)) (key_run ul es)"

section \<open>Cells (draw.go)\<close>

text \<open>A cell with its rune and its two colours; \<open>rw\<close> is the width of a rune.\<close>

record screen_cell =
  ce_x :: int
  ce_y :: int
  ce_rune :: nat
  ce_color :: int
  ce_back :: int

fun draw_runes :: "(nat \<Rightarrow> nat) \<Rightarrow> int \<Rightarrow> int \<Rightarrow> nat list \<Rightarrow> int \<Rightarrow> int \<Rightarrow> screen_cell list" where
  "draw_runes rw x y [] color back = []"
| "draw_runes rw x y (r # rs) color back =
     \<lparr>ce_x = x, ce_y = y, ce_rune = r, ce_color = color + 1, ce_back = back + 1\<rparr>
     # draw_runes rw (x + int (rw r)) y rs color back"

definition drawLine :: "(nat \<Rightarrow> nat) \<Rightarrow> int \<Rightarrow> int \<Rightarrow> string \<Rightarrow> int \<Rightarrow> int \<Rightarrow> screen_cell list" where
  "drawLine rw x y str color back = draw_runes rw x y (to_runes str) color back"

definition text_width :: "(nat \<Rightarrow> nat) \<Rightarrow> string \<Rightarrow> nat" where
  "text_width rw s = sum_list (map rw (to_runes s))"

lemma index_drop_less: "sub \<noteq> [] \<Longrightarrow> i + length sub \<le> length s \<Longrightarrow> length s - (i + length sub) < length s"
  by (cases sub) simp_all

text \<open>\<open>strings.Count\<close> for a non-empty word.\<close>

function str_count :: "string \<Rightarrow> string \<Rightarrow> nat" where
  "str_count sub s =
     (if sub = [] then 0
      else case str_index sub s of
        None \<Rightarrow> 0
      | Some i \<Rightarrow> Suc (str_count sub (drop (i + length sub) s)))"
  by pat_completeness auto
termination
  by (relation "measure (\<lambda>(sub, s). length s)") (auto dest!: str_index_SomeD intro!: index_drop_less)

declare str_count.simps [simp del]

text \<open>
  The loop of \<open>drawFilterLine\<close> for one word: the column offset and the text of each highlighted
  part. The place found in the lower-cased rest is used in the text itself.
\<close>

fun highlight_loop :: "(nat \<Rightarrow> nat) \<Rightarrow> (nat \<Rightarrow> nat) \<Rightarrow> string \<Rightarrow> string \<Rightarrow> nat \<Rightarrow> int \<Rightarrow> (nat \<times> string) list outcome" where
  "highlight_loop ul rw str searchKeyword 0 charLocation = Done []"
| "highlight_loop ul rw str searchKeyword (Suc n) charLocation =
     obind (if charLocation < int (length str) then go_slice str charLocation (int (length str)) else Done [])
       (\<lambda>searchLineData.
          let loc = charLocation + go_pos (str_index searchKeyword (to_lower ul searchLineData));
              klen = int (length searchKeyword)
          in obind (if loc < int (length str) then go_slice str loc (loc + klen) else Done []) (\<lambda>keyword.
             obind (go_slice str 0 loc) (\<lambda>multibyteStrCheckLine.
             obind (highlight_loop ul rw str searchKeyword n (loc + klen)) (\<lambda>rest.
               Done ((text_width rw multibyteStrCheckLine, keyword) # rest)))))"

definition highlight_word :: "(nat \<Rightarrow> nat) \<Rightarrow> (nat \<Rightarrow> nat) \<Rightarrow> string \<Rightarrow> string \<Rightarrow> (nat \<times> string) list outcome" where
  "highlight_word ul rw str word =
     (let searchKeyword = to_lower ul word
      in highlight_loop ul rw str searchKeyword (str_count searchKeyword (to_lower ul str)) 0)"

fun highlights :: "(nat \<Rightarrow> nat) \<Rightarrow> (nat \<Rightarrow> nat) \<Rightarrow> string \<Rightarrow> string list \<Rightarrow> (nat \<times> string) list outcome" where
  "highlights ul rw str [] = Done []"
| "highlights ul rw str (w # ws) =
     obind (highlight_word ul rw str w) (\<lambda>hs. obind (highlights ul rw str ws) (\<lambda>rest. Done (hs @ rest)))"

definition drawFilterLine ::
  "(nat \<Rightarrow> nat) \<Rightarrow> (nat \<Rightarrow> nat) \<Rightarrow> int \<Rightarrow> int \<Rightarrow> string \<Rightarrow> int \<Rightarrow> int \<Rightarrow> string \<Rightarrow> screen_cell list outcome" where
  "drawFilterLine ul rw x y str backColorNum keywordColorNum searchText =
     obind (highlights ul rw str (go_fields searchText)) (\<lambda>hs.
       Done (concat (map (\<lambda>(d, keyword). drawLine rw (x + int d) y keyword keywordColorNum backColorNum) hs)))"

text \<open>The rows of a page: the colours of a row, and \<open>%-1000s\<close>.\<close>

definition padded :: "string \<Rightarrow> string" where
  "padded s = s @ replicate (1000 - cell_width s) CHR '' ''"

definition row_colors :: "string list \<Rightarrow> int \<Rightarrow> int \<Rightarrow> string \<Rightarrow> int \<times> int" where
  "row_colors selectName cursor listKey listValue =
     (if listKey = cursor then (0, 2)
      else if hd (split_on CHR '' '' listValue) \<in> set selectName then (0, 6)
      else (255, 255))"

definition drawViewRow :: "(nat \<Rightarrow> nat) \<Rightarrow> (nat \<Rightarrow> nat) \<Rightarrow> info \<Rightarrow> int \<Rightarrow> int \<Rightarrow> string \<Rightarrow> screen_cell list outcome" where
  "drawViewRow ul rw l cursor listKey listValue =
     (let (color, back) = row_colors (SelectName l) cursor listKey listValue; paddingData = padded listValue
      in obind (drawFilterLine ul rw 2 (listKey + headLine) paddingData back 5 (Keyword l)) (\<lambda>hl.
           Done (drawLine rw 2 (listKey + headLine) paddingData color back @ hl)))"

fun drawViewList :: "(nat \<Rightarrow> nat) \<Rightarrow> (nat \<Rightarrow> nat) \<Rightarrow> info \<Rightarrow> int \<Rightarrow> int \<Rightarrow> string list \<Rightarrow> screen_cell list outcome" where
  "drawViewList ul rw l cursor listKey [] = Done []"
| "drawViewList ul rw l cursor listKey (v # vs) =
     obind (drawViewRow ul rw l cursor listKey v) (\<lambda>row.
     obind (drawViewList ul rw l cursor (listKey + 1) vs) (\<lambda>rows. Done (row @ rows)))"

definition drawViewHead :: "(nat \<Rightarrow> nat) \<Rightarrow> info \<Rightarrow> screen_cell list outcome" where
  "drawViewHead rw l =
     obind (go_index (ViewText l) 0) (\<lambda>head.
       Done (drawLine rw 0 0 (Prompt l) 3 255
             @ drawLine rw (int (length (Prompt l))) 0 (Keyword l) 255 255
             @ drawLine rw 2 1 head 3 255))"

definition cursor_column :: "(nat \<Rightarrow> nat) \<Rightarrow> info \<Rightarrow> int" where
  "cursor_column rw l = int (length (Prompt l)) + int (text_width rw (Keyword l))"

section \<open>Highlighting\<close>

text \<open>The places of the non-overlapping occurrences of a word, from the left.\<close>

function occurrences :: "string \<Rightarrow> string \<Rightarrow> nat list" where
  "occurrences sub s =
     (if sub = [] then []
      else case str_index sub s of
        None \<Rightarrow> []
      | Some i \<Rightarrow> i # map (\<lambda>p. i + length sub + p) (occurrences sub (drop (i + length sub) s)))"
  by pat_completeness auto
termination
  by (relation "measure (\<lambda>(sub, s). length s)") (auto dest!: str_index_SomeD intro!: index_drop_less)

declare occurrences.simps [simp del]

lemma to_lower_agree:
  assumes "ascii s" and "\<forall>r < 128. ul r = ascii_lower r"
  shows "to_lower ul s = map lower_char s"
proof -
  have m: "map ul (to_runes s) = map ascii_lower (to_runes s)"
    using assms by (auto simp: to_runes_def runes_ascii) (auto simp: ascii_def list_all_iff byte_ascii)
  show ?thesis using to_lower_ascii [OF assms(1)] by (simp only: to_lower_def map_runes_def m)
qed

lemma ascii_drop: "ascii s \<Longrightarrow> ascii (drop n s)"
  by (auto simp: ascii_def list_all_iff dest: in_set_dropD)

lemma highlight_loop_ascii:
  assumes "ascii str" and "\<forall>r < 128. ul r = ascii_lower r" and "key \<noteq> []" and "loc \<le> length str"
  shows "highlight_loop ul rw str key (str_count key (map lower_char (drop loc str))) (int loc) =
     Done (map (\<lambda>p. (text_width rw (take (loc + p) str), take (length key) (drop (loc + p) str)))
             (occurrences key (map lower_char (drop loc str))))"
  using assms(4)
proof (induction "length str - loc" arbitrary: loc rule: less_induct)
  case less
  show ?case
  proof (cases "str_index key (map lower_char (drop loc str))")
    case None
    then show ?thesis using assms(3) by (simp add: str_count.simps [of key] occurrences.simps [of key])
  next
    case (Some i)
    have bound: "i + length key \<le> length str - loc" using str_index_SomeD [OF Some] by simp
    let ?loc = "loc + i + length key"
    have next_loc: "?loc \<le> length str" "length str - ?loc < length str - loc" "loc < length str"
      using bound assms(3) by (cases key; simp)+
    note step = less.hyps [OF next_loc(2) next_loc(1)]
    have low: "to_lower ul (drop loc str) = map lower_char (drop loc str)"
      by (rule to_lower_agree [OF ascii_drop [OF assms(1)] assms(2)])
    have rest: "drop (i + length key) (map lower_char (drop loc str)) = map lower_char (drop ?loc str)"
      by (simp add: drop_map ac_simps)
    have sl: "go_slice str (int loc) (int (length str)) = Done (drop loc str)"
        "go_slice str (int (loc + i)) (int ?loc) = Done (take (length key) (drop (loc + i) str))"
        "go_slice str 0 (int (loc + i)) = Done (take (loc + i) str)"
      using next_loc bound by (simp_all add: go_slice_def nat_add_distrib)
    have add: "int loc + int i = int (loc + i)" "int (loc + i) + int (length key) = int ?loc" by simp_all
    have cnt: "str_count key (map lower_char (drop loc str)) = Suc (str_count key (map lower_char (drop ?loc str)))"
      using Some assms(3) rest by (simp add: str_count.simps [of key "map lower_char (drop loc str)"])
    have occ: "occurrences key (map lower_char (drop loc str)) =
        i # map (\<lambda>p. i + length key + p) (occurrences key (map lower_char (drop ?loc str)))"
      using Some assms(3) rest by (simp add: occurrences.simps [of key "map lower_char (drop loc str)"])
    have lt: "loc + i < length str" using bound next_loc(3) assms(3) by (cases key) auto
    have "highlight_loop ul rw str key (str_count key (map lower_char (drop loc str))) (int loc) =
        obind (highlight_loop ul rw str key (str_count key (map lower_char (drop ?loc str))) (int ?loc))
          (\<lambda>rest. Done ((text_width rw (take (loc + i) str), take (length key) (drop (loc + i) str)) # rest))"
      using next_loc(3) by (simp only: cnt highlight_loop.simps(2) sl low Some Let_def go_pos_def option.case add lt
          obind.simps if_True of_nat_less_iff)
    then show ?thesis by (simp only: step occ) (simp add: comp_def add.assoc)
  qed
qed

text \<open>C7 Highlighting of ASCII rows: for every word typed, exactly its non-overlapping occurrences in
  the row are highlighted (case ignored), each at the width of the text before it; the slices of the
  loop stay in range.\<close>

theorem highlights_occurrences:
  assumes "ascii str" and "ascii word" and "word \<noteq> []" and "\<forall>r < 128. ul r = ascii_lower r"
  shows "highlight_word ul rw str word =
     Done (map (\<lambda>p. (text_width rw (take p str), take (length word) (drop p str)))
             (occurrences (map lower_char word) (map lower_char str)))"
  using highlight_loop_ascii [OF assms(1,4), of "map lower_char word" 0 rw] assms
  by (simp add: highlight_word_def to_lower_agree Let_def)

lemma demo_occurrences: "occurrences (map lower_char ''EB'') (map lower_char ''web1 Web2'') = [1, 6]"
  by code_simp

lemma highlights_occurrences_witness:
  "highlight_word ascii_lower (\<lambda>_. 1) ''web1 Web2'' ''EB'' = Done [(1, ''eb''), (6, ''eb'')]"
proof -
  have "text_width (\<lambda>_. 1) (take 1 ''web1 Web2'') = 1" "text_width (\<lambda>_. 1) (take 6 ''web1 Web2'') = 6"
    by (simp_all add: text_width_def to_runes_def runes_ascii ascii_def eval_nat_numeral)
  then show ?thesis
    using highlights_occurrences [of "''web1 Web2''" "''EB''" ascii_lower "\<lambda>_. 1"]
    unfolding demo_occurrences by (simp add: ascii_def eval_nat_numeral)
qed

end
