(* ===== verification/List_Pick.thy ===== *)
theory List_Pick
  imports List_Text Common
begin

text \<open>
  What a session of the list of package \<open>list\<close> can return: every entry of the selection is the
  first word of a line, and the first word of a row is the name the row was made for. The event loop
  is an instance of the machine contract with the invariant \<open>pick_inv\<close>.
\<close>

section \<open>What can be picked\<close>

text \<open>The words an entry of the selection can be: the first words of the lines of the list.\<close>

definition pick_words :: "string list \<Rightarrow> string set" where
  "pick_words D = {w. \<exists>line \<in> set D. first_field line = Done w}"

definition pick_inv :: "string list \<Rightarrow> view_state \<Rightarrow> bool" where
  "pick_inv D st \<longleftrightarrow> DataText (vinfo st) = D \<and> set (ViewText (vinfo st)) \<subseteq> set D
     \<and> set (SelectName (vinfo st)) \<subseteq> pick_words D"

lemma redraw_Done: "redraw th st = Done r \<Longrightarrow> r = Inl st"
  by (auto simp: redraw_def obind_Done_iff)

lemma getFilterText_Done:
  assumes "getFilterText ul l = Done l'"
  shows "DataText l' = DataText l \<and> SelectName l' = SelectName l \<and> set (ViewText l') \<subseteq> set (DataText l)"
  using assms by (auto simp: getFilterText_def filter_loop_eq Let_def split: list.splits if_splits)

lemma toggle_picks: "w \<in> set (SelectName (toggle l x)) \<Longrightarrow> w \<in> set (SelectName l) \<or> w = x"
  by (auto simp: toggle_def toggle_names_eq split: if_splits)

lemma all_toggle_picks:
  "all_toggle_loop b lines l = Done l' \<Longrightarrow> set lines \<subseteq> set D \<Longrightarrow> set (SelectName l) \<subseteq> pick_words D \<Longrightarrow>
   set (SelectName l') \<subseteq> pick_words D \<and> DataText l' = DataText l \<and> ViewText l' = ViewText l"
proof (induction b lines l rule: all_toggle_loop.induct)
  case (2 b line rest l)
  from "2.prems"(1) obtain w where w: "first_field line = Done w"
      "all_toggle_loop b rest (if b \<or> \<not> arrayContains (SelectName l) w then toggle l w else l) = Done l'"
    by (auto simp: obind_Done_iff)
  have "w \<in> pick_words D" using w(1) "2.prems"(2) by (auto simp: pick_words_def)
  then have "set (SelectName (toggle l w)) \<subseteq> pick_words D" using "2.prems"(3) toggle_picks by blast
  then show ?case using "2.IH" [OF w(2)] "2.prems"(2,3) by (auto simp: toggle_def split: if_splits)
qed simp

lemma index_picks:
  assumes "go_index (ViewText l) i = Done line" and "first_field line = Done w" and "set (ViewText l) \<subseteq> set D"
  shows "w \<in> pick_words D"
  using assms by (auto simp: go_index_Done pick_words_def intro!: bexI [of _ line])

lemma redraw_picks:
  assumes "redraw th st = Done r" and "pick_inv D st"
  shows "\<exists>st'. r = Inl st' \<and> pick_inv D st'"
  using redraw_Done [OF assms(1)] assms(2) by blast

lemma pick_step_key:
  assumes inv: "pick_inv D st" and step: "key_step ul th (EventKey k ch) st = Done r"
  shows "case r of Inl st' \<Rightarrow> pick_inv D st' | Inr l \<Rightarrow> SelectName l \<noteq> [] \<and> set (SelectName l) \<subseteq> pick_words D"
proof -
  let ?l = "vinfo st"
  have I: "DataText ?l = D" "set (ViewText ?l) \<subseteq> set D" "set (SelectName ?l) \<subseteq> pick_words D"
    using inv by (simp_all add: pick_inv_def)
  have pick: "w \<in> pick_words (DataText ?l)"
    if "go_index (ViewText ?l) i = Done line" "first_field line = Done w" for i line w
    using index_picks [OF that] I(1,2) by simp
  have cursor: "pick_inv D (set_cursor st c)" for c using I by (simp add: pick_inv_def set_cursor_def)
  have rd: ?thesis if "redraw th st' = Done r" "pick_inv D st'" for st'
    using redraw_picks [OF that] by auto
  have typing: ?thesis
    if "obind (getFilterText ul l1) (\<lambda>l2. redraw th (st\<lparr>vinfo := l2\<lparr>CursorLine := f l2\<rparr>, allFlag := False\<rparr>)) = Done r"
      "DataText l1 = D" "SelectName l1 = SelectName ?l" for l1 f
  proof -
    from that(1) obtain l2 where l2: "getFilterText ul l1 = Done l2"
        "redraw th (st\<lparr>vinfo := l2\<lparr>CursorLine := f l2\<rparr>, allFlag := False\<rparr>) = Done r"
      by (auto simp: obind_Done_iff)
    show ?thesis
      by (rule rd [OF l2(2)]) (use getFilterText_Done [OF l2(1)] that(2,3) I(3) in \<open>auto simp: pick_inv_def\<close>)
  qed
  show ?thesis
  proof (cases k)
    case KeyTab
    then show ?thesis using step I
      by (auto simp: obind_Done_iff Let_def pick_inv_def dest!: redraw_Done pick toggle_picks split: if_splits)
         (auto simp: toggle_def)
  next
    case KeyCtrlA
    show ?thesis
    proof (cases "MultiFlag ?l")
      case True
      with KeyCtrlA step obtain l' where l': "allToggle ?l (allFlag st) = Done l'"
          "redraw th (st\<lparr>vinfo := l', allFlag := \<not> allFlag st\<rparr>) = Done r"
        by (auto simp: obind_Done_iff Let_def)
      have "set (tl (ViewText ?l)) \<subseteq> set D" using I(2) by (cases "ViewText ?l") auto
      then have "set (SelectName l') \<subseteq> pick_words D \<and> DataText l' = D \<and> ViewText l' = ViewText ?l"
        using l'(1) all_toggle_picks [of "allFlag st" "tl (ViewText ?l)" ?l l' D] I
        by (auto simp: allToggle_def split: if_splits)
      then show ?thesis by (intro rd [OF l'(2)]) (use I in \<open>simp add: pick_inv_def\<close>)
    next
      case False
      then show ?thesis using KeyCtrlA step inv by (auto dest!: redraw_Done)
    qed
  next
    case KeyEnter
    then show ?thesis using step I
      by (auto simp: obind_Done_iff Let_def dest: index_picks split: if_splits)
  next
    case KeySpace
    then show ?thesis using step I by (auto simp: pick_inv_def Let_def dest!: redraw_Done)
  next
    case KeyArrowUp
    then show ?thesis using step cursor by (auto simp: Let_def dest!: redraw_Done split: if_splits)
  next
    case KeyArrowDown
    then show ?thesis using step cursor by (auto simp: Let_def dest!: redraw_Done split: if_splits)
  next
    case KeyArrowRight
    then show ?thesis using step cursor inv by (auto simp: Let_def dest!: redraw_Done split: if_splits)
  next
    case KeyArrowLeft
    then show ?thesis using step cursor inv by (auto simp: Let_def dest!: redraw_Done split: if_splits)
  next
    case KeyEsc
    then show ?thesis using step by simp
  next
    case KeyCtrlC
    then show ?thesis using step by simp
  next
    case KeyBackspace
    show ?thesis
    proof (cases "Keyword ?l = []")
      case False
      with KeyBackspace step obtain l1 where l1: "DeleteRune ?l = Done l1"
          "obind (getFilterText ul l1) (\<lambda>l2. redraw th (st\<lparr>vinfo := l2\<lparr>CursorLine :=
             (let c1 = (if CursorLine l2 > int (length (ViewText l2)) then int (length (ViewText l2)) else CursorLine l2)
              in if c1 < 0 then 0 else c1)\<rparr>, allFlag := False\<rparr>)) = Done r"
        by (auto simp: obind_Done_iff Let_def)
      have "DataText l1 = D" "SelectName l1 = SelectName ?l"
        using l1(1) I(1) by (auto simp: DeleteRune_def Let_def split: if_splits)
      then show ?thesis by (rule typing [OF l1(2)])
    qed (use KeyBackspace step inv in auto)
  next
    case KeyBackspace2
    show ?thesis
    proof (cases "Keyword ?l = []")
      case False
      with KeyBackspace2 step obtain l1 where l1: "DeleteRune ?l = Done l1"
          "obind (getFilterText ul l1) (\<lambda>l2. redraw th (st\<lparr>vinfo := l2\<lparr>CursorLine :=
             (let c1 = (if CursorLine l2 > int (length (ViewText l2)) then int (length (ViewText l2)) else CursorLine l2)
              in if c1 < 0 then 0 else c1)\<rparr>, allFlag := False\<rparr>)) = Done r"
        by (auto simp: obind_Done_iff Let_def)
      have "DataText l1 = D" "SelectName l1 = SelectName ?l"
        using l1(1) I(1) by (auto simp: DeleteRune_def Let_def split: if_splits)
      then show ?thesis by (rule typing [OF l1(2)])
    qed (use KeyBackspace2 step inv in auto)
  next
    case OtherKey
    show ?thesis
      by (cases "ch = 0") (use OtherKey step inv I(1) typing [of "InsertRune ?l ch"] in \<open>auto simp: Let_def InsertRune_def\<close>)
  next
    case MouseLeft
    show ?thesis
      by (cases "ch = 0") (use MouseLeft step inv I(1) typing [of "InsertRune ?l ch"] in \<open>auto simp: Let_def InsertRune_def\<close>)
  qed
qed

lemma pick_step:
  assumes "pick_inv D st" and "key_step ul th ev st = Done r"
  shows "case r of Inl st' \<Rightarrow> pick_inv D st' | Inr l \<Rightarrow> SelectName l \<noteq> [] \<and> set (SelectName l) \<subseteq> pick_words D"
proof (cases ev)
  case (EventKey k ch)
  then show ?thesis using pick_step_key assms by blast
next
  case (EventMouse k y)
  then show ?thesis using assms
    by (auto simp: Let_def pick_inv_def set_cursor_def dest!: redraw_Done split: if_splits)
next
  case EventOther
  then show ?thesis using assms by (auto dest!: redraw_Done)
qed

interpretation picks: machine "\<lambda>(th, ev). key_step ul th ev" "\<lambda>_. True" "pick_inv D" "\<lambda>_ _. False"
proof unfold_locales
  fix s e s' assume "pick_inv D s" "(case e of (th, ev) \<Rightarrow> key_step ul th ev) s = Done (Inl s')"
  then show "pick_inv D s'" using pick_step [of D s ul "fst e" "snd e" "Inl s'"] by (cases e) simp
qed simp

lemma key_run_picks:
  assumes "key_init ul th l = Done st" and "key_run ul es st = Done (Inr l')" and "SelectName l = []"
  shows "SelectName l' \<noteq> [] \<and> set (SelectName l') \<subseteq> pick_words (DataText l)"
proof -
  from assms(1) obtain l1 where l1: "getFilterText ul (l\<lparr>CursorLine := 0, Keyword := []\<rparr>) = Done l1" "vinfo st = l1"
    by (auto simp: key_init_def obind_Done_iff)
  have "pick_inv (DataText l) st"
    using getFilterText_Done [OF l1(1)] l1(2) assms(3) by (simp add: pick_inv_def)
  from picks.run_result [OF this, of es ul l'] assms(2) obtain e s'
    where "pick_inv (DataText l) s'" "key_step ul (fst e) (snd e) s' = Done (Inr l')"
    by (auto simp: key_run_def)
  then show ?thesis using pick_step [of "DataText l" s' ul "fst e" "snd e" "Inr l'"] by simp
qed

section \<open>The rows of a list\<close>

text \<open>A name that is one field of its row.\<close>

definition clean_name :: "string \<Rightarrow> bool" where
  "clean_name n \<longleftrightarrow> n \<noteq> [] \<and> ascii n \<and> list_all (\<lambda>c. \<not> space_char c) n"

lemma runes_ascii_append: "ascii n \<Longrightarrow> runes (n @ y) = map (\<lambda>c. (byte c, [c])) n @ runes y"
  by (induction n) (auto simp: ascii_def runes.simps(2) decode_rune_def byte_ascii)

lemma fields_aux_word:
  "ascii n \<Longrightarrow> list_all (\<lambda>c. \<not> space_char c) n \<Longrightarrow>
   go_fields_aux (map (\<lambda>c. (byte c, [c])) n @ xs) w = go_fields_aux xs (w @ n)"
  by (induction n arbitrary: w) (auto simp: ascii_def is_space_byte)

lemma first_field_row:
  assumes "clean_name n" and "space_char c" and "\<not> digit7 c"
  shows "first_field (n @ c # y) = Done n"
proof -
  have "runes (c # y) = (byte c, [c]) # runes y"
    using runes_ascii_append [of "[c]" y] assms(3) by (simp add: ascii_def)
  then have "go_fields (n @ c # y) = n # go_fields_aux (runes y) []"
    using assms by (simp add: clean_name_def go_fields_def runes_ascii_append fields_aux_word is_space_byte)
  then show ?thesis by (simp add: first_field_def go_index_def)
qed

lemma foldr_max_ge: "x \<in> set xs \<Longrightarrow> f x \<le> foldr (\<lambda>y w. max (f y) w) xs (0::nat)"
  by (induction xs) auto

lemma column_width_ge:
  assumes "i < length ls" and "has_cell j (ls ! i)"
  shows "cell_width (ls ! i ! j) + 2 \<le> column_width ls i j"
proof -
  have "ls ! i \<in> set (column_block ls i j)"
    using assms by (simp add: column_block_def Cons_nth_drop_Suc [OF assms(1), symmetric])
  then show ?thesis unfolding column_width_def
    using foldr_max_ge [of "ls ! i" "column_block ls i j" "\<lambda>cs. cell_width (cs ! j) + 2"] by simp
qed

lemma tab_line_first:
  assumes "i < length ls" and "ls ! i = n # c # cs"
  shows "\<exists>y. tab_line ls i = n @ CHR '' '' # y"
proof -
  have "cell_width n + 2 \<le> column_width ls i 0"
    using column_width_ge [OF assms(1), of 0] assms(2) by (simp add: has_cell_def)
  then have "0 < column_width ls i 0 - cell_width n" by simp
  then obtain k where k: "column_width ls i 0 - cell_width n = Suc k"
    using gr0_implies_Suc by blast
  have "[0..<length (ls ! i) - 1] = 0 # [1..<length (ls ! i) - 1]"
    using assms(2) by (simp add: upt_conv_Cons del: upt_Suc)
  then show ?thesis using assms(2) k by (simp add: tab_line_def pad_cell_def Let_def)
qed

lemma replace_tab: "\<exists>z. replace_all (n @ c # y) [tab] '' '' = n @ c # z" if "tab \<notin> set n" "c \<noteq> tab" 
proof -
  have "concat (map (\<lambda>x. if x = tab then '' '' else [x]) n) = n" using that(1) by (induction n) auto
  then show ?thesis using that(2) by (simp add: replace_all_char)
qed

lemma clean_no_tab: "clean_name n \<Longrightarrow> tab \<notin> set n"
  by (auto simp: clean_name_def list_all_iff space_char_def tab_def)

text \<open>A row that is a name, or a name and a tab with more behind it.\<close>

definition row_for :: "string \<Rightarrow> string \<Rightarrow> bool" where
  "row_for n row \<longleftrightarrow> clean_name n \<and> line_end \<notin> set row \<and> (row = n \<or> (\<exists>y. row = n @ tab # y))"

lemma tab_lines_first:
  assumes "i < length rows" and "row_for n (rows ! i)"
  shows "first_field (replace_all (tab_lines rows ! i @ [line_end]) [tab] '' '') = Done n"
proof -
  have nt: "tab \<notin> set n" using clean_no_tab assms(2) by (simp add: row_for_def)
  have i: "i < length (map (split_on tab) rows)" using assms(1) by simp
  have eq: "tab_lines rows ! i = tab_line (map (split_on tab) rows) i"
    using assms(1) by (simp add: tab_lines_def Let_def)
  have clean: "clean_name n" using assms(2) by (simp add: row_for_def)
  consider "rows ! i = n" | y where "rows ! i = n @ tab # y" using assms(2) by (auto simp: row_for_def)
  then show ?thesis
  proof cases
    case 1
    then have "tab_line (map (split_on tab) rows) i = n"
      using assms(1) nt by (simp add: tab_line_def split_on_absent)
    moreover obtain z where "replace_all (n @ line_end # []) [tab] '' '' = n @ line_end # z"
      using replace_tab [OF nt, of line_end "[]"] by (auto simp: tab_def line_end_def)
    ultimately show ?thesis
      using first_field_row [OF clean, of line_end] by (simp add: eq space_char_def line_end_def)
  next
    case 2
    then have "map (split_on tab) rows ! i = n # split_on tab y"
      using assms(1) split_on_append [OF nt, of y] by simp
    then obtain c cs where "map (split_on tab) rows ! i = n # c # cs"
      by (metis list.exhaust split_on_nonempty)
    from tab_line_first [OF i this] obtain x where x: "tab_line (map (split_on tab) rows) i = n @ CHR '' '' # x" by blast
    obtain z where "replace_all (n @ CHR '' '' # x @ [line_end]) [tab] '' '' = n @ CHR '' '' # z"
      using replace_tab [OF nt, of "CHR '' ''"] by (auto simp: tab_def)
    then show ?thesis using x first_field_row [OF clean, of "CHR '' ''"] by (simp add: eq space_char_def)
  qed
qed

lemma lines_of_rows: "\<forall>r \<in> set rows. line_end \<notin> set r \<Longrightarrow> concat (map (split_on line_end) rows) = rows"
  by (induction rows) (auto simp: split_on_absent)

lemma getText_first:
  assumes "DataText l = []" and "row_for t (Title l)" and "\<forall>n \<in> set (NameList l). row_for n (rowFn n)"
  shows "length (DataText (getText rowFn l)) = Suc (length (NameList l))
    \<and> (\<forall>i < Suc (length (NameList l)). first_field (DataText (getText rowFn l) ! i) = Done ((t # NameList l) ! i))"
proof -
  let ?rows = "Title l # map rowFn (NameList l)" and ?names = "t # NameList l"
  have rows: "i < length ?rows \<Longrightarrow> row_for (?names ! i) (?rows ! i)" for i
    using assms(2,3) by (cases i) auto
  have "\<forall>r \<in> set ?rows. line_end \<notin> set r" using assms(2,3) by (auto simp: row_for_def)
  from lines_of_rows [OF this] have data: "DataText (getText rowFn l) =
      map (\<lambda>line. replace_all (line @ [line_end]) [tab] '' '') (tab_lines ?rows)"
    using assms(1) by (simp add: getText_def Let_def)
  have len: "length (tab_lines ?rows) = length ?rows" by (simp add: tab_lines_def Let_def)
  have "i < length ?rows \<Longrightarrow> first_field (DataText (getText rowFn l) ! i) = Done (?names ! i)" for i
    using tab_lines_first [OF _ rows, of i] len unfolding data by simp
  then show ?thesis using len unfolding data by simp
qed

text \<open>The words that can be picked are the title's first word and the names.\<close>

lemma getText_picks:
  assumes "DataText l = []" and "row_for t (Title l)" and "\<forall>n \<in> set (NameList l). row_for n (rowFn n)"
  shows "pick_words (DataText (getText rowFn l)) = insert t (set (NameList l))"
proof -
  let ?D = "DataText (getText rowFn l)"
  note f = getText_first [OF assms]
  have "pick_words ?D = {w. \<exists>i < Suc (length (NameList l)). first_field (?D ! i) = Done w}"
    unfolding pick_words_def using f by (auto simp: set_conv_nth)
  also have "\<dots> = {w. \<exists>i < length (t # NameList l). w = (t # NameList l) ! i}"
    using f by auto
  also have "\<dots> = set (t # NameList l)" by (auto simp: set_conv_nth simp del: list.set)
  finally show ?thesis by simp
qed

text \<open>Enter on a fresh list picks the first row; on a list without rows it indexes past the only line.\<close>

lemma View_enter:
  assumes "DataText (getText rowFn l) = title # rows" and "SelectName l = []" and "3 \<le> th"
  shows "View ul rowFn th [(th', EventKey KeyEnter ch)] l =
    (case rows of [] \<Rightarrow> Panic
     | r # rs \<Rightarrow> obind (first_field r) (\<lambda>w. Done (Inr ((getText rowFn l)\<lparr>CursorLine := 0, Keyword := [],
         ViewText := title # rows, SelectName := [w]\<rparr>))))"
proof -
  have sel: "SelectName (getText rowFn l) = []" using assms(2) by (simp add: getText_def Let_def)
  have "getFilterText ul ((getText rowFn l)\<lparr>CursorLine := 0, Keyword := []\<rparr>)
      = Done ((getText rowFn l)\<lparr>CursorLine := 0, Keyword := [], ViewText := title # rows\<rparr>)"
    using assms(1) by (simp add: getFilterText_def go_fields_def Let_def)
  moreover have "\<exists>d. draw th ((getText rowFn l)\<lparr>CursorLine := 0, Keyword := [], ViewText := title # rows\<rparr>) = Done d"
    using assms(3) by (auto simp: draw_def headLine_def go_div_def go_slice_def Let_def)
  ultimately show ?thesis using sel
    by (cases rows) (auto simp: View_def key_init_def key_run_def go_index_def Let_def obind_assoc split: list.split)
qed

text \<open>What a list returns: the words of the names or the title's first word.\<close>

lemma View_picks:
  assumes "View ul rowFn th es l = Done (Inr l')" and "DataText l = []" and "SelectName l = []"
    and "row_for t (Title l)" and "\<forall>n \<in> set (NameList l). row_for n (rowFn n)"
  shows "SelectName l' \<noteq> [] \<and> set (SelectName l') \<subseteq> insert t (set (NameList l))"
proof -
  from assms(1) obtain st where st: "key_init ul th (getText rowFn l) = Done st" "key_run ul es st = Done (Inr l')"
    by (auto simp: View_def obind_Done_iff)
  have "SelectName (getText rowFn l) = []" using assms(3) by (simp add: getText_def Let_def)
  from key_run_picks [OF st this] getText_picks [OF assms(2,4,5)] show ?thesis by simp
qed

end
