(* ===== verification/App.thy ===== *)
theory App
  imports List_Pick Conf Ssh_Shell Scp
begin

text \<open>
  The commands (src/app, src/cmd/bssh/main.go) and the server menu (src/list/conf.go): which command
  runs, how its options become a run, which hosts it works on, and what the menus return. The events
  of a menu are those of the list; \<open>None\<close> as a result means that it still waits for events.
\<close>

section \<open>Menus (list/conf.go)\<close>

definition new_list :: "string \<Rightarrow> string list \<Rightarrow> bool \<Rightarrow> string list \<Rightarrow> info" where
  "new_list prompt names multi titleColumns =
     SetTitle \<lparr>Prompt = prompt, Title = [], NameList = names, SelectName = [], DataText = [], ViewText = [],
       MultiFlag = multi, Keyword = [], CursorLine = 0\<rparr> titleColumns"

text \<open>\<open>GetChinesePinyinInitials\<close>; \<open>isHan\<close> is the regular expression and \<open>py\<close> the first
  letter the pinyin library gives.\<close>

definition GetChinesePinyinInitials :: "(nat \<Rightarrow> bool) \<Rightarrow> (nat \<Rightarrow> string option) \<Rightarrow> string \<Rightarrow> string" where
  "GetChinesePinyinInitials isHan py txt =
     concat (map (\<lambda>r. if isHan r then (case py r of Some p \<Rightarrow> p | None \<Rightarrow> []) else []) (to_runes txt))"

text \<open>The row of a server; \<open>initials\<close> is \<open>GetChinesePinyinInitials\<close> and
  \<open>hostInfo\<close> the text stored for a name, \<open>None\<close> when the column is off.\<close>

definition server_row :: "(string \<Rightarrow> string) \<Rightarrow> (string \<Rightarrow> string) option \<Rightarrow> servers \<Rightarrow> string \<Rightarrow> string" where
  "server_row initials hostInfo sv name =
     (let s = server_at sv name;
          note0 = sc_Note s @ (if initials (sc_Note s) \<noteq> [] then ''('' @ initials (sc_Note s) @ '')'' else []);
          note = (if sc_PassPbeEncrypted s then ''*'' @ note0 else note0)
      in name @ [tab] @ sc_User s @ ''@'' @ sc_Addr s @ (if sc_Port s \<noteq> [] then '':'' @ sc_Port s else [])
         @ '' # '' @ trim_space note
         @ (case hostInfo of Some info_of \<Rightarrow> [tab] @ trim_space (info_of name) | None \<Rightarrow> []))"

fun picked :: "string \<Rightarrow> step_result outcome \<Rightarrow> string list option outcome" where
  "picked title (Done (Inl st)) = Done None"
| "picked title (Done (Inr l)) =
     obind (go_index (SelectName l) 0) (\<lambda>s. if s = title then Exit 1 else Done (Some (SelectName l)))"
| "picked title Panic = Panic"
| "picked title (Exit n) = Exit n"

type_synonym menu_events = "int \<times> (int \<times> event) list"

definition showGroupsView :: "(nat \<Rightarrow> nat) \<Rightarrow> menu_events \<Rightarrow> config \<Rightarrow> string list \<Rightarrow> string option outcome" where
  "showGroupsView ul ev cf ks =
     (if \<not> dt_Get (c_Grouping cf) \<or> length ks \<le> 1 then Done (Some [])
      else obind (picked ''GroupName''
             (View ul (\<lambda>name. name) (fst ev) (snd ev) (new_list ''group>>'' (GroupsNames cf ks) False [''GroupName''])))
           (\<lambda>sel. Done (map_option hd sel)))"

definition server_titles :: "bool \<Rightarrow> string list" where
  "server_titles hostInfoEnabled =
     [''ServerName'', ''Connect Info # Note''] @ (if hostInfoEnabled then [''Host Info''] else [])"

definition ShowServersView ::
  "(nat \<Rightarrow> nat) \<Rightarrow> (string \<Rightarrow> string) \<Rightarrow> (string \<Rightarrow> string) option \<Rightarrow> menu_events \<Rightarrow> menu_events
   \<Rightarrow> config \<Rightarrow> string list \<Rightarrow> string \<Rightarrow> string list \<Rightarrow> bool \<Rightarrow> string list option outcome" where
  "ShowServersView ul initials hostInfo gev sev cf ks prompt names isMulti =
     obind (showGroupsView ul gev cf ks) (\<lambda>g. case g of
       None \<Rightarrow> Done None
     | Some grp \<Rightarrow> picked ''ServerName''
         (View ul (server_row initials hostInfo (c_Server cf)) (fst sev) (snd sev)
            (new_list prompt (FilterNamesByGroup cf grp names) isMulti (server_titles (hostInfo \<noteq> None)))))"

section \<open>Command lines\<close>

text \<open>\<open>main\<close>: the command and its arguments; \<open>rest\<close> are the arguments the first parser has not
  consumed, a tail of \<open>args\<close>.\<close>

datatype command = Lssh | Lscp | Lsftp

definition main_command :: "string \<Rightarrow> string list \<Rightarrow> string list \<Rightarrow> command \<times> string list" where
  "main_command prog args rest =
     (case rest of
        [] \<Rightarrow> (Lssh, prog # args)
      | sub # subArgs \<Rightarrow>
          (let args' = prog # take (length args - length rest) args @ subArgs in
           if sub = ''scp'' then (Lscp, args')
           else if sub = ''ftp'' then (Lsftp, args')
           else if sub = ''ssh'' then (Lssh, args')
           else (Lssh, prog # args)))"

record cli_flags =
  fl_L :: string
  fl_R :: string
  fl_D :: string
  fl_notExecute :: bool
  fl_parallel :: bool
  fl_term :: bool
  fl_localrc :: bool
  fl_notLocalrc :: bool
  fl_pshell :: bool
  fl_args :: "string list"

text \<open>\<open>dealPortForward\<close>: mode, local and remote address and whether an error is printed. The third
  case of the code stands behind the first and is never reached.\<close>

definition dealPortForward :: "cli_flags \<Rightarrow> string \<times> string \<times> string \<times> bool" where
  "dealPortForward c =
     (let parse = (\<lambda>mode value. case ParseForwardPort value of
                     Some (l, r) \<Rightarrow> (mode, l, r, False) | None \<Rightarrow> (mode, [], [], True))
      in if fl_L c \<noteq> [] then parse ''L'' (fl_L c)
         else if fl_R c \<noteq> [] then parse ''R'' (fl_R c)
         else ([], [], [], False))"

definition parseMultiFlag :: "cli_flags \<Rightarrow> bool" where
  "parseMultiFlag c \<longleftrightarrow> (fl_args c \<noteq> [] \<or> fl_pshell c) \<and> \<not> fl_notExecute c"

definition parseMode :: "cli_flags \<Rightarrow> string" where
  "parseMode c =
     (if fl_pshell c \<and> \<not> fl_notExecute c then ''pshell''
      else if fl_args c \<noteq> [] \<and> \<not> fl_notExecute c then ''cmd''
      else ''shell'')"

text \<open>\<open>lsshAction\<close> behind the selection: the run it starts.\<close>

definition lssh_run :: "cli_flags \<Rightarrow> string list \<Rightarrow> run_opts \<times> string" where
  "lssh_run c hosts =
     (let (mode, l, r, err) = dealPortForward c
      in (\<lparr>ro_ServerList = hosts, ro_PortForwardMode = mode, ro_PortForwardLocal = l, ro_PortForwardRemote = r,
            ro_DynamicPortForward = fl_D c, ro_IsBashrc = fl_localrc c, ro_IsNotBashrc = fl_notLocalrc c,
            ro_IsParallel = fl_parallel c, ro_IsTerm = fl_term c, ro_ExecCmd = fl_args c\<rparr>, parseMode c))"

text \<open>\<open>parseSelected\<close>; \<open>menu\<close> is the server menu.\<close>

definition parseSelected :: "(string \<Rightarrow> string list \<Rightarrow> bool \<Rightarrow> string list option outcome) \<Rightarrow> string \<Rightarrow> string list \<Rightarrow> string list \<Rightarrow> bool \<Rightarrow> string list option outcome" where
  "parseSelected menu prompt hosts names isMulti =
     (if hosts = [] then menu prompt names isMulti else Done (Some hosts))"

section \<open>Copies (app/scp.go)\<close>

fun parseFromLocation :: "string list \<Rightarrow> (bool \<times> bool) outcome" where
  "parseFromLocation [] = Done (False, False)"
| "parseFromLocation (from_arg # rest) =
     obind (ParseScpPath from_arg) (\<lambda>(isRemote, p). obind (parseFromLocation rest) (\<lambda>(r, l).
       Done (isRemote \<or> r, \<not> isRemote \<or> l)))"

text \<open>\<open>parseFromToServer\<close>: the servers of the target and of the source.\<close>

definition parseFromToServer ::
  "(string \<Rightarrow> string list \<Rightarrow> bool \<Rightarrow> string list option outcome) \<Rightarrow> string list \<Rightarrow> string list \<Rightarrow> bool \<Rightarrow> bool
   \<Rightarrow> (string list \<times> string list) option outcome" where
  "parseFromToServer menu hosts names isFromInRemote isToRemote =
     (if hosts \<noteq> [] then Done (Some (if isToRemote then hosts else [], if isFromInRemote then hosts else []))
      else if isFromInRemote \<and> isToRemote
      then obind (menu ''bssh scp(from)>>'' names False) (\<lambda>f. case f of
             None \<Rightarrow> Done None
           | Some fromServer \<Rightarrow> obind (menu ''bssh scp(to)>>'' names True) (\<lambda>t.
               Done (map_option (\<lambda>toServer. (toServer, fromServer)) t)))
      else obind (menu ''bssh scp>>'' names True) (\<lambda>s.
             Done (map_option (\<lambda>selected. if isFromInRemote then ([], selected) else (selected, [])) s)))"

text \<open>\<open>setFrom\<close>: the kind of the last argument and the paths; a local path that does not exist ends the
  program.\<close>

fun setFrom :: "(string \<Rightarrow> string) \<Rightarrow> (string \<Rightarrow> bool) \<Rightarrow> string list \<Rightarrow> bool \<times> string list \<Rightarrow> (bool \<times> string list) outcome" where
  "setFrom fullPath exists [] acc = Done acc"
| "setFrom fullPath exists (from_arg # rest) (remote, paths) =
     obind (ParseScpPath from_arg) (\<lambda>(isFromRemote, fromPath).
       if \<not> isFromRemote \<and> \<not> exists (fullPath fromPath) then Exit 1
       else setFrom fullPath exists rest
              (isFromRemote, paths @ [if isFromRemote then EscapePath fromPath else fullPath fromPath]))"

text \<open>\<open>lscpAction\<close> on the arguments behind the options: source and target of the copy.\<close>

definition lscp_infos ::
  "(string \<Rightarrow> string list \<Rightarrow> bool \<Rightarrow> string list option outcome) \<Rightarrow> (string \<Rightarrow> string) \<Rightarrow> (string \<Rightarrow> bool)
   \<Rightarrow> string list \<Rightarrow> string list \<Rightarrow> string list \<Rightarrow> (scp_info \<times> scp_info) option outcome" where
  "lscp_infos menu fullPath exists hosts names args =
     (if length args < 2 then Exit 1
      else let fromArgs = butlast args; toArg = last args in
        obind (parseFromLocation fromArgs) (\<lambda>(isFromInRemote, isFromInLocal).
        obind (ParseScpPath toArg) (\<lambda>(isToRemote, toPath).
        obind (TypeError isFromInRemote isFromInLocal isToRemote (length hosts)) (\<lambda>_.
        obind (parseFromToServer menu hosts names isFromInRemote isToRemote) (\<lambda>servers. case servers of
          None \<Rightarrow> Done None
        | Some (toServer, fromServer) \<Rightarrow>
            obind (setFrom fullPath exists fromArgs (False, [])) (\<lambda>(fromRemote, fromPaths).
              Done (Some (\<lparr>si_IsRemote = fromRemote, si_Server = fromServer, si_Path = fromPaths\<rparr>,
                    \<lparr>si_IsRemote = isToRemote, si_Server = toServer,
                      si_Path = [if isToRemote then EscapePath toPath else toPath]\<rparr>))))))))"

section \<open>Facts\<close>

lemma dealPortForward_local: "fl_L c \<noteq> [] \<Longrightarrow> dealPortForward (c\<lparr>fl_R := r\<rparr>) = dealPortForward c"
  by (simp add: dealPortForward_def)

lemma picked_Done: "picked t r = Done (Some sel) \<longleftrightarrow>
    (\<exists>l. r = Done (Inr l) \<and> SelectName l = sel \<and> sel \<noteq> [] \<and> hd sel \<noteq> t)"
proof (induction t r rule: picked.induct)
  case (2 t l)
  then show ?case by (cases "SelectName l") (auto simp: obind_Done_iff go_index_def)
qed auto

lemma row_for_tab: "clean_name n \<Longrightarrow> line_end \<notin> set y \<Longrightarrow> row_for n (n @ tab # y)"
  by (auto simp: row_for_def clean_name_def list_all_iff space_char_def line_end_def tab_def)

lemma title_row:
  "row_for ''ServerName'' (Title (new_list prompt names multi (server_titles b)))"
  "row_for ''GroupName'' (Title (new_list prompt names multi [''GroupName'']))"
  using row_for_tab [of "''ServerName''" "''Connect Info # Note'' @ [tab] @ (if b then ''Host Info'' @ [tab] else [])"]
    row_for_tab [of "''GroupName''" "[]"]
  by (cases b; simp add: new_list_def SetTitle_def server_titles_def tab_def line_end_def clean_name_def ascii_def space_char_def)+

text \<open>Whether a server is shown with a row that starts with its name.\<close>

definition row_clean :: "(string \<Rightarrow> string) \<Rightarrow> (string \<Rightarrow> string) option \<Rightarrow> servers \<Rightarrow> string \<Rightarrow> bool" where
  "row_clean initials hostInfo sv name \<longleftrightarrow>
     clean_name name \<and> line_end \<notin> set (server_row initials hostInfo sv name)"

lemma server_row_for: "row_clean initials hostInfo sv name \<Longrightarrow> row_for name (server_row initials hostInfo sv name)"
  unfolding row_clean_def by (auto simp: server_row_def row_for_def Let_def)

section \<open>Properties\<close>


definition demo_menu :: config where
  "demo_menu = demo_config\<lparr>c_Grouping := Some False, c_Server := map_of [(''web'', zero_server)]\<rparr>"

lemma demo_menu_clean: "row_clean (\<lambda>_. []) None (c_Server demo_menu) ''web''"
  by (simp add: row_clean_def clean_name_def ascii_def space_char_def server_row_def demo_menu_def server_at_def
      trim_space_def Let_def tab_def line_end_def)

lemma menu_list_simps [simp]:
  "NameList (new_list prompt names multi titles) = names" "DataText (new_list prompt names multi titles) = []"
  "SelectName (new_list prompt names multi titles) = []"
  by (simp_all add: new_list_def SetTitle_def)

text \<open>Enter on a fresh server menu answers with the first name; without names it panics.\<close>

lemma menu_enter:
  assumes "\<forall>n \<in> set names. row_for n (rowFn n)" and "3 \<le> th"
  shows "picked ''ServerName'' (View ul rowFn th [(th', EventKey KeyEnter ch)] (new_list prompt names multi (server_titles b)))
    = (case names of [] \<Rightarrow> Panic | n # ns \<Rightarrow> if n = ''ServerName'' then Exit 1 else Done (Some [n]))"
proof -
  let ?l = "new_list prompt names multi (server_titles b)"
  have f: "length (DataText (getText rowFn ?l)) = Suc (length names)"
      "\<And>i. i < Suc (length names) \<Longrightarrow> first_field (DataText (getText rowFn ?l) ! i) = Done ((''ServerName'' # names) ! i)"
    using getText_first [of ?l "''ServerName''" rowFn] title_row(1) assms(1) by simp_all
  then obtain t rows where d: "DataText (getText rowFn ?l) = t # rows" "length rows = length names"
    by (cases "DataText (getText rowFn ?l)") auto
  show ?thesis
  proof (cases names)
    case Nil
    then show ?thesis using View_enter [OF d(1) _ assms(2)] d(2) by simp
  next
    case (Cons n ns)
    with d(2) obtain r rs where r: "rows = r # rs" by (cases rows) auto
    have "first_field r = Done n" using f(2) [of 1] Cons d(1) r by simp
    then show ?thesis using View_enter [OF d(1) _ assms(2)] r Cons by (simp add: go_index_def)
  qed
qed

lemma demo_menu_answer:
  "ShowServersView id (\<lambda>_. []) None (10, []) (10, [(10, EventKey KeyEnter 0)]) demo_menu [] ''bssh>>'' [''web''] False
   = Done (Some [''web''])"
  using menu_enter [of "[''web'']" "server_row (\<lambda>_. []) None (c_Server demo_menu)" 10] server_row_for [OF demo_menu_clean]
  by (simp add: ShowServersView_def showGroupsView_def FilterNamesByGroup_def demo_menu_def dt_Get_def)


text \<open>C6 When all servers are in one and the same group, the group menu is skipped and the empty group
  name is used, to which no server with a group belongs: the server menu is empty and Enter panics.\<close>

theorem single_group_hides_all:
  assumes "distinct (map fst es)" and "es \<noteq> []" and "c_Server cf = map_of es" and "dt_Get (c_Grouping cf)"
    and "g \<noteq> []" and "\<forall>(k, v) \<in> set es. sc_Group v = [g]"
    and "cf' = parseGroups es cf" and "set ks = dom (c_grouping cf')" and "distinct ks"
    and "set names \<subseteq> fst ` set es" and "3 \<le> th"
  shows "showGroupsView ul gev cf' ks = Done (Some []) \<and> FilterNamesByGroup cf' [] names = []
    \<and> ShowServersView ul initials hostInfo gev (th, [(th', EventKey KeyEnter ch)]) cf' ks prompt names isMulti = Panic"
proof -
  have "dom (c_grouping cf') = (\<Union>(k, v) \<in> set es. if sc_Group v = [] then {[]} else set (sc_Group v))"
    using assms(7) groups_loop_dom [of es Map.empty] by (simp add: parseGroups_def)
  also have "\<dots> = {g}" using assms(2,6) by (cases es) (auto split: if_splits)
  finally have "length ks = 1" using assms(8,9) distinct_card [of ks] by simp
  then have groups: "showGroupsView ul gev cf' ks = Done (Some [])" by (simp add: showGroupsView_def)
  have on: "dt_Get (c_Grouping cf')" using assms(4,7) by (simp add: parseGroups_def)
  have "\<not> BelongsToGroup cf' (server_at (c_Server cf') n) []" if "n \<in> set names" for n
  proof -
    from that assms(10) obtain v where v: "(n, v) \<in> set es" by auto
    then have "server_at (c_Server cf') n = v"
      using assms(1,3,7) by (simp add: parseGroups_def server_at_def)
    then show ?thesis using v assms(6) by (auto simp: BelongsToGroup_def)
  qed
  then have none: "FilterNamesByGroup cf' [] names = []" using on by (simp add: FilterNamesByGroup_def)
  then show ?thesis using groups menu_enter [of "[]" _ th ul th' ch prompt isMulti] assms(11) by (simp add: ShowServersView_def)
qed

lemma single_group_hides_all_witness:
  "ShowServersView id (\<lambda>_. []) None (10, []) (10, [(10, EventKey KeyEnter 0)])
     (parseGroups [(''web'', zero_server\<lparr>sc_Group := [''prod'']\<rparr>)]
       (demo_config\<lparr>c_Server := map_of [(''web'', zero_server\<lparr>sc_Group := [''prod'']\<rparr>)]\<rparr>))
     [''prod''] ''bssh>>'' [''web''] False = Panic"
  by (rule conjunct2 [OF conjunct2 [OF single_group_hides_all [where g = "''prod''"
        and es = "[(''web'', zero_server\<lparr>sc_Group := [''prod'']\<rparr>)]"
        and cf = "demo_config\<lparr>c_Server := map_of [(''web'', zero_server\<lparr>sc_Group := [''prod'']\<rparr>)]\<rparr>"]]])
    (simp_all add: demo_config_def dt_Get_def parseGroups_def addGroup_def)

section \<open>Arguments of a copy\<close>

lemma parseFromLocation_kinds:
  "parseFromLocation xs = Done (r, l) \<Longrightarrow>
   \<exists>ps. map ParseScpPath xs = map Done ps \<and> (r \<longleftrightarrow> True \<in> fst ` set ps) \<and> (l \<longleftrightarrow> False \<in> fst ` set ps)"
proof (induction xs arbitrary: r l)
  case (Cons x xs)
  from Cons.prems obtain b p r' l' where h: "ParseScpPath x = Done (b, p)" "parseFromLocation xs = Done (r', l')"
      "r = (b \<or> r')" "l = (\<not> b \<or> l')"
    by (auto simp: obind_Done_iff split: prod.splits)
  from Cons.IH [OF h(2)] obtain ps where "map ParseScpPath xs = map Done ps" "r' \<longleftrightarrow> True \<in> fst ` set ps"
      "l' \<longleftrightarrow> False \<in> fst ` set ps" by blast
  then show ?case using h by (intro exI [of _ "(b, p) # ps"]) auto
qed simp

lemma setFrom_Done:
  "setFrom fullPath exists xs (b0, acc) = Done (b, ps) \<Longrightarrow>
   length ps = length acc + length xs \<and> (xs = [] \<longrightarrow> b = b0)
   \<and> (xs \<noteq> [] \<longrightarrow> (\<exists>p. ParseScpPath (last xs) = Done (b, p)))"
proof (induction xs arbitrary: b0 acc)
  case (Cons x xs)
  from Cons.prems obtain b1 p acc' where h: "ParseScpPath x = Done (b1, p)"
      "setFrom fullPath exists xs (b1, acc') = Done (b, ps)" "length acc' = Suc (length acc)"
    by (auto simp: obind_Done_iff split: prod.splits if_splits)
  show ?case using Cons.IH [OF h(2)] h(1,3) by auto
qed auto



text \<open>The escaping of a path, component by component.\<close>

lemma EscapePath_append: "EscapePath (a @ b) = EscapePath a @ EscapePath b"
  by (simp add: EscapePath_chars)

lemma EscapePath_same: "EscapePath w = w \<longleftrightarrow> \<not> list_ex escaped w"
proof
  assume "\<not> list_ex escaped w"
  then show "EscapePath w = w" by (induction w) (auto simp: EscapePath_chars)
next
  assume eq: "EscapePath w = w"
  have "length (EscapePath w) = length w + length (filter escaped w)"
    by (induction w) (auto simp: EscapePath_chars)
  with eq have "filter escaped w = []" by simp
  then show "\<not> list_ex escaped w" by (simp add: list_ex_iff filter_empty_conv)
qed

lemma EscapePath_length: "length w \<le> length (EscapePath w)"
  by (induction w) (auto simp: EscapePath_chars)

lemma EscapePath_join: "EscapePath (str_join ts ''/'') = str_join (map EscapePath ts) ''/''"
  by (induction ts rule: induct_list012) (auto simp: EscapePath_chars escaped_def)

lemma EscapePath_plain:
  assumes "plain ts"
  shows "plain (map EscapePath ts)"
proof -
  have "good_comp (EscapePath w) \<and> EscapePath w \<noteq> ''..''" if w: "good_comp w" "w \<noteq> ''..''" for w
  proof -
    have bs: "CHR 0x5C \<in> set (EscapePath w)" if "list_ex escaped w"
      using that by (auto simp: EscapePath_chars list_ex_iff)
    have "slash \<notin> set (EscapePath w)" using w(1) by (auto simp: EscapePath_chars good_comp_def split: if_splits)
    moreover have "EscapePath w \<noteq> []" using EscapePath_length [of w] w(1) by (auto simp: good_comp_def)
    moreover have "EscapePath w \<noteq> ''.'' \<and> EscapePath w \<noteq> ''..''"
      using bs EscapePath_same [of w] w by (cases "list_ex escaped w") (auto simp: good_comp_def)
    ultimately show ?thesis by (simp add: good_comp_def)
  qed
  then show ?thesis using assms by (simp add: plain_def)
qed

text \<open>A remote target with a blank, a semicolon or a backslash in it is not the one typed: the target
  path is quoted as for a shell, but the files are written over sftp, so the backslashes become part of
  the names of the files made on the remote host.\<close>

theorem quoted_target_literal:
  assumes "lscp_infos menu fullPath exists hosts names (args @ [''r:'' @ path_render True ts]) = Done (Some (f, t))"
    and "plain ts" and "plain bs" and "plain xs" and "xs \<noteq> []" and "list_ex (list_ex escaped) ts"
  shows "remote_path (hd (si_Path t)) (path_render q bs) (path_render q (bs @ xs)) = path_render True (map EscapePath ts @ xs)
    \<and> path_render True (map EscapePath ts @ xs) \<noteq> path_render True (ts @ xs)"
proof
  have "ParseScpPath (''r:'' @ path_render True ts) = Done (True, path_render True ts)"
    by (simp add: ParseScpPath_def split2_def to_lower_ascii ascii_def lower_char_def path_render_def replaceUserHome_def has_prefix_def)
  then have "si_Path t = [EscapePath (path_render True ts)]"
    using assms(1) by (auto simp: lscp_infos_def Let_def obind_Done_iff split: if_splits prod.splits option.splits)
  moreover have "EscapePath (path_render True ts) = path_render True (map EscapePath ts)"
    using EscapePath_join [of ts] EscapePath_append [of "''/''"] by (simp add: path_render_def EscapePath_chars escaped_def)
  ultimately show "remote_path (hd (si_Path t)) (path_render q bs) (path_render q (bs @ xs)) = path_render True (map EscapePath ts @ xs)"
    using remote_path_render [OF assms(3) EscapePath_plain [OF assms(2)] assms(4,5)] by simp
  have "map EscapePath ts \<noteq> ts" using assms(6) by (induction ts) (auto simp: EscapePath_same)
  then show "path_render True (map EscapePath ts @ xs) \<noteq> path_render True (ts @ xs)"
    using render_inj [of True "map EscapePath ts @ xs" "ts @ xs"] EscapePath_plain [OF assms(2)] assms(2,4) by auto
qed

lemma quoted_target_literal_witness:
  "\<exists>f t. lscp_infos (\<lambda>_ _ _. Done None) (\<lambda>p. p) (\<lambda>_. True) [''web''] [] ([''/a''] @ [''r:/my dir'']) = Done (Some (f, t))
     \<and> remote_path (hd (si_Path t)) ''/'' ''/a'' = path_render True (map EscapePath [''my dir''] @ [''a''])"
proof -
  have "\<exists>f t. lscp_infos (\<lambda>_ _ _. Done None) (\<lambda>p. p) (\<lambda>_. True) [''web''] [] ([''/a''] @ [''r:/my dir'']) = Done (Some (f, t))"
    by (simp add: lscp_infos_def ParseScpPath_def split2_def TypeError_def parseFromToServer_def
        to_lower_ascii ascii_def lower_char_def)
  then obtain f t where ft: "lscp_infos (\<lambda>_ _ _. Done None) (\<lambda>p. p) (\<lambda>_. True) [''web''] [] ([''/a''] @ [''r:/my dir'']) = Done (Some (f, t))"
    by blast
  have "remote_path (hd (si_Path t)) (path_render True []) (path_render True ([] @ [''a''])) = path_render True (map EscapePath [''my dir''] @ [''a''])"
    by (rule conjunct1 [OF quoted_target_literal [of "\<lambda>_ _ _. Done None" "\<lambda>p. p" "\<lambda>_. True" "[''web'']" "[]" "[''/a'']" "[''my dir'']" f t]])
      (use ft in \<open>simp_all add: path_render_def plain_def good_comp_def escaped_def\<close>)
  then show ?thesis using ft by (auto simp: path_render_def)
qed

end
