(* ===== verification/Sftp.thy ===== *)
theory Sftp
  imports Scp Output "HOL-Library.Word"
begin

text \<open>
  src/sftp: the shell over the sftp clients of several hosts. A client is its server and its working
  directory; what a host answers is an argument, and a command is the operations it issues on each
  client. The arguments and flags of a command are those the command-line library hands to its action.
\<close>

section \<open>Clients and the working directory (cmd_cd.go)\<close>

record sftp_client =
  cl_server :: string
  cl_Pwd :: string

definition new_client :: "string \<Rightarrow> sftp_client" where
  "new_client server = \<lparr>cl_server = server, cl_Pwd = ''./''\<rparr>"

text \<open>What a host answers: the target of a link, a file's kind and owners (the owners are missing for a
  file information of another type), its content, and the error of an operation.\<close>

record remote_stat =
  rs_isDir :: bool
  rs_owner :: "(nat \<times> nat) option"

datatype sftp_op =
    SMkdir string
  | SMkdirAll string
  | SRemove string
  | SRemoveDirectory string
  | SRename string string
  | SSymlink string string
  | SChown string int int
  | SChmod string nat

record remote =
  re_readlink :: "string \<Rightarrow> string option"
  re_lstat :: "string \<Rightarrow> remote_stat option"
  re_read :: "string \<Rightarrow> string option"
  re_ok :: "sftp_op \<Rightarrow> bool"

text \<open>A path argument, relative to the working directory unless it is absolute.\<close>

definition sftp_path :: "string \<Rightarrow> string \<Rightarrow> string" where
  "sftp_path pwd path = (if is_abs path then path else path_join [pwd, path])"

definition cd_target :: "remote \<Rightarrow> string \<Rightarrow> string \<Rightarrow> string \<times> bool" where
  "cd_target re pwd arg =
     (let p = sftp_path pwd arg; path = (case re_readlink re p of Some q \<Rightarrow> q | None \<Rightarrow> p)
      in (path, case re_lstat re path of Some st \<Rightarrow> rs_isDir st | None \<Rightarrow> False))"

fun cd_loop :: "(string \<Rightarrow> remote) \<Rightarrow> string \<Rightarrow> sftp_client list \<Rightarrow> string \<Rightarrow> nat \<Rightarrow> string \<times> nat" where
  "cd_loop re arg [] path okcounter = (path, okcounter)"
| "cd_loop re arg (c # cs) path okcounter =
     (let (p, ok) = cd_target (re (cl_server c)) (cl_Pwd c) arg
      in cd_loop re arg cs p (if ok then Suc okcounter else okcounter))"

text \<open>\<open>cd\<close>: the path of the last client becomes the directory of all, when all have it.\<close>

definition set_pwd :: "string \<Rightarrow> sftp_client list \<Rightarrow> sftp_client list" where
  "set_pwd path clients = map (\<lambda>c. c\<lparr>cl_Pwd := path\<rparr>) clients"

definition cd :: "(string \<Rightarrow> remote) \<Rightarrow> string list \<Rightarrow> sftp_client list \<Rightarrow> sftp_client list" where
  "cd re args clients =
     (if length args = 1 then set_pwd ''./'' clients
      else let (path, okcounter) = cd_loop re (args ! 1) clients ''./'' 0
           in if okcounter \<noteq> length clients then clients else set_pwd path clients)"

definition pwd_line :: "string \<Rightarrow> string \<Rightarrow> string" where
  "pwd_line getwd pwd =
     (if pwd = [] then getwd else if is_abs pwd then pwd else path_join [getwd, pwd])"

text \<open>\<open>pwd\<close> over the clients, each with the directory its server gives (empty on an error), and
  \<open>lpwd\<close>, which prints the empty directory behind an error.\<close>

definition sftp_pwd :: "(string \<Rightarrow> string option) \<Rightarrow> sftp_client list \<Rightarrow> (string \<times> string) list" where
  "sftp_pwd getwd clients =
     map (\<lambda>c. (cl_server c, pwd_line (case getwd (cl_server c) of Some d \<Rightarrow> d | None \<Rightarrow> []) (cl_Pwd c))) clients"

definition lpwd :: "string + string \<Rightarrow> string list" where
  "lpwd getwd = (case getwd of Inl e \<Rightarrow> [e, []] | Inr d \<Rightarrow> [d])"

section \<open>Changes on the hosts\<close>

text \<open>An action on one client: the operations issued and whether the success message is printed.\<close>

type_synonym action = "sftp_op list \<times> bool"

definition issue :: "remote \<Rightarrow> sftp_op \<Rightarrow> action" where
  "issue re x = ([x], re_ok re x)"

definition doChmod :: "remote \<Rightarrow> string \<Rightarrow> string \<Rightarrow> string \<Rightarrow> action" where
  "doChmod re pwd mode path =
     (case parse_uint mode 8 32 of
        (modeint, None) \<Rightarrow> issue re (SChmod (sftp_path pwd path) modeint)
      | (_, Some e) \<Rightarrow> ([], False))"

text \<open>The id of a user or group: a number, or its entry in the file of the host.\<close>

definition owner_id :: "remote \<Rightarrow> string \<Rightarrow> string \<Rightarrow> int option outcome" where
  "owner_id re file name =
     (case atoi name of
        Some n \<Rightarrow> Done (Some n)
      | None \<Rightarrow> (case re_read re file of
                   None \<Rightarrow> Done None
                 | Some content \<Rightarrow> obind (GetIDFromName content name) (\<lambda>r. Done (map_option int r))))"

definition change_owner :: "remote \<Rightarrow> string \<Rightarrow> string \<Rightarrow> string \<Rightarrow> string \<Rightarrow> (int \<Rightarrow> nat \<times> nat \<Rightarrow> int \<times> int) \<Rightarrow> action outcome" where
  "change_owner re file pwd name path owners =
     obind (owner_id re file name) (\<lambda>i. Done (case i of
       None \<Rightarrow> ([], False)
     | Some n \<Rightarrow>
         (case re_lstat re (sftp_path pwd path) of
            None \<Rightarrow> ([], False)
          | Some st \<Rightarrow>
              (let (uid, gid) = owners n (case rs_owner st of Some ow \<Rightarrow> ow | None \<Rightarrow> (0, 0))
               in issue re (SChown (sftp_path pwd path) uid gid)))))"

definition group_file :: string where
  "group_file = slash # ''etc'' @ slash # ''group''"

definition passwd_file :: string where
  "passwd_file = slash # ''etc'' @ slash # ''passwd''"

definition doChgrp :: "remote \<Rightarrow> string \<Rightarrow> string \<Rightarrow> string \<Rightarrow> action outcome" where
  "doChgrp re pwd grp path = change_owner re group_file pwd grp path (\<lambda>n (uid, gid). (int uid, n))"

definition doChown :: "remote \<Rightarrow> string \<Rightarrow> string \<Rightarrow> string \<Rightarrow> action outcome" where
  "doChown re pwd user path = change_owner re passwd_file pwd user path (\<lambda>n (uid, gid). (n, int gid))"

text \<open>\<open>mkdirAction\<close> prints its message after an error, too.\<close>

definition doMkdir :: "remote \<Rightarrow> bool \<Rightarrow> string \<Rightarrow> string \<Rightarrow> action" where
  "doMkdir re p pwd path = ([if p then SMkdirAll (sftp_path pwd path) else SMkdir (sftp_path pwd path)], True)"

definition doRename :: "remote \<Rightarrow> string \<Rightarrow> string \<Rightarrow> action" where
  "doRename re oldname newname = issue re (SRename oldname newname)"

definition doSymlink :: "remote \<Rightarrow> string \<Rightarrow> string \<Rightarrow> string \<Rightarrow> action" where
  "doSymlink re pwd source target = issue re (SSymlink (sftp_path pwd source) (sftp_path pwd target))"

text \<open>\<open>rmdirAction\<close> goes through the clients in turn and stops at the first error; the path is used as
  it is.\<close>

fun rmdir_loop :: "(string \<Rightarrow> remote) \<Rightarrow> string \<Rightarrow> sftp_client list \<Rightarrow> (string \<times> action) list" where
  "rmdir_loop re path [] = []"
| "rmdir_loop re path (c # cs) =
     (let a = issue (re (cl_server c)) (SRemoveDirectory path)
      in (cl_server c, a) # (if snd a then rmdir_loop re path cs else []))"

text \<open>\<open>doRM\<close>; \<open>steps\<close> are the steps of the walk, an error or a path.\<close>

fun walk_data :: "(bool \<times> string) list \<Rightarrow> string list option" where
  "walk_data [] = Some []"
| "walk_data ((err, p) # steps) = (if err then None else map_option ((#) p) (walk_data steps))"

fun remove_loop :: "remote \<Rightarrow> string list \<Rightarrow> action" where
  "remove_loop re [] = ([], True)"
| "remove_loop re (p # ps) =
     (if re_ok re (SRemove p) then (case remove_loop re ps of (xs, done) \<Rightarrow> (SRemove p # xs, done))
      else ([SRemove p], False))"

definition doRM :: "remote \<Rightarrow> bool \<Rightarrow> (string \<Rightarrow> (bool \<times> string) list) \<Rightarrow> string \<Rightarrow> string \<Rightarrow> action" where
  "doRM re r walked pwd path =
     (if r then (case walk_data (walked (sftp_path pwd path)) of
                   None \<Rightarrow> ([], False)
                 | Some data \<Rightarrow> remove_loop re (rev data))
      else issue re (SRemove (sftp_path pwd path)))"

section \<open>Listings (cmd.go, cmd_ls.go, cmd_df.go)\<close>

record file_info =
  fi_Name :: string
  fi_Size :: nat
  fi_ModTime :: int
  fi_Mode :: string
  fi_owner :: "(nat \<times> nat) option"

record ls_flags =
  ls_a :: bool
  ls_f :: bool
  ls_h :: bool
  ls_l :: bool
  ls_n :: bool
  ls_r :: bool
  ls_S :: bool
  ls_t :: bool

text \<open>\<open>SortLsData\<close>; the sort of the code leaves the order of equal entries open, here it is kept.\<close>

definition sort_dir :: "bool \<Rightarrow> ('a \<Rightarrow> 'b::linorder) \<Rightarrow> 'a list \<Rightarrow> 'a list" where
  "sort_dir rv key xs = (if rv then rev (sort_key key xs) else sort_key key xs)"

definition SortLsData :: "ls_flags \<Rightarrow> file_info list \<Rightarrow> file_info list" where
  "SortLsData fl fs =
     (if ls_f fl then (if ls_l fl then sort_dir (ls_r fl) fi_Name fs else fs)
      else if ls_S fl then sort_dir (ls_r fl) fi_Size fs
      else if ls_t fl then sort_dir (ls_r fl) fi_ModTime fs
      else sort_dir (ls_r fl) fi_Name fs)"

definition ls_path :: "string \<Rightarrow> string \<Rightarrow> string" where
  "ls_path pwd argpath = (if argpath = [] then pwd else sftp_path pwd argpath)"

text \<open>\<open>getRemoteLsData\<close>: the files, and the passwd and group files of the host.\<close>

definition getRemoteLsData ::
  "remote \<Rightarrow> (string \<Rightarrow> file_info) \<Rightarrow> (string \<Rightarrow> file_info list option) \<Rightarrow> string \<Rightarrow> (file_info list \<times> string \<times> string) option" where
  "getRemoteLsData re info_of readDir path0 =
     (let path = (case re_readlink re path0 of Some p \<Rightarrow> p | None \<Rightarrow> path0) in
      case re_lstat re path of
        None \<Rightarrow> None
      | Some st \<Rightarrow>
          (case (if rs_isDir st then readDir path else Some [info_of path]) of
             None \<Rightarrow> None
           | Some data \<Rightarrow>
               (case (re_read re passwd_file, re_read re group_file) of
                  (Some passwd, Some groups) \<Rightarrow> Some (data, passwd, groups)
                | _ \<Rightarrow> None)))"

definition doLs ::
  "remote \<Rightarrow> (string \<Rightarrow> file_info) \<Rightarrow> (string \<Rightarrow> file_info list option) \<Rightarrow> ls_flags \<Rightarrow> string \<Rightarrow> string
   \<Rightarrow> (file_info list \<times> string \<times> string) option" where
  "doLs re info_of readDir fl pwd argpath =
     map_option (\<lambda>(data, rest).
       (SortLsData fl (if ls_a fl then data else filter (\<lambda>f. \<not> has_prefix (fi_Name f) ''.'') data), rest))
       (getRemoteLsData re info_of readDir (ls_path pwd argpath))"

text \<open>The long format: the width of the size column over all hosts, and the cells of a row;
  \<open>human\<close> is \<open>humanize.Bytes\<close> and \<open>stamp\<close> the printed time.\<close>

definition size_text :: "(nat \<Rightarrow> string) \<Rightarrow> ls_flags \<Rightarrow> nat \<Rightarrow> string" where
  "size_text human fl n = (if ls_h fl then human n else format_uint n)"

definition max_size_width :: "(nat \<Rightarrow> string) \<Rightarrow> ls_flags \<Rightarrow> file_info list list \<Rightarrow> nat" where
  "max_size_width human fl fss = foldl max 0 (map (\<lambda>f. length (size_text human fl (fi_Size f))) (concat fss))"

definition pad_left :: "nat \<Rightarrow> string \<Rightarrow> string" where
  "pad_left w s = replicate (w - rune_count s) CHR '' '' @ s"

definition owner_name :: "ls_flags \<Rightarrow> string \<Rightarrow> nat \<Rightarrow> string outcome" where
  "owner_name fl content i =
     (if ls_n fl then Done (format_uint i)
      else obind (GetNameFromID content i) (\<lambda>r. Done (case r of Some n \<Rightarrow> n | None \<Rightarrow> [])))"

definition listFile ::
  "(nat \<Rightarrow> string) \<Rightarrow> (int \<Rightarrow> string) \<Rightarrow> ls_flags \<Rightarrow> nat \<Rightarrow> nat \<Rightarrow> string \<Rightarrow> string \<Rightarrow> string \<Rightarrow> file_info \<Rightarrow> string list outcome" where
  "listFile human stamp fl hosts maxSizeWidth prompt passwd groups f =
     (let (uid, gid) = (case fi_owner f of Some ow \<Rightarrow> ow | None \<Rightarrow> (0, 0));
          known = (fi_owner f \<noteq> None);
          size = (if known then fi_Size f else 0);
          timestr = (if known then stamp (fi_ModTime f) else [])
      in obind (owner_name fl passwd uid) (\<lambda>user. obind (owner_name fl groups gid) (\<lambda>grp.
           Done ((if hosts = 1 then [] else [prompt])
                 @ [fi_Mode f, user, grp, pad_left maxSizeWidth (size_text human fl size), timestr, fi_Name f]))))"

text \<open>\<open>setDataInColumns\<close> without the capacity, a float; the numbers are 64-bit and
  \<open>total - free\<close> wraps around.\<close>

definition df_columns :: "(64 word \<Rightarrow> string) \<Rightarrow> bool \<Rightarrow> bool \<Rightarrow> string \<Rightarrow> 64 word \<times> 64 word \<Rightarrow> 64 word \<times> 64 word \<Rightarrow> string list" where
  "df_columns ibytes i h server inodes space =
     (let (totals, frees) = (if i then inodes else space); useds = totals - frees;
          show_num = (\<lambda>w. if i then format_uint (unat w) else if h then ibytes w else format_uint (unat (w div 1024)))
      in [server, show_num totals, show_num useds, show_num frees])"

section \<open>Transfers (cmd_get.go, cmd_put.go)\<close>

text \<open>\<open>pushPath\<close> and \<open>putAction\<close>: the operations on one client; \<open>pushFile\<close> is that
  of the copies. A failing \<open>Lstat\<close> gives a nil file information, which is used.\<close>

definition put_path :: "string \<Rightarrow> string \<Rightarrow> string \<Rightarrow> string \<Rightarrow> string" where
  "put_path pwd target base path =
     path_join [sftp_path pwd target, case path_rel base path of Some r \<Rightarrow> r | None \<Rightarrow> []]"

definition sftp_pushPath :: "local_fs \<Rightarrow> (file_op \<Rightarrow> bool) \<Rightarrow> string \<Rightarrow> string \<Rightarrow> string \<Rightarrow> string \<Rightarrow> file_op list outcome" where
  "sftp_pushPath fs ok pwd target base path =
     (let rpath = put_path pwd target base path in
      case lf_lstat fs path of
        None \<Rightarrow> Panic
      | Some (isDir, mode) \<Rightarrow> Done (
          if isDir then [Mkdir rpath, Chmod rpath mode]
          else (case lf_open fs path of
                  None \<Rightarrow> []
                | Some content \<Rightarrow>
                    (case pushFile ok rpath content of
                       (ops, True) \<Rightarrow> ops @ [Chmod rpath mode]
                     | (ops, False) \<Rightarrow> ops))))"

fun put_loop :: "local_fs \<Rightarrow> (file_op \<Rightarrow> bool) \<Rightarrow> string \<Rightarrow> string \<Rightarrow> string \<Rightarrow> string list \<Rightarrow> file_op list outcome" where
  "put_loop fs ok pwd target base [] = Done []"
| "put_loop fs ok pwd target base (p # ps) =
     obind (sftp_pushPath fs ok pwd target base p) (\<lambda>ops.
     obind (put_loop fs ok pwd target base ps) (\<lambda>rest. Done (ops @ rest)))"

definition putAction ::
  "local_fs \<Rightarrow> (string \<Rightarrow> fnode option) \<Rightarrow> (string \<Rightarrow> string) \<Rightarrow> (string \<Rightarrow> file_op \<Rightarrow> bool) \<Rightarrow> string list
   \<Rightarrow> sftp_client list \<Rightarrow> (string \<times> file_op list outcome) list" where
  "putAction fs tree expandHome ok args clients =
     (case args of
        [a0, target] \<Rightarrow>
          (let source = expandHome a0 in
           case WalkDir source (tree source) of
             None \<Rightarrow> []
           | Some data \<Rightarrow> map (\<lambda>c. (cl_server c,
               put_loop fs (ok (cl_server c)) (cl_Pwd c) target (path_dir source) (sort data))) clients)
      | _ \<Rightarrow> [])"

text \<open>\<open>pullPath\<close>: every entry of the walks of the matches, hidden ones too.\<close>

definition get_entry :: "(file_op \<Rightarrow> bool) \<Rightarrow> string \<Rightarrow> string \<Rightarrow> pull_entry \<Rightarrow> file_op list" where
  "get_entry ok target base e =
     (if pe_err e then []
      else let lpath = local_path target base (pe_path e) in
           if pe_isDir e then [Mkdir lpath, Chmod lpath (pe_mode e)]
           else (case pe_content e of
                   None \<Rightarrow> []
                 | Some content \<Rightarrow>
                     (case run_ops ok [OpenFile lpath, WriteFile lpath content] of
                        (ops, True) \<Rightarrow> ops @ [Chmod lpath (pe_mode e)]
                      | (ops, False) \<Rightarrow> ops)))"

definition sftp_pullPath ::
  "(file_op \<Rightarrow> bool) \<Rightarrow> (string \<Rightarrow> string list) \<Rightarrow> (string \<Rightarrow> pull_entry list) \<Rightarrow> string \<Rightarrow> string \<Rightarrow> string \<Rightarrow> file_op list" where
  "sftp_pullPath ok glob walked pwd target path =
     (let rpath = sftp_path pwd path
      in concat (map (\<lambda>ep. concat (map (get_entry ok target (path_dir rpath)) (walked ep))) (glob rpath)))"

text \<open>\<open>getAction\<close>: with several hosts each gets a directory of its own below the target; the first
  one that cannot be made ends the command, the hosts before it already run.\<close>

definition get_dir :: "string \<Rightarrow> nat \<Rightarrow> string \<Rightarrow> string" where
  "get_dir target hosts server = (if hosts > 1 then path_join [target, server] else target)"

fun get_loop :: "(string \<Rightarrow> bool) \<Rightarrow> string \<Rightarrow> nat \<Rightarrow> sftp_client list \<Rightarrow> (sftp_client \<times> string) list" where
  "get_loop mkdirOk target hosts [] = []"
| "get_loop mkdirOk target hosts (c # cs) =
     (if hosts > 1 \<and> \<not> mkdirOk (get_dir target hosts (cl_server c)) then []
      else (c, get_dir target hosts (cl_server c)) # get_loop mkdirOk target hosts cs)"

definition getAction ::
  "(string \<Rightarrow> bool) \<Rightarrow> (string \<Rightarrow> string) \<Rightarrow> string \<Rightarrow> string list \<Rightarrow> sftp_client list \<Rightarrow> (sftp_client \<times> string) list" where
  "getAction mkdirOk expandHome cwd args clients =
     (case args of
        [source, a1] \<Rightarrow>
          (let target = path_abs cwd (expandHome a1)
           in if mkdirOk target then get_loop mkdirOk target (length clients) clients else [])
      | _ \<Rightarrow> [])"

section \<open>Completion (shell.go)\<close>

datatype completion = CommandNames | PathNames bool nat | OptionNames string | NoNames

text \<open>The kind of completion for the text left of the cursor.\<close>

definition last_char :: "string \<Rightarrow> string" where
  "last_char left = (if left = [] then [] else [last left])"

definition option_or_path :: "string \<Rightarrow> string \<Rightarrow> bool \<Rightarrow> completion" where
  "option_or_path cmd left remote_side = (if last_char left = ''-'' then OptionNames cmd else PathNames remote_side 1)"

definition Completer :: "string \<Rightarrow> completion" where
  "Completer left =
     (let cmdline = split_on CHR '' '' left; cmd = hd cmdline; blanks = count_byte left CHR '' '' in
      if length cmdline = 1 then CommandNames
      else if cmd = ''cd'' then PathNames True 1
      else if cmd = ''df'' then OptionNames cmd
      else if cmd = ''get'' then (if blanks = 1 then PathNames True 1 else if blanks = 2 then PathNames False 2 else NoNames)
      else if cmd = ''lcd'' then PathNames False 1
      else if cmd = ''lls'' \<or> cmd = ''lmkdir'' then option_or_path cmd left False
      else if cmd = ''ls'' \<or> cmd = ''mkdir'' then option_or_path cmd left True
      else if cmd = ''put'' then (if blanks = 1 then PathNames False 1 else if blanks = 2 then PathNames True 2 else NoNames)
      else if cmd = ''rename'' \<or> cmd = ''rm'' \<or> cmd = ''rmdir'' then PathNames True 1
      else NoNames)"

text \<open>The options that are offered for a command after a dash, and the commands at the start of a
  line.\<close>

definition option_names :: "string \<Rightarrow> string list" where
  "option_names cmd =
     (if cmd = ''mkdir'' \<or> cmd = ''lmkdir'' then [''-p'']
      else if cmd = ''ls'' \<or> cmd = ''lls'' then [''-1'', ''-a'', ''-f'', ''-h'', ''-l'', ''-n'', ''-r'', ''-S'', ''-t'']
      else if cmd = ''df'' then [''-h'', ''-i'']
      else [])"

definition createSuggest :: "string list" where
  "createSuggest = [''bye'', ''cd'', ''chgrp'', ''chown'', ''df'', ''exit'', ''get'', ''help'', ''lcd'', ''lls'', ''lmkdir'',
     ''lpwd'', ''ls'', ''mkdir'', ''put'', ''pwd'', ''quit'', ''rename'', ''rm'', ''rmdir'', ''symlink'', ''!'', ''?'']"

text \<open>\<open>PathComplete\<close>: the word the names must start with, and whether the names are read anew.\<close>

definition complete_word :: "string \<Rightarrow> string" where
  "complete_word word = (case str_last_index ''/'' word of None \<Rightarrow> word | Some i \<Rightarrow> drop (Suc i) word)"

definition complete_refresh :: "string \<Rightarrow> nat \<Rightarrow> bool" where
  "complete_refresh left num \<longleftrightarrow>
     last_char left = ''/'' \<or> (last_char left = '' '' \<and> count_byte left CHR '' '' = num)"

definition prepareRemotePath :: "(string \<Rightarrow> bool option) \<Rightarrow> string \<Rightarrow> string \<Rightarrow> string option" where
  "prepareRemotePath isDir pwd path =
     (let rpath = (if is_abs path then path
                   else if has_prefix path ''~/'' then path_join [pwd, drop 2 path]
                   else path_join [pwd, path])
      in map_option (\<lambda>d. if d then rpath @ ''/*'' else rpath @ ''*'') (isDir rpath))"

text \<open>\<open>GetRemoteComplete\<close> on the matches of the hosts, in the order they answer: every name once, in
  order, with the hosts that have it.\<close>

definition name_hosts :: "(string \<times> string list) list \<Rightarrow> string \<Rightarrow> string list" where
  "name_hosts found n = concat (map (\<lambda>(server, ps). map (\<lambda>p. server) (filter (\<lambda>p. path_base p = n) ps)) found)"

definition remote_complete :: "(string \<times> string list) list \<Rightarrow> (string \<times> string) list" where
  "remote_complete found =
     map (\<lambda>n. (n, ''remote path. from:'' @ str_join (name_hosts found n) '',''))
       (sort (remdups (concat (map (\<lambda>(server, ps). map path_base ps) found))))"

section \<open>The shell (shell.go)\<close>

datatype sftp_cmd =
    CmdCd "string list" | CmdAction string "string list" | CmdLocal string "string list" | CmdNothing | CmdNotFound

text \<open>\<open>Executor\<close> on the words of a line: the command, or the end of the program.\<close>

definition Executor :: "string list \<Rightarrow> sftp_cmd outcome" where
  "Executor cmdline =
     obind (go_index cmdline 0) (\<lambda>cmd.
       if cmd \<in> {''bye'', ''exit'', ''quit''} then Exit 0
       else Done (
         if cmd = ''cd'' then CmdCd cmdline
         else if cmd \<in> {''chgrp'', ''chmod'', ''chown'', ''df'', ''get'', ''ls'', ''mkdir'', ''put'', ''pwd'',
                         ''rename'', ''rm'', ''rmdir'', ''symlink''} then CmdAction cmd cmdline
         else if cmd \<in> {''lcd'', ''lls'', ''lmkdir'', ''lpwd''} then CmdLocal cmd cmdline
         else if cmd \<in> {''help'', ''?'', []} then CmdNothing
         else CmdNotFound))"

text \<open>A line on the clients: of all commands only \<open>cd\<close> changes them. What the hosts answer may
  change from line to line.\<close>

definition exec_line_clients :: "(string \<Rightarrow> remote) \<Rightarrow> string list \<Rightarrow> sftp_client list \<Rightarrow> sftp_client list outcome" where
  "exec_line_clients re cmdline clients =
     obind (Executor cmdline) (\<lambda>c. Done (case c of CmdCd args \<Rightarrow> cd re args clients | _ \<Rightarrow> clients))"

fun sftp_session :: "((string \<Rightarrow> remote) \<times> string list) list \<Rightarrow> sftp_client list \<Rightarrow> sftp_client list outcome" where
  "sftp_session [] clients = Done clients"
| "sftp_session ((re, cmdline) # ls) clients = obind (exec_line_clients re cmdline clients) (sftp_session ls)"

section \<open>Facts\<close>

text \<open>Of the commands that are offered, only the escape to a local shell is not one.\<close>

lemma suggested_dispatched:
  "c \<in> set createSuggest \<Longrightarrow> Executor (c # args) = Done CmdNotFound \<longleftrightarrow> c = ''!''"
  by (auto simp: createSuggest_def Executor_def go_index_def)

text \<open>All clients have the same working directory.\<close>

definition same_pwd :: "sftp_client list \<Rightarrow> bool" where
  "same_pwd clients \<longleftrightarrow> (\<exists>p. \<forall>c \<in> set clients. cl_Pwd c = p)"

lemma set_pwd_same: "same_pwd (set_pwd p clients)"
  by (auto simp: same_pwd_def set_pwd_def)

lemma set_pwd_servers: "map cl_server (set_pwd p clients) = map cl_server clients"
  by (simp add: set_pwd_def)

lemma cd_keeps: "same_pwd clients \<Longrightarrow> same_pwd (cd re args clients) \<and> map cl_server (cd re args clients) = map cl_server clients"
  by (auto simp: cd_def set_pwd_same set_pwd_servers split: prod.splits)

lemma session_keeps:
  "same_pwd clients \<Longrightarrow> sftp_session ls clients = Done clients' \<Longrightarrow>
   same_pwd clients' \<and> map cl_server clients' = map cl_server clients"
proof (induction ls clients rule: sftp_session.induct)
  case (2 re cmdline ls clients)
  from "2.prems"(2) obtain c where c: "Executor cmdline = Done c"
      "sftp_session ls (case c of CmdCd args \<Rightarrow> cd re args clients | _ \<Rightarrow> clients) = Done clients'"
    by (auto simp: exec_line_clients_def obind_Done_iff)
  have "same_pwd (case c of CmdCd args \<Rightarrow> cd re args clients | _ \<Rightarrow> clients)
      \<and> map cl_server (case c of CmdCd args \<Rightarrow> cd re args clients | _ \<Rightarrow> clients) = map cl_server clients"
    using cd_keeps "2.prems"(1) by (cases c) auto
  then show ?case using "2.IH" [of "case c of CmdCd args \<Rightarrow> cd re args clients | _ \<Rightarrow> clients"] c
    by (simp add: exec_line_clients_def)
qed simp

text \<open>The abstract file system of the removals: a set of paths from which a path without others below
  it can be taken.\<close>

definition below :: "string \<Rightarrow> string \<Rightarrow> bool" where
  "below p q \<longleftrightarrow> (\<exists>x. q = p @ slash # x)"

definition can_remove :: "string set \<Rightarrow> string \<Rightarrow> bool" where
  "can_remove fs p \<longleftrightarrow> p \<in> fs \<and> \<not> (\<exists>q \<in> fs. below p q)"

fun removals :: "string set \<Rightarrow> string list \<Rightarrow> bool" where
  "removals fs [] = True"
| "removals fs (p # ps) \<longleftrightarrow> can_remove fs p \<and> removals (fs - {p}) ps"

lemma removals_walk:
  assumes "distinct ps" and "set ps \<subseteq> fs" and "\<forall>p \<in> set ps. \<forall>q \<in> fs. below p q \<longrightarrow> q \<in> set ps"
    and "sorted_wrt (\<lambda>p q. \<not> below p q) ps"
  shows "removals fs ps"
  using assms
proof (induction ps arbitrary: fs)
  case (Cons p ps)
  have nb: "\<not> below p p" by (simp add: below_def)
  have "can_remove fs p" using Cons.prems nb by (auto simp: can_remove_def)
  moreover have "removals (fs - {p}) ps"
    by (rule Cons.IH) (use Cons.prems in \<open>auto dest: bspec\<close>)
  ultimately show ?case by simp
qed simp

lemma remove_loop_ops:
  "(\<forall>p \<in> set ps. re_ok re (SRemove p)) \<Longrightarrow> remove_loop re ps = (map SRemove ps, True)"
  by (induction ps) auto

lemma walk_data_ok: "walk_data (map (Pair False) ps) = Some ps"
  by (induction ps) auto

lemma sorted_sort_dir: "sorted (map key (sort_dir False key xs))" "sorted (rev (map key (sort_dir True key xs)))"
  by (simp_all add: sort_dir_def rev_map [symmetric])

section \<open>Properties\<close>

text \<open>C15 All hosts of an sftp session stay in the same directory: whatever lines are typed and whatever
  the hosts answer, the clients keep their servers and share one working directory.\<close>

theorem one_working_directory:
  assumes "sftp_session ls (map new_client servers) = Done clients"
  shows "map cl_server clients = servers \<and> (\<exists>pwd. \<forall>c \<in> set clients. cl_Pwd c = pwd)"
proof -
  have "same_pwd (map new_client servers)" by (auto simp: same_pwd_def new_client_def)
  from session_keeps [OF this assms] show ?thesis by (simp add: same_pwd_def new_client_def comp_def)
qed

definition demo_remote :: remote where
  "demo_remote = \<lparr>re_readlink = (\<lambda>_. None), re_lstat = (\<lambda>_. Some \<lparr>rs_isDir = True, rs_owner = None\<rparr>),
     re_read = (\<lambda>_. None), re_ok = (\<lambda>_. True)\<rparr>"

lemma one_working_directory_witness:
  "\<exists>clients. sftp_session [(\<lambda>_. demo_remote, [''cd'', ''/srv''])] (map new_client [''a'', ''b'']) = Done clients
     \<and> map cl_server clients = [''a'', ''b'']"
proof -
  have "\<exists>clients. sftp_session [(\<lambda>_. demo_remote, [''cd'', ''/srv''])] (map new_client [''a'', ''b'']) = Done clients"
    by (simp add: exec_line_clients_def Executor_def go_index_def)
  then show ?thesis using one_working_directory by blast
qed

text \<open>A blank line ends the sftp shell with a panic: the words of the line are indexed before the
  case for an empty command. No other line panics in the dispatch.\<close>

theorem blank_line_panics:
  "Executor cmdline = Panic \<longleftrightarrow> cmdline = []"
  by (cases cmdline) (auto simp: Executor_def go_index_def)

text \<open>C16 A recursive removal empties a directory: when the walk lists every path below the argument
  once and every directory before what is below it, the paths are removed in an order in which each of
  them has nothing below it any more, and all of them are removed.\<close>

theorem rm_removes_tree:
  assumes "walked (sftp_path pwd path) = map (Pair False) ps" and "distinct ps" and "set ps \<subseteq> fs"
    and "\<forall>p \<in> set ps. \<forall>q \<in> fs. below p q \<longrightarrow> q \<in> set ps" and "sorted_wrt (\<lambda>p q. \<not> below q p) ps"
    and "\<forall>x. re_ok re x"
  shows "doRM re True walked pwd path = (map SRemove (rev ps), True) \<and> removals fs (rev ps)"
proof
  show "doRM re True walked pwd path = (map SRemove (rev ps), True)"
    using assms(1,6) by (simp add: doRM_def walk_data_ok remove_loop_ops)
  have "sorted_wrt (\<lambda>p q. \<not> below p q) (rev ps)" using assms(5) by (simp add: sorted_wrt_rev)
  then show "removals fs (rev ps)" using assms(2-4) by (intro removals_walk) simp_all
qed

lemma rm_removes_tree_witness:
  "doRM demo_remote True (\<lambda>_. map (Pair False) [''/d'', ''/d/a'', ''/d/a/f'']) ''./'' ''/d''
     = (map SRemove (rev [''/d'', ''/d/a'', ''/d/a/f'']), True)
   \<and> removals {''/'', ''/d'', ''/d/a'', ''/d/a/f''} (rev [''/d'', ''/d/a'', ''/d/a/f''])"
  by (rule rm_removes_tree) (simp_all add: below_def demo_remote_def)

text \<open>The size and time orders of \<open>ls\<close>: smallest and oldest first, unlike the help text of the
  options.\<close>

lemma ls_smallest_first:
  "ls_S fl \<Longrightarrow> \<not> ls_f fl \<Longrightarrow> \<not> ls_r fl \<Longrightarrow> sorted (map fi_Size (SortLsData fl fs))"
  "ls_t fl \<Longrightarrow> \<not> ls_f fl \<Longrightarrow> \<not> ls_S fl \<Longrightarrow> \<not> ls_r fl \<Longrightarrow> sorted (map fi_ModTime (SortLsData fl fs))"
  by (simp_all add: SortLsData_def sorted_sort_dir)

end
