(* ===== verification/Pshell.thy ===== *)
theory Pshell
  imports Ssh_Shell Output
begin

text \<open>
  src/ssh/pshell*.go: the parallel shell. A line is parsed into pipelines (the syntax tree is that of
  the shell parser, with its words already printed), joined into local and remote parts, and run; the
  built-in commands, the signals they send at their end, the history file, and the completion.
\<close>

section \<open>Parsing (pshell_parse.go)\<close>

record pipe_line =
  pl_Args :: "string list"
  pl_Operator :: string

text \<open>The commands of the tree: a call with the printed parts of its words, two statements with their
  redirections around an operator, and everything else (also no command).\<close>

type_synonym redirs = "(string option \<times> string \<times> string list) list"

datatype shcmd =
    CallExpr "string list list"
  | BinaryCmd shcmd redirs string shcmd redirs
  | OtherCmd

definition parseCallExpr :: "string list list \<Rightarrow> string list" where
  "parseCallExpr words = concat words"

definition parseRedirect :: "redirs \<Rightarrow> string list" where
  "parseRedirect rs = map (\<lambda>(n, op, parts). (case n of Some v \<Rightarrow> v | None \<Rightarrow> []) @ op @ concat parts) rs"

text \<open>The loop over a statement; \<open>None\<close> is a loop that never ends.\<close>

partial_function (option) parse_stmt :: "shcmd \<Rightarrow> redirs \<Rightarrow> pipe_line list \<Rightarrow> pipe_line list option" where
  "parse_stmt stmtCmd stmtRedirs cmdLine =
     (case stmtCmd of
        CallExpr words \<Rightarrow>
          Some (cmdLine @ [\<lparr>pl_Args = parseCallExpr words @ parseRedirect stmtRedirs, pl_Operator = []\<rparr>])
      | BinaryCmd x xr op y yr \<Rightarrow>
          (case x of
             CallExpr words \<Rightarrow>
               parse_stmt y yr (cmdLine @ [\<lparr>pl_Args = parseCallExpr words @ parseRedirect xr, pl_Operator = op\<rparr>])
           | BinaryCmd x1 r1 op1 y1 r2 \<Rightarrow> parse_stmt x xr cmdLine
           | OtherCmd \<Rightarrow> parse_stmt stmtCmd stmtRedirs cmdLine)
      | OtherCmd \<Rightarrow> parse_stmt stmtCmd stmtRedirs cmdLine)"

fun parsePipeLine :: "(shcmd \<times> redirs) list \<Rightarrow> pipe_line list list option" where
  "parsePipeLine [] = Some []"
| "parsePipeLine ((c, rs) # stmts) =
     (case parse_stmt c rs [] of
        None \<Rightarrow> None
      | Some l \<Rightarrow> map_option ((#) l) (parsePipeLine stmts))"

definition pipe_string :: "pipe_line \<Rightarrow> string" where
  "pipe_string p = str_join (pl_Args p) '' '' @ '' '' @ pl_Operator p"

definition joinPipeLineSlice :: "pipe_line list \<Rightarrow> string" where
  "joinPipeLineSlice ps = concat (map pipe_string ps)"

section \<open>Commands (pshell_cmd.go)\<close>

definition checkBuildInCommand :: "string \<Rightarrow> bool" where
  "checkBuildInCommand cmd \<longleftrightarrow>
     cmd \<in> {''exit'', ''quit'', ''clear'', ''%history'', ''%out'', ''%outlist'', ''%save'', ''%set''}"

definition checkLocalCommand :: "string \<Rightarrow> bool" where
  "checkLocalCommand cmd \<longleftrightarrow> has_prefix cmd ''!''"

definition checkLocalBuildInCommand :: "string \<Rightarrow> bool" where
  "checkLocalBuildInCommand cmd \<longleftrightarrow> checkBuildInCommand cmd \<or> checkLocalCommand cmd"

text \<open>\<open>joinPipeLine\<close>: a call without words has no first word.\<close>

fun join_loop :: "pipe_line list \<Rightarrow> bool \<Rightarrow> pipe_line \<Rightarrow> pipe_line list \<Rightarrow> pipe_line list outcome" where
  "join_loop [] beforeLocal bp result = Done (result @ [bp])"
| "join_loop (pline # rest) beforeLocal bp result =
     obind (go_index (pl_Args pline) 0) (\<lambda>cmd.
       let result' = (if pl_Args bp \<noteq> [] then result @ [bp] else result) in
       if checkLocalBuildInCommand cmd then join_loop rest True pline result'
       else if beforeLocal then join_loop rest False pline result'
       else join_loop rest False
              \<lparr>pl_Args = pl_Args bp @ [pl_Operator bp] @ pl_Args pline, pl_Operator = pl_Operator pline\<rparr> result)"

definition joinPipeLine :: "pipe_line list \<Rightarrow> pipe_line list outcome" where
  "joinPipeLine pslice = join_loop pslice False \<lparr>pl_Args = [], pl_Operator = []\<rparr> []"

text \<open>What \<open>run\<close> starts for a pipeline, and whether it sends on the channel the executor waits on.
  \<open>readable\<close> is whether the history file opens.\<close>

datatype started = Quits | Clear | History | Outlist | Out int | BadOut | LocalCmd string | RemoteCmd string

definition strip_bang :: "string \<Rightarrow> string" where
  "strip_bang s = (if has_prefix s ''!'' then tl s else s)"

definition run_start :: "nat \<Rightarrow> pipe_line \<Rightarrow> started outcome" where
  "run_start count pl =
     obind (go_index (pl_Args pl) 0) (\<lambda>command. Done (
       if command = ''exit'' \<or> command = ''quit'' then Quits
       else if command = ''clear'' then Clear
       else if command = ''%history'' then History
       else if command = ''%outlist'' then Outlist
       else if command = ''%out'' then
         (if length (pl_Args pl) > 1
          then (case atoi (pl_Args pl ! 1) of Some n \<Rightarrow> Out n | None \<Rightarrow> BadOut)
          else Out (int count - 1))
       else if checkLocalCommand command
       then LocalCmd (str_join (strip_bang command # tl (pl_Args pl)) '' '')
       else RemoteCmd (str_join (pl_Args pl) '' '')))"

definition signals :: "bool \<Rightarrow> started \<Rightarrow> bool" where
  "signals readable s = (case s of Clear \<Rightarrow> False | BadOut \<Rightarrow> False | History \<Rightarrow> readable | _ \<Rightarrow> True)"

section \<open>The executor (pshell_executor.go)\<close>

definition countPipeSet :: "pipe_line list \<Rightarrow> string \<Rightarrow> nat" where
  "countPipeSet pline del = length (filter (\<lambda>p. pl_Operator p = del) pline)"

text \<open>Which pipe, by its number, each pipeline reads from and writes to.\<close>

fun pipe_ends :: "pipe_line list \<Rightarrow> string \<Rightarrow> nat \<Rightarrow> (nat option \<times> nat option) list" where
  "pipe_ends [] before n = []"
| "pipe_ends (p # ps) before n =
     (if before = ''|'' then Some (n - 1) else None, if pl_Operator p = ''|'' then Some n else None)
     # pipe_ends ps (pl_Operator p) (if pl_Operator p = ''|'' then Suc n else n)"

datatype exec_end = Finished nat | Waits | ExecExit | ExecPanic

text \<open>One pipeline line: its commands start together (a command that quits ends the program), and the
  executor waits for a signal of each.\<close>

fun starts :: "nat \<Rightarrow> pipe_line list \<Rightarrow> started list outcome" where
  "starts count [] = Done []"
| "starts count (p # ps) = obind (run_start count p) (\<lambda>s. obind (starts count ps) (\<lambda>ss. Done (s # ss)))"

definition line_end_of :: "nat \<Rightarrow> bool \<Rightarrow> pipe_line list \<Rightarrow> exec_end" where
  "line_end_of count readable pline =
     (case joinPipeLine pline of
        Done ps \<Rightarrow>
          (case starts count ps of
             Done ss \<Rightarrow> if Quits \<in> set ss then ExecExit
                        else if list_all (signals readable) ss then Finished count else Waits
           | _ \<Rightarrow> ExecPanic)
      | _ \<Rightarrow> ExecPanic)"

definition build_in_only :: "pipe_line list list \<Rightarrow> bool" where
  "build_in_only pslice \<longleftrightarrow>
     list_all (\<lambda>pline. length pline \<le> 1 \<and> list_all (\<lambda>p. checkBuildInCommand (hd (pl_Args p))) pline) pslice"

fun parseExecutor :: "nat \<Rightarrow> bool \<Rightarrow> pipe_line list list \<Rightarrow> pipe_line list list \<Rightarrow> exec_end" where
  "parseExecutor count readable pslice [] = Finished (if build_in_only pslice then count else Suc count)"
| "parseExecutor count readable pslice (pline # rest) =
     (case line_end_of count readable pline of
        Finished n \<Rightarrow> parseExecutor count readable pslice rest
      | e \<Rightarrow> e)"

text \<open>\<open>Executor\<close>: \<open>parse\<close> is the shell parser, empty on an error; a line that cannot be
  parsed to its end never returns.\<close>

definition ps_Executor :: "(string \<Rightarrow> (shcmd \<times> redirs) list) \<Rightarrow> nat \<Rightarrow> bool \<Rightarrow> string \<Rightarrow> exec_end option" where
  "ps_Executor parse count readable command =
     map_option (\<lambda>pslice. if pslice = [] then Finished count else parseExecutor count readable pslice pslice)
       (parsePipeLine (parse (trim_space command)))"

section \<open>Connections (pshell.go)\<close>

text \<open>\<open>createPsConnects\<close> leaves a nil entry for a host it cannot connect to; the reading of the
  command names uses every entry.\<close>

definition createPsConnects :: "(string \<Rightarrow> 'c option) \<Rightarrow> string list \<Rightarrow> (string \<times> 'c) option list" where
  "createPsConnects connect servers = map (\<lambda>s. map_option (Pair s) (connect s)) servers"

fun command_names :: "('c \<Rightarrow> string list) \<Rightarrow> (string \<times> 'c) option list \<Rightarrow> (string \<times> string list) list outcome" where
  "command_names compgen [] = Done []"
| "command_names compgen (None # cons) = Panic"
| "command_names compgen (Some (name, c) # cons) =
     obind (command_names compgen cons) (\<lambda>rest. Done ((name, compgen c) # rest))"

definition CreatePrompt :: "string \<Rightarrow> nat \<Rightarrow> string \<Rightarrow> string \<Rightarrow> string \<Rightarrow> string" where
  "CreatePrompt prompt count hostname username pwd =
     replace_all (replace_all (replace_all (replace_all
       (if prompt = [] then ''[${COUNT}] <<< '' else prompt) ''${COUNT}'' (format_uint count))
       ''${HOSTNAME}'' hostname) ''${USER}'' username) ''${PWD}'' pwd"

section \<open>History (pshell_history.go, pshell_cmd.go)\<close>

definition PutHistoryFile :: "string \<Rightarrow> string \<Rightarrow> string \<Rightarrow> string" where
  "PutHistoryFile timestamp cmd content = content @ timestamp @ '' '' @ cmd @ [newline]"

definition history_entry :: "string \<Rightarrow> (string \<times> string) option" where
  "history_entry line = (case split2 line '' '' of [t, c] \<Rightarrow> Some (t, c) | _ \<Rightarrow> None)"

definition GetHistoryFromFile :: "nat \<Rightarrow> string \<Rightarrow> (string \<times> string) list" where
  "GetHistoryFromFile limit content = List.map_filter history_entry (scan_tokens limit content)"

text \<open>\<open>buildinHistory\<close>, and \<open>buildinOut\<close> for the entries of a run in the order of the map:
  the text behind the prompt of each host when there are several and no pipe, or the result used as a
  format (\<open>fmt1\<close>). \<open>limit\<close> is the longest line of a scanner.\<close>

definition buildinHistory :: "nat \<Rightarrow> string \<Rightarrow> string list" where
  "buildinHistory limit content = map (\<lambda>(t, c). t @ '': '' @ c @ [newline]) (GetHistoryFromFile limit content)"

record history_result =
  hr_Command :: string
  hr_Result :: string
  hr_Output :: "out_conf option"

definition buildinOut :: "nat \<Rightarrow> (string \<Rightarrow> string) \<Rightarrow> bool \<Rightarrow> int \<Rightarrow> history_result list \<Rightarrow> string list" where
  "buildinOut limit fmt1 toStdout num hs =
     concat (map (\<lambda>h. case hr_Output h of
         Some ot \<Rightarrow> if length hs > 1 \<and> toStdout
                    then map (\<lambda>l. GetPrompt (ot\<lparr>o_Count := num\<rparr>) @ '' '' @ l @ [newline]) (scan_tokens limit (hr_Result h))
                    else [fmt1 (hr_Result h)]
       | None \<Rightarrow> [fmt1 (hr_Result h)]) hs)"

section \<open>Completion (pshell_complete.go)\<close>

datatype ps_completion = CommandWords | BuildInWords string | PathWords bool bool | NoWords

definition getCursorChar :: "string \<Rightarrow> string" where
  "getCursorChar left = (if left = [] then [] else [last left])"

text \<open>The kind of completion for the text left of the cursor (not empty) and its parsed form; of
  paths, whether they are those of the hosts and whether they are read anew.\<close>

definition ps_Completer :: "string \<Rightarrow> pipe_line list list \<Rightarrow> ps_completion outcome" where
  "ps_Completer left pslice =
     (let char = getCursorChar left in
      if pslice = [] then Done NoWords
      else let args = pl_Args (last (last pslice)) in
        obind (go_index args 0) (\<lambda>c. Done (
          if length args \<le> 1 \<and> char \<noteq> '' '' \<and> char \<noteq> ''|'' then CommandWords
          else if checkBuildInCommand c then BuildInWords c
          else PathWords (\<not> checkLocalCommand c)
                 (char = ''/'' \<or> (char = '' '' \<and> count_byte left CHR '' '' = 1)))))"

text \<open>The command that lists the paths for a word: the word is put into it as it was typed.\<close>

definition path_command :: "string \<Rightarrow> string" where
  "path_command word = ''compgen -f '' @ word"

definition host_names :: "(string \<times> string list) list \<Rightarrow> string \<Rightarrow> string list" where
  "host_names found n = concat (map (\<lambda>(name, ws). map (\<lambda>w. name) (filter (\<lambda>w. w = n) ws)) found)"

definition GetCommandComplete :: "string list \<Rightarrow> (string \<times> string list) list \<Rightarrow> (string \<times> string) list" where
  "GetCommandComplete local_words found =
     sort_key fst (map (\<lambda>w. (CHR ''!'' # w, ''Command. from:localhost'')) local_words
       @ map (\<lambda>w. (w, ''Command. from '' @ str_join (sort (host_names found w)) '',''))
           (remdups (concat (map snd found))))"

definition remoteSuggest :: "(string \<times> string list) list \<Rightarrow> (string \<times> string) list" where
  "remoteSuggest found =
     map (\<lambda>w. (w, ''remote path from '' @ str_join (host_names (map (\<lambda>(n, ps). (n, map path_base ps)) found) w) '',''))
       (remdups (concat (map (\<lambda>(n, ps). map path_base ps) found)))"

section \<open>Facts\<close>

text \<open>The commands whose loop ends, and the pipeline it gives: the calls along the right spine of the
  tree, where a pair on the left loses its right neighbour.\<close>

fun spine_ends :: "shcmd \<Rightarrow> bool" where
  "spine_ends (CallExpr words) = True"
| "spine_ends (BinaryCmd (CallExpr words) xr op y yr) = spine_ends y"
| "spine_ends (BinaryCmd (BinaryCmd x1 r1 op1 y1 r2) xr op y yr) = spine_ends (BinaryCmd x1 r1 op1 y1 r2)"
| "spine_ends (BinaryCmd OtherCmd xr op y yr) = False"
| "spine_ends OtherCmd = False"

fun spine :: "shcmd \<Rightarrow> redirs \<Rightarrow> pipe_line list" where
  "spine (CallExpr words) rs = [\<lparr>pl_Args = parseCallExpr words @ parseRedirect rs, pl_Operator = []\<rparr>]"
| "spine (BinaryCmd (CallExpr words) xr op y yr) rs =
     \<lparr>pl_Args = parseCallExpr words @ parseRedirect xr, pl_Operator = op\<rparr> # spine y yr"
| "spine (BinaryCmd x xr op y yr) rs = spine x xr"
| "spine OtherCmd rs = []"

lemma parse_stmt_rules:
  "parse_stmt (CallExpr words) rs acc =
     Some (acc @ [\<lparr>pl_Args = parseCallExpr words @ parseRedirect rs, pl_Operator = []\<rparr>])"
  "parse_stmt (BinaryCmd (CallExpr words) xr op y yr) rs acc =
     parse_stmt y yr (acc @ [\<lparr>pl_Args = parseCallExpr words @ parseRedirect xr, pl_Operator = op\<rparr>])"
  "parse_stmt (BinaryCmd (BinaryCmd x1 r1 op1 y1 r2) xr op y yr) rs acc =
     parse_stmt (BinaryCmd x1 r1 op1 y1 r2) xr acc"
  by (subst parse_stmt.simps, simp)+

lemma parse_stmt_returns: "spine_ends c \<Longrightarrow> parse_stmt c rs acc = Some (acc @ spine c rs)"
  by (induction c rs arbitrary: acc rule: spine.induct) (simp_all add: parse_stmt_rules)

lemma parse_stmt_result:
  assumes "parse_stmt c rs acc = Some l"
  shows "spine_ends c"
proof (rule parse_stmt.raw_induct [where P = "\<lambda>c rs acc l. spine_ends c", OF _ assms])
  fix self :: "shcmd \<Rightarrow> redirs \<Rightarrow> pipe_line list \<Rightarrow> pipe_line list option" and cmd rs' acc' l'
  assume step: "\<And>x xr ac y. self x xr ac = Some y \<Longrightarrow> spine_ends x"
    and "(case cmd of
        CallExpr words \<Rightarrow>
          Some (acc' @ [\<lparr>pl_Args = parseCallExpr words @ parseRedirect rs', pl_Operator = []\<rparr>])
      | BinaryCmd x xr op y yr \<Rightarrow>
          (case x of
             CallExpr words \<Rightarrow>
               self y yr (acc' @ [\<lparr>pl_Args = parseCallExpr words @ parseRedirect xr, pl_Operator = op\<rparr>])
           | BinaryCmd x1 r1 op1 y1 r2 \<Rightarrow> self x xr acc'
           | OtherCmd \<Rightarrow> self cmd rs' acc')
      | OtherCmd \<Rightarrow> self cmd rs' acc') = Some l'"
  then show "spine_ends cmd"
    by (cases cmd rule: spine_ends.cases) (auto dest: step)
qed

lemma parse_stmt_eq: "parse_stmt c rs acc = (if spine_ends c then Some (acc @ spine c rs) else None)"
  by (cases "parse_stmt c rs acc") (auto dest: parse_stmt_result simp: parse_stmt_returns)

text \<open>Joining words with blanks: torn words give a longer text.\<close>

lemma length_str_join: "length (str_join xs '' '') = length (concat xs) + (length xs - 1)"
  by (induction xs "'' ''" rule: str_join.induct) auto

lemma parts_at_least: "\<forall>w \<in> set words. w \<noteq> [] \<Longrightarrow>
   length words \<le> length (concat words) \<and> (length (concat words) = length words \<longleftrightarrow> (\<forall>w \<in> set words. length w = 1))"
proof (induction words)
  case (Cons w words)
  then have "length w \<ge> 1" by (cases w) auto
  with Cons show ?case by auto
qed simp

lemma join_parts_iff:
  assumes "\<forall>w \<in> set words. w \<noteq> []"
  shows "str_join (concat words) '' '' = str_join (map concat words) '' '' \<longleftrightarrow> (\<forall>w \<in> set words. length w = 1)"
proof
  assume "str_join (concat words) '' '' = str_join (map concat words) '' ''"
  from arg_cong [OF this, of length]
  have l: "length (concat (concat words)) + (length (concat words) - 1)
      = length (concat (map concat words)) + (length words - 1)"
    by (simp add: length_str_join)
  have "length (concat (map concat words)) = length (concat (concat words))" by (induction words) auto
  with l parts_at_least [OF assms] show "\<forall>w \<in> set words. length w = 1"
    by (cases words) (auto, linarith?)
next
  assume one: "\<forall>w \<in> set words. length w = 1"
  then have "concat words = map concat words"
    by (induction words) (auto simp: length_Suc_conv)
  then show "str_join (concat words) '' '' = str_join (map concat words) '' ''" by simp
qed

text \<open>One remote command is joined behind the empty operator of the empty pipeline before it.\<close>

lemma joined_remote:
  "\<not> checkLocalBuildInCommand c \<Longrightarrow>
   joinPipeLine [\<lparr>pl_Args = c # cs, pl_Operator = []\<rparr>] = Done [\<lparr>pl_Args = [] # c # cs, pl_Operator = []\<rparr>]"
  by (simp add: joinPipeLine_def go_index_def)

lemma command_names_eq:
  "command_names compgen (createPsConnects connect servers) =
     (if \<exists>s \<in> set servers. connect s = None then Panic
      else Done (map (\<lambda>s. (s, compgen (the (connect s)))) servers))"
proof (induction servers)
  case (Cons s servers)
  then show ?case by (cases "connect s") (auto simp: createPsConnects_def)
qed (simp add: createPsConnects_def)

text \<open>A built-in command alone on its line is not joined with anything.\<close>

lemma build_in_line:
  "checkBuildInCommand c \<Longrightarrow> joinPipeLine [\<lparr>pl_Args = [c], pl_Operator = []\<rparr>] = Done [\<lparr>pl_Args = [c], pl_Operator = []\<rparr>]"
  by (simp add: joinPipeLine_def go_index_def checkLocalBuildInCommand_def)

lemma silent_line_waits:
  "c = ''clear'' \<or> c = ''%history'' \<and> \<not> readable \<Longrightarrow>
   line_end_of count readable [\<lparr>pl_Args = [c], pl_Operator = []\<rparr>] = Waits"
  by (auto simp: line_end_of_def build_in_line checkBuildInCommand_def run_start_def go_index_def signals_def)

text \<open>Appending an entry to the history.\<close>

lemma put_all:
  "foldl (\<lambda>f (t, c). PutHistoryFile t c f) f es = f @ concat (map (\<lambda>(t, c). (t @ '' '' @ c) @ [newline]) es)"
  by (induction es arbitrary: f) (auto simp: PutHistoryFile_def)

lemma entry_of_line: "CHR '' '' \<notin> set t \<Longrightarrow> history_entry (t @ '' '' @ c) = Some (t, c)"
proof -
  assume "CHR '' '' \<notin> set t"
  then have "str_index '' '' (t @ '' '' @ c) = Some (length t)" by (induction t) auto
  then show ?thesis by (simp add: history_entry_def split2_def)
qed

lemma drop_cr_entry: "\<not> suffix [CHR 0x0D] c \<Longrightarrow> drop_cr (t @ '' '' @ c) = t @ '' '' @ c"
  by (cases c rule: rev_cases) (auto simp: drop_cr_def trim_suffix_def suffix_def append_eq_append_conv2 Cons_eq_append_conv)

lemma scan_entries:
  assumes "\<forall>(t, c) \<in> set es. CHR '' '' \<notin> set t \<and> newline \<notin> set t \<and> newline \<notin> set c
             \<and> \<not> suffix [CHR 0x0D] c \<and> Suc (length t + length c) < limit"
  shows "List.map_filter history_entry (scan_tokens limit (concat (map (\<lambda>(t, c). (t @ '' '' @ c) @ [newline]) es))) = es"
  using assms
proof (induction es)
  case Nil
  then show ?case by (simp add: scan_tokens.simps [of limit "[]"] List.map_filter_def)
next
  case (Cons e es)
  obtain t c where e: "e = (t, c)" by (cases e)
  let ?rest = "concat (map (\<lambda>(t, c). (t @ '' '' @ c) @ [newline]) es)"
  have "scan_tokens limit ((t @ '' '' @ c) @ newline # ?rest) = drop_cr (t @ '' '' @ c) # scan_tokens limit ?rest"
    using Cons.prems e by (intro scan_tokens_line) (auto simp: newline_def)
  moreover have "List.map_filter history_entry (scan_tokens limit ?rest) = es"
    using Cons by (auto simp: newline_def)
  ultimately show ?case
    using Cons.prems e by (auto simp: List.map_filter_simps drop_cr_entry [simplified] entry_of_line [simplified])
qed

section \<open>Properties\<close>


text \<open>A remote command reaches the hosts as it was typed exactly when none of its words has more
  than one part: the parts of a word such as \<open>"$HOME"/bin\<close> or \<open>a$b\<close> are sent
  as words of their own.\<close>

theorem words_torn_apart:
  assumes "words \<noteq> []" and "\<forall>w \<in> set words. w \<noteq> []" and "\<not> checkLocalBuildInCommand (hd (hd words))"
  shows "\<exists>l p. parse_stmt (CallExpr words) [] [] = Some l \<and> joinPipeLine l = Done [p]
     \<and> run_start count p = Done (RemoteCmd ('' '' @ str_join (concat words) '' ''))
     \<and> (str_join (concat words) '' '' = str_join (map concat words) '' '' \<longleftrightarrow> (\<forall>w \<in> set words. length w = 1))"
proof -
  from assms obtain c cs where c: "concat words = c # cs" "c = hd (hd words)"
    by (cases words) (auto simp: neq_Nil_conv)
  have "run_start count \<lparr>pl_Args = [] # c # cs, pl_Operator = []\<rparr> = Done (RemoteCmd ('' '' @ str_join (c # cs) '' ''))"
    by (simp add: run_start_def go_index_def checkLocalCommand_def has_prefix_def)
  with c assms(3) join_parts_iff [OF assms(2)] show ?thesis
    by (simp add: parse_stmt_eq parseCallExpr_def parseRedirect_def joined_remote)
qed

lemma words_torn_apart_witness:
  "\<exists>l p. parse_stmt (CallExpr [[''ls''], [''$HOME'', ''x'']]) [] [] = Some l \<and> joinPipeLine l = Done [p]
     \<and> run_start 0 p = Done (RemoteCmd ('' '' @ str_join (concat [[''ls''], [''$HOME'', ''x'']]) '' ''))
     \<and> str_join (concat [[''ls''], [''$HOME'', ''x'']]) '' '' \<noteq> str_join (map concat [[''ls''], [''$HOME'', ''x'']]) '' ''"
  using words_torn_apart [of "[[''ls''], [''$HOME'', ''x'']]" 0]
  by (simp add: checkLocalBuildInCommand_def checkBuildInCommand_def checkLocalCommand_def has_prefix_def)

text \<open>\<open>clear\<close>, and \<open>%history\<close> without its file, hang the parallel shell: they end
  without a signal, and the executor waits for one of every command of the line.\<close>

theorem silent_command_hangs:
  assumes "parse (trim_space command) = (CallExpr [[c]], []) # stmts" and "parsePipeLine stmts = Some rest"
    and "c = ''clear'' \<or> c = ''%history'' \<and> \<not> readable"
  shows "ps_Executor parse count readable command = Some Waits"
  using assms silent_line_waits [OF assms(3)]
  by (simp add: ps_Executor_def parse_stmt_eq parseCallExpr_def parseRedirect_def)

lemma silent_command_hangs_witness:
  "ps_Executor (\<lambda>_. [(CallExpr [[''clear'']], [])]) 3 True ''clear'' = Some Waits"
  by (rule silent_command_hangs [of _ _ "''clear''" "[]" "[]"]) simp_all

text \<open>One host that cannot be reached ends the parallel shell before its prompt: its place in the
  list of connections is nil, and the reading of the command names goes through all of them.\<close>

theorem unreachable_host_panics:
  "command_names compgen (createPsConnects connect servers) =
     (if \<exists>s \<in> set servers. connect s = None then Panic
      else Done (map (\<lambda>s. (s, compgen (the (connect s)))) servers))"
  by (rule command_names_eq)

text \<open>The history file gives back the entries that were put into it, in order, when no line is too
  long for the scanner.\<close>

theorem history_roundtrip:
  assumes "\<forall>(t, c) \<in> set es. CHR '' '' \<notin> set t \<and> newline \<notin> set t \<and> newline \<notin> set c
             \<and> \<not> suffix [CHR 0x0D] c \<and> Suc (length t + length c) < limit"
  shows "GetHistoryFromFile limit (foldl (\<lambda>f (t, c). PutHistoryFile t c f) [] es) = es"
  using scan_entries [OF assms] by (simp add: GetHistoryFromFile_def put_all)

lemma history_roundtrip_witness:
  "GetHistoryFromFile 100 (foldl (\<lambda>f (t, c). PutHistoryFile t c f) [] [(''t1'', ''ls -l''), (''t2'', ''a b'')])
     = [(''t1'', ''ls -l''), (''t2'', ''a b'')]"
  by (rule history_roundtrip) (simp add: newline_def suffix_def append_eq_Cons_conv Cons_eq_append_conv)

end
