(* ===== verification/Sshlib_Cred.thy ===== *)
theory Sshlib_Cred
  imports Ssh_Auth
begin

text \<open>
  src/sshlib/auth.go, auth_pkcs11.go, pkcs11.go, common.go and agent.go: the creation of signers and
  authentication methods. The parsers of x/crypto/ssh and sshkeys, the file system, the terminal and
  the tokens are arguments; errors are the texts of Go's errors. The last part puts these functions
  under the registration of methods of \<open>Ssh_Auth\<close>.
\<close>

section \<open>Paths and passphrases (common.go)\<close>

text \<open>\<open>home\<close> is the home directory of the current user, \<open>None\<close> when the user is not
  known: its nil value is used.\<close>

definition getAbsPath :: "string option \<Rightarrow> string \<Rightarrow> string \<Rightarrow> string outcome" where
  "getAbsPath home cwd path =
     (case home of None \<Rightarrow> Panic | Some h \<Rightarrow> Done (path_abs cwd (replace_first path ''~'' h)))"

text \<open>\<open>getPassphrase\<close>: \<open>tty\<close> is what the terminal gives with its error, \<open>None\<close>
  when it cannot be opened, which ends the program.\<close>

definition getPassphrase :: "(string \<times> string option) option \<Rightarrow> (string \<times> string option) outcome" where
  "getPassphrase tty =
     (case tty of
        None \<Rightarrow> Exit 1
      | Some (result, err) \<Rightarrow>
          Done (if result = [] then ([], Some ''err: input is empty'') else (result, err)))"

section \<open>Public keys (auth.go)\<close>

datatype 's auth_method = PasswordMethod string | PublicKeys 's

definition CreateAuthMethodPassword :: "string \<Rightarrow> 's auth_method" where
  "CreateAuthMethodPassword password = PasswordMethod password"

text \<open>The parsers of the libraries: of an encrypted key (sshkeys) and the signer of what it gives,
  of a plain key, and of a key with its passphrase.\<close>

record ('k, 's) key_lib =
  parseEncryptedRaw :: "string \<Rightarrow> string \<Rightarrow> string + 'k"
  newSignerFromKey :: "'k \<Rightarrow> string + 's"
  parsePrivateKey :: "string \<Rightarrow> string + 's"
  parseWithPassphrase :: "string \<Rightarrow> string \<Rightarrow> string + 's"

definition sum_bind :: "'e + 'a \<Rightarrow> ('a \<Rightarrow> 'e + 'b) \<Rightarrow> 'e + 'b" where
  "sum_bind r f = (case r of Inl e \<Rightarrow> Inl e | Inr x \<Rightarrow> f x)"

definition CreateSignerPublicKeyData :: "('k, 's) key_lib \<Rightarrow> string \<Rightarrow> string \<Rightarrow> string + 's" where
  "CreateSignerPublicKeyData lib keyData password =
     (if password \<noteq> [] then sum_bind (parseEncryptedRaw lib keyData password) (newSignerFromKey lib)
      else parsePrivateKey lib keyData)"

text \<open>\<open>read_at\<close> reads the file of an absolute path.\<close>

definition CreateSignerPublicKey ::
  "('k, 's) key_lib \<Rightarrow> (string \<Rightarrow> string + string) \<Rightarrow> string option \<Rightarrow> string \<Rightarrow> string \<Rightarrow> string \<Rightarrow> (string + 's) outcome" where
  "CreateSignerPublicKey lib read_at home cwd key password =
     obind (getAbsPath home cwd key) (\<lambda>p.
       Done (sum_bind (read_at p) (\<lambda>keyData. CreateSignerPublicKeyData lib keyData password)))"

definition CreateAuthMethodPublicKey ::
  "('k, 's) key_lib \<Rightarrow> (string \<Rightarrow> string + string) \<Rightarrow> string option \<Rightarrow> string \<Rightarrow> string \<Rightarrow> string
   \<Rightarrow> (string + 's auth_method) outcome" where
  "CreateAuthMethodPublicKey lib read_at home cwd key password =
     obind (CreateSignerPublicKey lib read_at home cwd key password) (\<lambda>r. Done (map_sum id PublicKeys r))"

definition trim_right_newlines :: "string \<Rightarrow> string" where
  "trim_right_newlines s = rev (dropWhile (\<lambda>c. c = newline) (rev s))"

text \<open>The loop of the prompt: \<open>ask i\<close> is the terminal at the \<open>i\<close>-th question, whose
  error is dropped; \<open>res\<close> is the result so far.\<close>

fun prompt_loop ::
  "(string \<Rightarrow> string + 's) \<Rightarrow> (nat \<Rightarrow> (string \<times> string option) option) \<Rightarrow> nat \<Rightarrow> nat \<Rightarrow> string + 's
   \<Rightarrow> ((string + 's) \<times> nat) outcome" where
  "prompt_loop parse ask i 0 res = Done (res, i)"
| "prompt_loop parse ask i (Suc n) res =
     obind (getPassphrase (ask i)) (\<lambda>(password, err).
       case parse (trim_right_newlines password) of
         Inr signer \<Rightarrow> Done (Inr signer, Suc i)
       | Inl e \<Rightarrow> prompt_loop parse ask (Suc i) n (Inl e))"

text \<open>\<open>CreateSignerPublicKeyPrompt\<close>: the signer or the error, and the number of questions.\<close>

definition CreateSignerPublicKeyPrompt ::
  "('k, 's) key_lib \<Rightarrow> (string \<Rightarrow> string + string) \<Rightarrow> (nat \<Rightarrow> (string \<times> string option) option)
   \<Rightarrow> string option \<Rightarrow> string \<Rightarrow> string \<Rightarrow> string \<Rightarrow> ((string + 's) \<times> nat) outcome" where
  "CreateSignerPublicKeyPrompt lib read_at ask home cwd key password =
     obind (getAbsPath home cwd key) (\<lambda>p.
       case read_at p of
         Inl e \<Rightarrow> Done (Inl e, 0)
       | Inr keyData \<Rightarrow>
           if password \<noteq> [] then Done (parseWithPassphrase lib keyData password, 0)
           else (case parsePrivateKey lib keyData of
                   Inr signer \<Rightarrow> Done (Inr signer, 0)
                 | Inl e \<Rightarrow>
                     if contains e ''cannot decode''
                     then prompt_loop (parseWithPassphrase lib keyData) ask 0 3 (Inl e)
                     else Done (Inl e, 0)))"

section \<open>Certificates (auth.go)\<close>

text \<open>\<open>parseAuthorizedKey\<close> gives \<open>None\<close> for a public key that is no certificate.\<close>

definition not_certificate :: string where
  "not_certificate = ''Error: Not create certificate struct data'' @ [newline, newline]"

definition CreateSignerCertificate ::
  "(string \<Rightarrow> string + 'c option) \<Rightarrow> ('c \<Rightarrow> 's \<Rightarrow> string + 's) \<Rightarrow> (string \<Rightarrow> string + string)
   \<Rightarrow> string option \<Rightarrow> string \<Rightarrow> string \<Rightarrow> 's \<Rightarrow> (string + 's) outcome" where
  "CreateSignerCertificate parseAuthorizedKey newCertSigner read_at home cwd cert keySigner =
     obind (getAbsPath home cwd cert) (\<lambda>p. Done (
       sum_bind (read_at p) (\<lambda>certData.
       sum_bind (parseAuthorizedKey certData) (\<lambda>pubkey.
         case pubkey of None \<Rightarrow> Inl not_certificate | Some certificate \<Rightarrow> newCertSigner certificate keySigner))))"

definition CreateAuthMethodCertificate ::
  "(string \<Rightarrow> string + 'c option) \<Rightarrow> ('c \<Rightarrow> 's \<Rightarrow> string + 's) \<Rightarrow> (string \<Rightarrow> string + string)
   \<Rightarrow> string option \<Rightarrow> string \<Rightarrow> string \<Rightarrow> 's \<Rightarrow> (string + 's auth_method) outcome" where
  "CreateAuthMethodCertificate parseAuthorizedKey newCertSigner read_at home cwd cert keySigner =
     obind (CreateSignerCertificate parseAuthorizedKey newCertSigner read_at home cwd cert keySigner)
       (\<lambda>r. Done (map_sum id PublicKeys r))"

section \<open>Agents (agent.go, auth.go)\<close>

text \<open>An agent value as the type switches see it; \<open>signers\<close> and \<open>add\<close> are the methods
  of the library.\<close>

datatype 'a agent_value = Agent 'a | OtherValue

definition CreateSignerAgent :: "('a \<Rightarrow> string + 's list) \<Rightarrow> 'a agent_value \<Rightarrow> string + 's list" where
  "CreateSignerAgent signers ag = (case ag of Agent a \<Rightarrow> signers a | OtherValue \<Rightarrow> Inr [])"

datatype agent_source = Keyring | AgentSocket string

definition ConnectSshAgent :: "(string \<Rightarrow> bool) \<Rightarrow> string \<Rightarrow> agent_source" where
  "ConnectSshAgent dialOk sockPath = (if dialOk sockPath then AgentSocket sockPath else Keyring)"

record 'k added_key =
  ak_PrivateKey :: 'k
  ak_ConfirmBeforeUse :: bool
  ak_LifetimeSecs :: nat

datatype ('a, 'k) agent_call = AddKey 'a "'k added_key" | ForwardToAgent 'a | RequestAgentForwarding

definition AddKeySshAgent :: "'a agent_value \<Rightarrow> 'k \<Rightarrow> ('a, 'k) agent_call list" where
  "AddKeySshAgent sshAgent key =
     (let addedKey = \<lparr>ak_PrivateKey = key, ak_ConfirmBeforeUse = True, ak_LifetimeSecs = 3000\<rparr>
      in case sshAgent of Agent a \<Rightarrow> [AddKey a addedKey] | OtherValue \<Rightarrow> [])"

definition ForwardSshAgent_calls :: "'a agent_value \<Rightarrow> ('a, 'k) agent_call list" where
  "ForwardSshAgent_calls ag =
     (case ag of Agent a \<Rightarrow> [ForwardToAgent a] | OtherValue \<Rightarrow> []) @ [RequestAgentForwarding]"

section \<open>Tokens (pkcs11.go, auth_pkcs11.go)\<close>

record c11 =
  c11_Label :: string
  c11_PIN :: string

text \<open>\<open>getPIN\<close> asks the terminal for an empty PIN; an error of \<open>CreateCtx\<close> clears it.\<close>

definition getPIN :: "(string \<times> string option) option \<Rightarrow> c11 \<Rightarrow> (c11 \<times> string option) outcome" where
  "getPIN tty c =
     (if c11_PIN c = [] then obind (getPassphrase tty) (\<lambda>(pin, err). Done (c\<lparr>c11_PIN := pin\<rparr>, err))
      else Done (c, None))"

definition CreateCtx ::
  "(string \<Rightarrow> string \<Rightarrow> string + 'x) \<Rightarrow> (string \<times> string option) option \<Rightarrow> c11 \<Rightarrow> (c11 \<times> (string + 'x)) outcome" where
  "CreateCtx configure tty c =
     obind (getPIN tty c) (\<lambda>(c', err). Done (case err of
         Some e \<Rightarrow> (c'\<lparr>c11_PIN := []\<rparr>, Inl e)
       | None \<Rightarrow> (c', configure (c11_Label c') (c11_PIN c'))))"

text \<open>The library: the token label of a slot, the context of a token, its key pairs, and the signer of a
  pair, nil on an error, which is dropped.\<close>

record ('x, 'p, 's) token_lib =
  tokenLabel :: "nat \<Rightarrow> string option"
  configureToken :: "string \<Rightarrow> string \<Rightarrow> string + 'x"
  findAllKeyPairs :: "'x \<Rightarrow> string + 'p list"
  newSignerFromSigner :: "'p \<Rightarrow> 's option"

definition token_signers ::
  "('x, 'p, 's) token_lib \<Rightarrow> (string \<Rightarrow> (string \<times> string option) option) \<Rightarrow> c11 \<Rightarrow> 's option list outcome" where
  "token_signers lib tty c =
     obind (CreateCtx (configureToken lib) (tty (c11_Label c)) c) (\<lambda>(c', r). Done (
       case sum_bind r (findAllKeyPairs lib) of
         Inl e \<Rightarrow> []
       | Inr sigs \<Rightarrow> map (newSignerFromSigner lib) sigs))"

fun tokens_loop ::
  "('x, 'p, 's) token_lib \<Rightarrow> (string \<Rightarrow> (string \<times> string option) option) \<Rightarrow> c11 list \<Rightarrow> 's option list outcome" where
  "tokens_loop lib tty [] = Done []"
| "tokens_loop lib tty (c # cs) =
     obind (token_signers lib tty c) (\<lambda>sigs. obind (tokens_loop lib tty cs) (\<lambda>rest. Done (sigs @ rest)))"

text \<open>\<open>initialised\<close> is the error of the initialisation, \<open>slots\<close> the list of slots.\<close>

definition CreateSignerPKCS11 ::
  "('x, 'p, 's) token_lib \<Rightarrow> (string \<Rightarrow> (string \<times> string option) option) \<Rightarrow> (string \<Rightarrow> string option)
   \<Rightarrow> (string \<Rightarrow> string + nat list) \<Rightarrow> string option \<Rightarrow> string \<Rightarrow> string \<Rightarrow> string \<Rightarrow> (string + 's option list) outcome" where
  "CreateSignerPKCS11 lib tty initialised slots home cwd provider pin =
     obind (getAbsPath home cwd provider) (\<lambda>p.
       case initialised p of
         Some e \<Rightarrow> Done (Inl e)
       | None \<Rightarrow>
           (case slots p of
              Inl e \<Rightarrow> Done (Inl e)
            | Inr ss \<Rightarrow>
                obind (tokens_loop lib tty (map (\<lambda>l. \<lparr>c11_Label = l, c11_PIN = pin\<rparr>) (List.map_filter (tokenLabel lib) ss)))
                  (\<lambda>signers. Done (Inr signers))))"

definition CreateAuthMethodPKCS11 ::
  "('x, 'p, 's) token_lib \<Rightarrow> (string \<Rightarrow> (string \<times> string option) option) \<Rightarrow> (string \<Rightarrow> string option)
   \<Rightarrow> (string \<Rightarrow> string + nat list) \<Rightarrow> string option \<Rightarrow> string \<Rightarrow> string \<Rightarrow> string
   \<Rightarrow> (string + 's option auth_method list) outcome" where
  "CreateAuthMethodPKCS11 lib tty initialised slots home cwd provider pin =
     obind (CreateSignerPKCS11 lib tty initialised slots home cwd provider pin)
       (\<lambda>r. Done (map_sum id (map PublicKeys) r))"

section \<open>Under the registration of methods\<close>

text \<open>An environment of \<open>Ssh_Auth\<close> whose key methods are made by these functions; a key from a
  command is parsed with its data.\<close>

definition creates_keys ::
  "('k, 's) key_lib \<Rightarrow> (string \<Rightarrow> string + string) \<Rightarrow> (nat \<Rightarrow> (string \<times> string option) option)
   \<Rightarrow> string option \<Rightarrow> string \<Rightarrow> (string \<Rightarrow> string option) \<Rightarrow> 's auth_method auth_env \<Rightarrow> bool" where
  "creates_keys lib read_at ask home cwd sh env \<longleftrightarrow>
     mkPassword env = CreateAuthMethodPassword
     \<and> (\<forall>key password r n. CreateSignerPublicKeyPrompt lib read_at ask home cwd key password = Done (r, n) \<longrightarrow>
          mkKey env key password = (case r of Inr signer \<Rightarrow> Some (PublicKeys signer) | Inl e \<Rightarrow> None))
     \<and> (\<forall>command password. mkKeyCommand env command password =
          Option.bind (sh command) (\<lambda>keyData.
            case CreateSignerPublicKeyData lib keyData password of Inr signer \<Rightarrow> Some (PublicKeys signer) | Inl e \<Rightarrow> None))"

section \<open>Facts\<close>

lemma fst_getPassphrase: "getPassphrase (Some (pw, er)) = Done (pw, snd (if pw = [] then ([], Some ''err: input is empty'') else (pw, er)))"
  by (simp add: getPassphrase_def)

lemma prompt_loop_step:
  assumes "ask i = Some (pw, er)"
  shows "prompt_loop parse ask i (Suc n) res =
    (case parse (trim_right_newlines pw) of
       Inr signer \<Rightarrow> Done (Inr signer, Suc i)
     | Inl e \<Rightarrow> prompt_loop parse ask (Suc i) n (Inl e))"
  by (simp add: assms fst_getPassphrase)

text \<open>Tokens with a given PIN: nobody is asked, and what fails is left out.\<close>

lemma tokens_loop_pin:
  "pin \<noteq> [] \<Longrightarrow> tokens_loop lib tty (map (\<lambda>l. \<lparr>c11_Label = l, c11_PIN = pin\<rparr>) ls) =
     Done (concat (map (\<lambda>l. case sum_bind (configureToken lib l pin) (findAllKeyPairs lib) of
                              Inl e \<Rightarrow> [] | Inr sigs \<Rightarrow> map (newSignerFromSigner lib) sigs) ls))"
  by (induction ls) (simp_all add: token_signers_def CreateCtx_def getPIN_def)

text \<open>The tilde is replaced wherever it stands, not only at the start of the path.\<close>

lemma tilde_anywhere:
  assumes "CHR ''~'' \<notin> set a"
  shows "getAbsPath (Some h) cwd (slash # a @ ''~'' @ b) = Done (path_abs cwd (slash # a @ h @ b))"
proof -
  have "str_index ''~'' (a @ ''~'' @ b) = Some (length a)" using assms by (induction a) auto
  then show ?thesis by (simp add: getAbsPath_def replace_first_def)
qed

section \<open>Properties\<close>

text \<open>A passphrase is asked for at most three times: for a key without a configured passphrase
  whose error says that it cannot be decoded, the first of three answers that opens the key gives the
  signer, later answers are not asked for, and after three wrong ones the last error is returned.\<close>

theorem passphrase_prompts:
  assumes "read_at (path_abs cwd (replace_first key ''~'' h)) = Inr keyData"
    and "parsePrivateKey lib keyData = Inl e" and "contains e ''cannot decode''"
    and "\<And>i. ask i = Some (pw i, er i)"
  shows "CreateSignerPublicKeyPrompt lib read_at ask (Some h) cwd key [] =
    Done (case parseWithPassphrase lib keyData (trim_right_newlines (pw 0)) of
        Inr signer \<Rightarrow> (Inr signer, 1)
      | Inl e0 \<Rightarrow>
          (case parseWithPassphrase lib keyData (trim_right_newlines (pw 1)) of
             Inr signer \<Rightarrow> (Inr signer, 2)
           | Inl e1 \<Rightarrow> (parseWithPassphrase lib keyData (trim_right_newlines (pw 2)), 3)))"
  using assms
  by (simp add: CreateSignerPublicKeyPrompt_def getAbsPath_def numeral_3_eq_3 numeral_2_eq_2 prompt_loop_step
      del: prompt_loop.simps(2) split: sum.splits)

text \<open>Two wrong answers and a right one.\<close>

definition demo_keys :: "(string, string) key_lib" where
  "demo_keys = \<lparr>parseEncryptedRaw = (\<lambda>d p. Inl ''bad''), newSignerFromKey = Inr,
     parsePrivateKey = (\<lambda>d. Inl d), parseWithPassphrase = (\<lambda>d p. if p = ''open'' then Inr ''signer'' else Inl ''incorrect'')\<rparr>"

lemma passphrase_prompts_witness:
  "CreateSignerPublicKeyPrompt demo_keys (\<lambda>_. Inr ''cannot decode'')
     (\<lambda>i. Some (if i = 2 then ''open'' @ [newline] else ''no'', None)) (Some ''home'') ''/'' ''k'' [] = Done (Inr ''signer'', 3)"
  by (subst passphrase_prompts [where keyData = "''cannot decode''" and e = "''cannot decode''"
        and pw = "\<lambda>i. if i = 2 then ''open'' @ [newline] else ''no''" and er = "\<lambda>_. None"])
    (simp_all add: demo_keys_def contains_def trim_right_newlines_def newline_def)

definition passphrase_missing :: string where
  "passphrase_missing = ''ssh: this private key is passphrase protected''"

text \<open>C23 A key with a passphrase that the configuration does not give is dropped without a question:
  the library says that the key is passphrase protected, the code waits for another text. The
  registration of the key fails and the server gets no method from it.\<close>

theorem encrypted_key_dropped:
  assumes "creates_keys lib read_at ask (Some h) cwd sh env"
    and "read_at (path_abs cwd (replace_first key ''~'' h)) = Inr keyData"
    and "parsePrivateKey lib keyData = Inl passphrase_missing"
    and "key \<noteq> []" and "authMethodMap r (AuthKeyKey, key) = None"
  shows "CreateSignerPublicKeyPrompt lib read_at ask (Some h) cwd key [] = Done (Inl passphrase_missing, 0)
    \<and> registerAuthMapPublicKey env server key [] r = None"
proof
  show asked: "CreateSignerPublicKeyPrompt lib read_at ask (Some h) cwd key [] = Done (Inl passphrase_missing, 0)"
    using assms(2,3) by (simp add: CreateSignerPublicKeyPrompt_def getAbsPath_def contains_def passphrase_missing_def)
  then have "mkKey env key [] = None" using assms(1) by (simp add: creates_keys_def)
  then show "registerAuthMapPublicKey env server key [] r = None"
    using assms(4,5) by (simp add: registerAuthMapPublicKey_def register_method_def)
qed

definition demo_locked :: "(string, string) key_lib" where
  "demo_locked = \<lparr>parseEncryptedRaw = (\<lambda>d p. Inl ''bad''), newSignerFromKey = Inr,
     parsePrivateKey = (\<lambda>d. Inl passphrase_missing), parseWithPassphrase = (\<lambda>d p. Inr ''signer'')\<rparr>"

definition demo_locked_env :: "string auth_method auth_env" where
  "demo_locked_env = \<lparr>mkPassword = CreateAuthMethodPassword,
     mkKey = (\<lambda>key password. if password = [] then None else Some (PublicKeys ''signer'')),
     mkKeyCommand = (\<lambda>c p. None), mkSigner = (\<lambda>k p. None), mkCert = (\<lambda>c s. None), promptRun = None,
     pbeDecode = Some, pbeEncode = Some, pbePwd = [], echoPwd = [], autoEncrypt = False\<rparr>"

lemma demo_locked_creates:
  "creates_keys demo_locked (\<lambda>_. Inr ''data'') (\<lambda>_. None) (Some ''home'') ''/'' (\<lambda>_. None) demo_locked_env"
  by (auto simp: creates_keys_def demo_locked_env_def demo_locked_def CreateSignerPublicKeyPrompt_def getAbsPath_def
      contains_def passphrase_missing_def split: if_splits)

lemma encrypted_key_dropped_witness:
  "registerAuthMapPublicKey demo_locked_env ''web'' ''k'' []
     \<lparr>authMethodMap = Map.empty, serverAuthMethodMap = Map.empty, decodedPasswordMap = Map.empty,
      confContent = None, st_servers = Map.empty\<rparr> = None"
  by (rule conjunct2 [OF encrypted_key_dropped [OF demo_locked_creates, where keyData = "''data''"]])
    (simp_all add: demo_locked_def)

end
