(* ===== verification/Sshlib_Known.thy ===== *)
theory Sshlib_Known
  imports Sshlib_Cred
begin

text \<open>
  src/sshlib/knownhosts.go: the questions for an unknown and for a changed host key, and the file
  of known hosts they write. The library (the check against the files, the line of an entry) and
  text/template are arguments; the file system is a map from names to contents.
\<close>

section \<open>The questions\<close>

definition text_lines :: "string list \<Rightarrow> string" where
  "text_lines ls = str_join ls [newline]"

definition quote :: string where
  "quote = [CHR 0x27]"

definition default_write_text :: string where
  "default_write_text = text_lines
     [''The authenticity of host '' @ quote @ ''{{.Address}} ({{.RemoteAddr}})'' @ quote @ '' can'' @ quote @ ''t be established.'',
      ''RSA key fingerprint is {{.Fingerprint}}'',
      ''Are you sure you want to continue connecting (yes/no)?'']"

definition default_overwrite_text :: string where
  "default_overwrite_text = text_lines
     [''The authenticity of host '' @ quote @ ''{{.Address}} ({{.RemoteAddr}})'' @ quote @ '' can'' @ quote @ ''t be established.'',
      ''Old key: {{.OldKeyText}}'',
      ''Are you sure you want to overwrite {{.Fingerprint}}, continue connecting (yes/no)?'']"

text \<open>\<open>WriteInventory\<close> and \<open>OverwriteInventory\<close>, the variables of the templates.\<close>

record write_inventory =
  wi_Address :: string
  wi_RemoteAddr :: string
  wi_Fingerprint :: string

record overwrite_inventory = write_inventory +
  oi_OldKeyText :: string

text \<open>The library: parsing a template and executing it (the text printed and the error).\<close>

record 't known_lib =
  kl_parse :: "string \<Rightarrow> string + 't"
  kl_write :: "'t \<Rightarrow> write_inventory \<Rightarrow> string \<times> string option"
  kl_overwrite :: "'t \<Rightarrow> overwrite_inventory \<Rightarrow> string \<times> string option"
  kl_fingerprint :: string
  kl_line :: "string list \<Rightarrow> string"
  kl_lower :: "nat \<Rightarrow> nat"

text \<open>The loop over the answers. Standard input is the list of its reads, each a list of complete
  lines: one line of a terminal, as many as there are of a pipe. Every question makes a new
  buffered reader, so the lines after the answer in the same read are lost for the next one.\<close>

fun answer_in :: "(nat \<Rightarrow> nat) \<Rightarrow> string list \<Rightarrow> bool option" where
  "answer_in ul [] = None"
| "answer_in ul (l # ls) =
     (let answer = to_lower ul (trim_space l) in
      if answer = ''yes'' then Some True
      else if answer = ''no'' then Some False
      else answer_in ul ls)"

fun ask :: "(nat \<Rightarrow> nat) \<Rightarrow> string list list \<Rightarrow> (string + bool) \<times> string list list" where
  "ask ul [] = (Inl ''failed to read answer: EOF'', [])"
| "ask ul (r # rs) = (case answer_in ul r of Some b \<Rightarrow> (Inr b, rs) | None \<Rightarrow> ask ul rs)"

definition question :: "(nat \<Rightarrow> nat) \<Rightarrow> string \<times> string option \<Rightarrow> string list list \<Rightarrow> (string + bool) \<times> string list list" where
  "question ul printed reads = (case snd printed of Some e \<Rightarrow> (Inl e, reads) | None \<Rightarrow> ask ul reads)"

definition askAddingUnknownHostKey ::
  "'t known_lib \<Rightarrow> string \<Rightarrow> string \<Rightarrow> string \<Rightarrow> string list list \<Rightarrow> (string + bool) \<times> string list list" where
  "askAddingUnknownHostKey kl txt address remote reads =
     (case kl_parse kl txt of
        Inl e \<Rightarrow> (Inl e, reads)
      | Inr t \<Rightarrow> question (kl_lower kl)
          (kl_write kl t \<lparr>wi_Address = address, wi_RemoteAddr = remote, wi_Fingerprint = kl_fingerprint kl\<rparr>) reads)"

definition askOverwriteKnownHostKey ::
  "'t known_lib \<Rightarrow> string \<Rightarrow> string \<Rightarrow> string \<Rightarrow> string \<Rightarrow> string list list \<Rightarrow> (string + bool) \<times> string list list" where
  "askOverwriteKnownHostKey kl txt address remote oldkey reads =
     (case kl_parse kl txt of
        Inl e \<Rightarrow> (Inl e, reads)
      | Inr t \<Rightarrow> question (kl_lower kl)
          (kl_overwrite kl t \<lparr>wi_Address = address, wi_RemoteAddr = remote, wi_Fingerprint = kl_fingerprint kl, oi_OldKeyText = oldkey\<rparr>) reads)"

section \<open>The file\<close>

definition unlines :: "string list \<Rightarrow> string" where
  "unlines ls = concat (map (\<lambda>l. l @ [newline]) ls)"

text \<open>
  \<open>writeKnownHostsKey\<close> on the content of the file: an append, or the lines with one of them
  replaced written over the old content. The file is opened without truncation; it is read and
  written through buffers, so the content is that of a file that fits one.
\<close>

definition known_hosts_entry :: "(string list \<Rightarrow> string) \<Rightarrow> string \<Rightarrow> string \<Rightarrow> string" where
  "known_hosts_entry mkLine hostname remote = mkLine (if remote = hostname then [hostname] else [hostname, remote])"

definition overwrite :: "string \<Rightarrow> string \<Rightarrow> string" where
  "overwrite new old = new @ drop (length new) old"

definition writeKnownHostsKey :: "nat \<Rightarrow> string \<Rightarrow> string \<Rightarrow> string" where
  "writeKnownHostsKey linenum entry content =
     (if linenum = 0 then content @ entry @ [newline]
      else overwrite (unlines ((scan_lines content)[linenum - 1 := entry])) content)"

text \<open>The write on a file system; its error does not reach the caller.\<close>

definition write_known :: "string \<Rightarrow> nat \<Rightarrow> string \<Rightarrow> (string \<Rightarrow> string option) \<Rightarrow> string \<Rightarrow> string option" where
  "write_known fname linenum entry fs =
     (case fs fname of None \<Rightarrow> fs | Some content \<Rightarrow> fs(fname \<mapsto> writeKnownHostsKey linenum entry content))"

section \<open>The check of a host key\<close>

text \<open>What the callback of the library says: the key is known, it is unknown or another one is wanted
  (the places and texts of the known keys), any other error (a revoked key).\<close>

datatype key_check = KeyOk | KeyErr "(string \<times> nat \<times> string) list" | OtherKeyErr

record known_state =
  ks_write_text :: string
  ks_overwrite_text :: string
  ks_files :: "string list"

definition failed_check :: "string option \<Rightarrow> string" where
  "failed_check err = ''host key verification failed'' @ (case err of None \<Rightarrow> [] | Some e \<Rightarrow> '': '' @ e)"

text \<open>The questions for the wanted keys, one after the other: the line of the last one.\<close>

fun ask_wants :: "'t known_lib \<Rightarrow> string \<Rightarrow> string \<Rightarrow> string \<Rightarrow> (string \<times> nat \<times> string) list \<Rightarrow> nat
   \<Rightarrow> string list list \<Rightarrow> string + nat" where
  "ask_wants kl txt hostname remote [] line reads = Inr line"
| "ask_wants kl txt hostname remote ((fname, w, oldkey) # ws) line reads =
     (case askOverwriteKnownHostKey kl txt hostname remote oldkey reads of
        (Inr True, reads') \<Rightarrow> ask_wants kl txt hostname remote ws w reads'
      | (Inr False, _) \<Rightarrow> Inl (failed_check None)
      | (Inl e, _) \<Rightarrow> Inl (failed_check (Some e)))"

fun abs_paths :: "string option \<Rightarrow> string \<Rightarrow> string list \<Rightarrow> string list outcome" where
  "abs_paths home cwd [] = Done []"
| "abs_paths home cwd (f # fs) = obind (getAbsPath home cwd f) (\<lambda>p. obind (abs_paths home cwd fs) (\<lambda>ps. Done (p # ps)))"

definition with_default_texts :: "known_state \<Rightarrow> known_state" where
  "with_default_texts k = k
     \<lparr>ks_write_text := if ks_write_text k = [] then default_write_text else ks_write_text k,
      ks_overwrite_text := if ks_overwrite_text k = [] then default_overwrite_text else ks_overwrite_text k\<rparr>"

text \<open>
  \<open>verifyAndAppendNew\<close>: the settings, the files and the error after the check. \<open>check\<close> is
  the reading of the files by the library with the answer of its callback. An error that is no
  \<open>KeyError\<close> leaves a nil pointer, whose field is read.
\<close>

definition verifyAndAppendNew ::
  "'t known_lib \<Rightarrow> string option \<Rightarrow> string \<Rightarrow> (string list \<Rightarrow> string + key_check) \<Rightarrow> string \<Rightarrow> string
   \<Rightarrow> string list list \<Rightarrow> known_state \<Rightarrow> (string \<Rightarrow> string option)
   \<Rightarrow> (known_state \<times> (string \<Rightarrow> string option) \<times> string option) outcome" where
  "verifyAndAppendNew kl home cwd check hostname remote reads k0 fs =
     (let k1 = with_default_texts k0 in
      if ks_files k1 = [] then Done (k1, fs, Some ''there is no knownhosts file'')
      else obind (abs_paths home cwd (ks_files k1)) (\<lambda>files.
        let k = k1\<lparr>ks_files := files\<rparr>;
            entry = known_hosts_entry (kl_line kl) hostname remote in
        case check files of
          Inl e \<Rightarrow> Done (k, fs, Some e)
        | Inr KeyOk \<Rightarrow> Done (k, fs, None)
        | Inr OtherKeyErr \<Rightarrow> Panic
        | Inr (KeyErr []) \<Rightarrow>
            (case fst (askAddingUnknownHostKey kl (ks_write_text k) hostname remote reads) of
               Inl e \<Rightarrow> Done (k, fs, Some (failed_check (Some e)))
             | Inr False \<Rightarrow> Done (k, fs, Some (failed_check None))
             | Inr True \<Rightarrow> Done (k, write_known (hd files) 0 entry fs, None))
        | Inr (KeyErr (w # ws)) \<Rightarrow>
            (case ask_wants kl (ks_overwrite_text k) hostname remote (w # ws) 0 reads of
               Inl e \<Rightarrow> Done (k, fs, Some e)
             | Inr line \<Rightarrow> Done (k, write_known (hd files) line entry fs, None))))"

section \<open>Facts\<close>

lemma unlines_simps [simp]:
  "unlines [] = []" "unlines (l # ls) = l @ newline # unlines ls" "unlines (ls @ ms) = unlines ls @ unlines ms"
  by (simp_all add: unlines_def)

lemma length_unlines_update:
  assumes "n < length ls"
  shows "length (unlines (ls[n := e])) + length (ls ! n) = length (unlines ls) + length e"
proof -
  have "unlines ls = unlines (take n ls @ ls ! n # drop (Suc n) ls)"
    using assms by (simp add: id_take_nth_drop [symmetric])
  then show ?thesis using assms by (simp add: upd_conv_take_nth_drop)
qed

text \<open>All answers in one read, as of a pipe: a second question finds no answer.\<close>

lemma piped_answers_lost:
  assumes "kl_parse kl txt = Inr t" and "\<forall>i. snd (kl_overwrite kl t i) = None"
  shows "\<exists>e. ask_wants kl txt hostname remote (w1 # w2 # ws) line [answers] = Inl e"
  using assms
  by (cases w1; cases w2) (auto simp: askOverwriteKnownHostKey_def question_def split: option.split bool.split)

text \<open>The line replaced, and the tail of the old content when the new line is shorter.\<close>

lemma write_line:
  assumes "\<forall>l \<in> set ls. newline \<notin> set l \<and> \<not> suffix [CHR 0x0D] l" and "n < length ls"
  shows "writeKnownHostsKey (Suc n) entry (unlines ls)
    = unlines (ls[n := entry]) @ drop (length (unlines ls) + length entry - length (ls ! n)) (unlines ls)"
proof -
  have "scan_lines (unlines ls) = ls"
    unfolding unlines_def by (rule scan_lines_concat) (use assms(1) in auto)
  moreover have "length (unlines (ls[n := entry])) = length (unlines ls) + length entry - length (ls ! n)"
    using length_unlines_update [OF assms(2), of entry] by linarith
  ultimately show ?thesis by (simp add: writeKnownHostsKey_def overwrite_def)
qed

section \<open>Properties\<close>

text \<open>C32 Replacing a host key leaves the end of the old file behind when the new entry is shorter:
  after the new lines follow as many bytes of the old file as the entry is shorter, and only an
  entry at least as long gives the intended file.\<close>

theorem replaced_key_leaves_tail:
  assumes "\<forall>l \<in> set ls. newline \<notin> set l \<and> \<not> suffix [CHR 0x0D] l" and "n < length ls"
  shows "writeKnownHostsKey (Suc n) entry (unlines ls)
    = unlines (ls[n := entry]) @ drop (length (unlines ls) + length entry - length (ls ! n)) (unlines ls)"
  using assms by (rule write_line)

lemma replaced_key_leaves_tail_witness:
  "writeKnownHostsKey 1 ''h b'' (unlines [''h aaaa'']) = unlines [''h b'', ''aa'']"
  using replaced_key_leaves_tail [of "[''h aaaa'']" 0 "''h b''"]
  by (simp add: newline_def suffix_def)

text \<open>C33 A changed key that is not in the first file: the answer yes replaces the line with its
  number in the first file, the entry of another host, while the file with the old key stays as
  it is, and the key is accepted.\<close>

theorem wrong_file_overwritten:
  assumes "ks_files k \<noteq> []" and "abs_paths home cwd (ks_files k) = Done files"
    and "check files = Inr (KeyErr [(fname, Suc n, oldkey)])" and "fname \<noteq> hd files"
    and "kl_parse kl (ks_overwrite_text (with_default_texts k)) = Inr t" and "\<forall>i. snd (kl_overwrite kl t i) = None"
    and "answer_in (kl_lower kl) r = Some True"
    and "fs (hd files) = Some (unlines ls)" and "\<forall>l \<in> set ls. newline \<notin> set l \<and> \<not> suffix [CHR 0x0D] l" and "n < length ls"
    and "length (ls ! n) \<le> length (known_hosts_entry (kl_line kl) hostname remote)"
  shows "\<exists>k' fs'. verifyAndAppendNew kl home cwd check hostname remote (r # reads) k fs = Done (k', fs', None)
    \<and> fs' (hd files) = Some (unlines (ls[n := known_hosts_entry (kl_line kl) hostname remote])) \<and> fs' fname = fs fname"
proof -
  let ?e = "known_hosts_entry (kl_line kl) hostname remote"
  have w: "ask_wants kl (ks_overwrite_text (with_default_texts k)) hostname remote [(fname, Suc n, oldkey)] 0 (r # reads) = Inr (Suc n)"
    using assms(5,6,7) by (simp add: askOverwriteKnownHostKey_def question_def)
  have "writeKnownHostsKey (Suc n) ?e (unlines ls) = unlines (ls[n := ?e])"
    using write_line [OF assms(9,10), of ?e] assms(11) by simp
  then have "verifyAndAppendNew kl home cwd check hostname remote (r # reads) k fs
      = Done ((with_default_texts k)\<lparr>ks_files := files\<rparr>, fs(hd files \<mapsto> unlines (ls[n := ?e])), None)"
    using assms(1-3,8) w by (simp add: verifyAndAppendNew_def Let_def with_default_texts_def write_known_def)
  then show ?thesis using assms(4) by simp
qed

definition demo_known :: "unit known_lib" where
  "demo_known = \<lparr>kl_parse = (\<lambda>_. Inr ()), kl_write = (\<lambda>_ _. ([], None)), kl_overwrite = (\<lambda>_ _. ([], None)),
     kl_fingerprint = [], kl_line = (\<lambda>as. hd as @ '' new''), kl_lower = ascii_lower\<rparr>"

definition demo_settings :: known_state where
  "demo_settings = \<lparr>ks_write_text = [], ks_overwrite_text = [], ks_files = [''/a'', ''/b'']\<rparr>"

definition demo_files :: "string \<Rightarrow> string option" where
  "demo_files = [''/a'' \<mapsto> unlines [''db old''], ''/b'' \<mapsto> unlines [''web old'']]"

lemma wrong_file_overwritten_witness:
  "\<exists>k' fs'. verifyAndAppendNew demo_known (Some ''/h'') ''/'' (\<lambda>_. Inr (KeyErr [(''/b'', Suc 0, ''old'')])) ''web'' ''web''
       [[''yes'']] demo_settings demo_files = Done (k', fs', None)
     \<and> fs' (hd [''/a'', ''/b'']) = Some (unlines ([''db old''][0 := known_hosts_entry (kl_line demo_known) ''web'' ''web'']))
     \<and> fs' ''/b'' = demo_files ''/b''"
proof (rule wrong_file_overwritten [where t = "()" and oldkey = "''old''"])
  show "abs_paths (Some ''/h'') ''/'' (ks_files demo_settings) = Done [''/a'', ''/b'']" by code_simp
  show "answer_in (kl_lower demo_known) [''yes''] = Some True"
    by (simp add: demo_known_def ascii_eval ascii_def space_char_def lower_char_def)
  show "demo_files (hd [''/a'', ''/b'']) = Some (unlines [''db old''])" by (simp add: demo_files_def)
qed (simp_all add: demo_settings_def demo_known_def known_hosts_entry_def newline_def suffix_def)

end
