(* ===== verification/Sshlib_Down.thy ===== *)
theory Sshlib_Down
  imports Sshlib_Term Go_Machine
begin

text \<open>
  src/sshlib/dl.go, the download of a file through the terminal: the responses of the hidden
  commands are written into a pipe, another goroutine reads them through the decoder of
  encoding/base64 and writes the bytes to the temporary file and to the checksum. The two
  goroutines are a transition system; nothing but the pipe orders them.
\<close>

section \<open>The encoding (encoding/base64, StdEncoding)\<close>

definition b64_alphabet :: string where
  "b64_alphabet = ''ABCDEFGHIJKLMNOPQRSTUVWXYZabcdefghijklmnopqrstuvwxyz0123456789+/''"

definition b64_char :: "nat \<Rightarrow> char" where
  "b64_char n = b64_alphabet ! n"

definition b64_value :: "char \<Rightarrow> nat option" where
  "b64_value c = (let i = length (takeWhile (\<lambda>x. x \<noteq> c) b64_alphabet) in if i < 64 then Some i else None)"

fun b64_encode :: "string \<Rightarrow> string" where
  "b64_encode [] = []"
| "b64_encode [a] = [b64_char (of_char a div 4), b64_char (of_char a mod 4 * 16), CHR ''='', CHR ''='']"
| "b64_encode [a, b] =
     [b64_char (of_char a div 4), b64_char (of_char a mod 4 * 16 + of_char b div 16),
      b64_char (of_char b mod 16 * 4), CHR ''='']"
| "b64_encode (a # b # c # s) =
     [b64_char (of_char a div 4), b64_char (of_char a mod 4 * 16 + of_char b div 16),
      b64_char (of_char b mod 16 * 4 + of_char c div 64), b64_char (of_char c mod 64)] @ b64_encode s"

definition byte1 :: "nat \<Rightarrow> nat \<Rightarrow> char" where
  "byte1 x y = char_of (x * 4 + y div 16)"

definition byte2 :: "nat \<Rightarrow> nat \<Rightarrow> char" where
  "byte2 y z = char_of (y mod 16 * 16 + z div 4)"

definition byte3 :: "nat \<Rightarrow> nat \<Rightarrow> char" where
  "byte3 z w = char_of (z mod 4 * 64 + w)"

text \<open>\<open>Decode\<close>: the bytes and whether there was no error; nothing may follow a padding.\<close>

fun b64_decode :: "string \<Rightarrow> string \<times> bool" where
  "b64_decode [] = ([], True)"
| "b64_decode (c1 # c2 # c3 # c4 # s) =
     (case (b64_value c1, b64_value c2) of
        (Some x, Some y) \<Rightarrow>
          (case b64_value c3 of
             Some z \<Rightarrow>
               (case b64_value c4 of
                  Some w \<Rightarrow> (let (bs, ok) = b64_decode s in (byte1 x y # byte2 y z # byte3 z w # bs, ok))
                | None \<Rightarrow> if c4 = CHR ''='' then ([byte1 x y, byte2 y z], s = []) else ([], False))
           | None \<Rightarrow> if c3 = CHR ''='' \<and> c4 = CHR ''='' then ([byte1 x y], s = []) else ([], False))
      | _ \<Rightarrow> ([], False))"
| "b64_decode s = ([], False)"

section \<open>The two goroutines\<close>

text \<open>The main goroutine: fetching parts, blocked in a write to the pipe, after the close of the
  pipe, after the comparison of the checksums (did it fail), returned.\<close>

datatype dl_main = Fetching | Writing | Closed | Compared bool | Returned bool

text \<open>The copying goroutine: in a read, before the write of decoded bytes to the file (with the
  success of the decoding), before that to the checksum, at its end.\<close>

datatype dl_copier = Reading | Saving string bool | Hashing string bool | Stopped

record dl_sys =
  d_main :: dl_main
  d_todo :: "string list"
  d_pipe :: string
  d_closed :: bool
  d_buf :: string
  d_copier :: dl_copier
  d_temp :: string
  d_open :: bool
  d_hash :: string

definition dl_start :: "string list \<Rightarrow> dl_sys" where
  "dl_start rsps = \<lparr>d_main = Fetching, d_todo = rsps, d_pipe = [], d_closed = False, d_buf = [],
     d_copier = Reading, d_temp = [], d_open = True, d_hash = []\<rparr>"

text \<open>The next response of \<open>dlPart\<close>; without one it is that of a time-out.\<close>

definition next_rsp :: "dl_sys \<Rightarrow> string" where
  "next_rsp s = (case d_todo s of [] \<Rightarrow> [] | r # rs \<Rightarrow> r)"

definition no_line_ends :: "string \<Rightarrow> string" where
  "no_line_ends s = filter (\<lambda>c. c \<noteq> CHR 0x0D \<and> c \<noteq> newline) s"

text \<open>What a read of the decoder, whose buffer has 1024 bytes, takes out of the write in progress.\<close>

definition taken :: "dl_sys \<Rightarrow> nat" where
  "taken s = 1024 - length (d_buf s)"

definition whole_quanta :: "dl_sys \<Rightarrow> nat" where
  "whole_quanta s = length (d_buf s) div 4 * 4"

inductive dl_step :: "(string \<Rightarrow> string) \<Rightarrow> string \<Rightarrow> dl_sys \<Rightarrow> dl_sys \<Rightarrow> bool" for md5 md5sum where
  part: "d_main s = Fetching \<Longrightarrow> next_rsp s \<noteq> [] \<Longrightarrow>
    dl_step md5 md5sum s (s\<lparr>d_main := Writing, d_pipe := next_rsp s, d_todo := tl (d_todo s)\<rparr>)"
| written: "d_main s = Writing \<Longrightarrow> d_pipe s = [] \<Longrightarrow> dl_step md5 md5sum s (s\<lparr>d_main := Fetching\<rparr>)"
| close: "d_main s = Fetching \<Longrightarrow> next_rsp s = [] \<Longrightarrow>
    dl_step md5 md5sum s (s\<lparr>d_main := Closed, d_closed := True\<rparr>)"
| compare: "d_main s = Closed \<Longrightarrow>
    dl_step md5 md5sum s (s\<lparr>d_main := Compared (md5 (d_hash s) \<noteq> md5sum)\<rparr>)"
| ret: "d_main s = Compared failed \<Longrightarrow>
    dl_step md5 md5sum s (s\<lparr>d_main := Returned failed, d_open := False\<rparr>)"
| take: "d_copier s = Reading \<Longrightarrow> length (d_buf s) < 4 \<Longrightarrow> d_pipe s \<noteq> [] \<Longrightarrow>
    dl_step md5 md5sum s
      (s\<lparr>d_buf := d_buf s @ no_line_ends (take (taken s) (d_pipe s)), d_pipe := drop (taken s) (d_pipe s)\<rparr>)"
| decode: "d_copier s = Reading \<Longrightarrow> 4 \<le> length (d_buf s) \<Longrightarrow>
    b64_decode (take (whole_quanta s) (d_buf s)) = (bs, ok) \<Longrightarrow>
    dl_step md5 md5sum s (s\<lparr>d_buf := drop (whole_quanta s) (d_buf s), d_copier := Saving bs ok\<rparr>)"
| eof: "d_copier s = Reading \<Longrightarrow> length (d_buf s) < 4 \<Longrightarrow> d_pipe s = [] \<Longrightarrow> d_closed s \<Longrightarrow>
    dl_step md5 md5sum s (s\<lparr>d_copier := Stopped\<rparr>)"
| save: "d_copier s = Saving bs ok \<Longrightarrow> d_open s \<Longrightarrow>
    dl_step md5 md5sum s (s\<lparr>d_temp := d_temp s @ bs, d_copier := Hashing bs ok\<rparr>)"
| save_fails: "d_copier s = Saving bs ok \<Longrightarrow> \<not> d_open s \<Longrightarrow>
    dl_step md5 md5sum s (s\<lparr>d_copier := Stopped\<rparr>)"
| hash: "d_copier s = Hashing bs ok \<Longrightarrow>
    dl_step md5 md5sum s (s\<lparr>d_hash := d_hash s @ bs, d_copier := if ok then Reading else Stopped\<rparr>)"

text \<open>
  \<open>dl\<close> from the responses of its commands: the size (0 ends it), the checksum of the remote
  file and the temporary file; then the two goroutines start on the responses of the parts.
  \<open>PbReader\<close> adds the bytes that were read to the bar.
\<close>

datatype dl_begin = NotStarted string | Started string string dl_sys

definition dl ::
  "(string \<Rightarrow> int) \<Rightarrow> string \<Rightarrow> string \<Rightarrow> (string \<Rightarrow> string + string) \<Rightarrow> string list \<Rightarrow> string \<Rightarrow> dl_begin outcome" where
  "dl parse lsRsp md5Rsp createTemp rsps file =
     obind (lsSize parse lsRsp) (\<lambda>size.
       case size of
         Inl e \<Rightarrow> Done (NotStarted e)
       | Inr fileSize \<Rightarrow>
           (case createTemp (''*.'' @ path_base file) of
              Inl e \<Rightarrow> Done (NotStarted e)
            | Inr tempName \<Rightarrow> Done (Started tempName (field0 md5Rsp) (dl_start rsps))))"

definition dl_cmds :: "string \<Rightarrow> nat \<Rightarrow> string list" where
  "dl_cmds file n = [''ls -l '' @ file @ '' 2>&1'', ''md5sum '' @ file] @ map (dl_cmd file) [0..<n]"

definition PbReader_Read :: "nat \<Rightarrow> nat \<Rightarrow> nat" where
  "PbReader_Read n shown = (if n > 0 then shown + n else shown)"

section \<open>Facts on the encoding\<close>

lemma b64_value_char: "n < 64 \<Longrightarrow> b64_value (b64_char n) = Some n"
proof -
  have "\<forall>n \<in> set [0..<64]. b64_value (b64_char n) = Some n" by code_simp
  then show "n < 64 \<Longrightarrow> ?thesis" by simp
qed

lemma b64_value_pad [simp]: "b64_value (CHR ''='') = None"
  by code_simp

lemma digits:
  assumes "r < k"
  shows "(q * k + r) div k = q" "(q * k + r) mod k = (r :: nat)" "q < m \<Longrightarrow> q * k + r < m * k"
proof -
  show "(q * k + r) div k = q" "(q * k + r) mod k = r" using assms by simp_all
  assume "q < m"
  then have "Suc q * k \<le> m * k" by (intro mult_le_mono1) simp
  then show "q * k + r < m * k" using assms by simp
qed

lemma quotients: "x < 256 \<Longrightarrow> x div 4 < 64" "x < 256 \<Longrightarrow> x div 16 < 16" "x < 256 \<Longrightarrow> x div 64 < (4 :: nat)"
  by (simp_all add: div_less_iff_less_mult)

lemma six_bits:
  "x < 256 \<Longrightarrow> x div 4 < (64::nat)" "x mod 4 * 16 < (64::nat)"
  "y < 256 \<Longrightarrow> x mod 4 * 16 + y div 16 < (64::nat)" "y mod 16 * 4 < (64::nat)"
  "z < 256 \<Longrightarrow> y mod 16 * 4 + z div 64 < (64::nat)" "z mod 64 < (64::nat)"
  using quotients(1) [of x] digits(3) [of "y div 16" 16 "x mod 4" 4] quotients(2) [of y]
    digits(3) [of "z div 64" 4 "y mod 16" 16] quotients(3) [of z]
    digits(3) [of 0 16 "x mod 4" 4] digits(3) [of 0 4 "y mod 16" 16] by simp_all

lemma six_bits_back:
  "y < 256 \<Longrightarrow> (x mod 4 * 16 + y div 16) div 16 = (x mod 4 :: nat)"
  "y < 256 \<Longrightarrow> (x mod 4 * 16 + y div 16) mod 16 = (y div 16 :: nat)"
  "z < 256 \<Longrightarrow> (y mod 16 * 4 + z div 64) div 4 = (y mod 16 :: nat)"
  "z < 256 \<Longrightarrow> (y mod 16 * 4 + z div 64) mod 4 = (z div 64 :: nat)"
  by (rule digits, erule quotients)+

lemma byte_parts: "char_of (of_char d div k * k + of_char d mod k) = d" for k :: nat
  by (simp only: div_mult_mod_eq char_of_char)

lemma bytes_back:
  "byte1 (of_char a div 4) (of_char a mod 4 * 16 + of_char b div 16) = a"
  "byte1 (of_char a div 4) (of_char a mod 4 * 16) = a"
  "byte2 (of_char a mod 4 * 16 + of_char b div 16) (of_char b mod 16 * 4 + of_char c div 64) = b"
  "byte2 (of_char a mod 4 * 16 + of_char b div 16) (of_char b mod 16 * 4) = b"
  "byte3 (of_char b mod 16 * 4 + of_char c div 64) (of_char c mod 64) = c"
  using byte_parts [of a 4] byte_parts [of b 16] byte_parts [of c 64]
  unfolding byte1_def byte2_def byte3_def six_bits_back [OF nat_of_char_less_256] by simp_all

lemma b64_round_trip: "b64_decode (b64_encode s) = (s, True)"
  by (induction s rule: b64_encode.induct) (simp_all add: b64_value_char six_bits bytes_back)

lemma quantum_Suc: "4 * Suc n = Suc (Suc (Suc (Suc (4 * n))))" "3 * Suc n = Suc (Suc (Suc (3 * n)))"
  by simp_all

lemma b64_encode_split:
  "take (4 * n) (b64_encode s) = b64_encode (take (3 * n) s) \<and> drop (4 * n) (b64_encode s) = b64_encode (drop (3 * n) s)"
proof (induction n arbitrary: s)
  case (Suc n)
  show ?case unfolding quantum_Suc by (cases s rule: b64_encode.cases) (simp_all add: Suc)
qed simp

text \<open>A buffer of the decoder.\<close>

lemma b64_buffer:
  "take 1024 (b64_encode p) = b64_encode (take 768 p)" "drop 1024 (b64_encode p) = b64_encode (drop 768 p)"
  using b64_encode_split [of 256 p] by simp_all

lemma b64_encode_quanta: "length (b64_encode s) div 4 * 4 = length (b64_encode s)"
proof -
  have "length (b64_encode s) mod 4 = 0"
    by (induction s rule: b64_encode.induct) simp_all
  then show ?thesis by (simp add: mod_0_imp_dvd dvd_div_mult_self)
qed

lemma b64_encode_empty [simp]: "b64_encode s = [] \<longleftrightarrow> s = []"
  by (cases s rule: b64_encode.cases) simp_all

lemma b64_encode_empty' [simp]: "[] = b64_encode s \<longleftrightarrow> s = []"
  by (metis b64_encode_empty)

lemma b64_encode_short: "length (b64_encode s) < 4 \<longleftrightarrow> s = []"
  by (cases s rule: b64_encode.cases) simp_all

lemma b64_encode_clean [simp]: "no_line_ends (b64_encode s) = b64_encode s"
proof -
  have c: "b64_char n \<noteq> CHR 0x0D \<and> b64_char n \<noteq> newline" if "n < 64" for n
  proof -
    have "\<forall>n \<in> set [0..<64]. b64_char n \<noteq> CHR 0x0D \<and> b64_char n \<noteq> newline" by code_simp
    then show ?thesis using that by simp
  qed
  show ?thesis
    by (induction s rule: b64_encode.induct) (simp_all add: no_line_ends_def c six_bits, simp_all add: newline_def)
qed

section \<open>Facts on the download\<close>

inductive_cases dl_stepE: "dl_step md5 md5sum s s'"

text \<open>Every step makes a measure smaller: no run is infinite, whatever the responses are.\<close>

definition main_rank :: "dl_main \<Rightarrow> nat" where
  "main_rank m = (case m of Fetching \<Rightarrow> 4 | Writing \<Rightarrow> 5 | Closed \<Rightarrow> 3 | Compared f \<Rightarrow> 2 | Returned f \<Rightarrow> 1)"

definition copier_rank :: "dl_copier \<Rightarrow> nat" where
  "copier_rank c = (case c of Reading \<Rightarrow> 1 | Saving bs ok \<Rightarrow> 3 | Hashing bs ok \<Rightarrow> 2 | Stopped \<Rightarrow> 0)"

definition dl_rank :: "dl_sys \<Rightarrow> nat" where
  "dl_rank s = main_rank (d_main s) + copier_rank (d_copier s) + 3 * length (d_buf s) + 4 * length (d_pipe s)
     + sum_list (map (\<lambda>r. 2 + 4 * length r) (d_todo s))"

lemma length_no_line_ends: "length (no_line_ends s) \<le> length s"
  by (simp add: no_line_ends_def)

lemma dl_step_rank: "dl_step md5 md5sum s s' \<Longrightarrow> dl_rank s' < dl_rank s"
proof (induction rule: dl_step.induct)
  case (part s)
  then show ?case by (cases "d_todo s") (auto simp: next_rsp_def dl_rank_def main_rank_def)
next
  case (take s)
  define k where "k = length (take (taken s) (d_pipe s))"
  have "length (no_line_ends (take (taken s) (d_pipe s))) \<le> k" unfolding k_def by (rule length_no_line_ends)
  moreover have "0 < k" using take by (simp add: taken_def k_def)
  moreover have "length (drop (taken s) (d_pipe s)) + k = length (d_pipe s)" by (simp add: k_def)
  ultimately show ?case by (simp add: dl_rank_def del: length_drop)
next
  case (decode s bs ok)
  then have "0 < whole_quanta s" "whole_quanta s \<le> length (d_buf s)" by (auto simp: whole_quanta_def)
  then show ?case using decode by (simp add: dl_rank_def copier_rank_def)
qed (auto simp: dl_rank_def main_rank_def copier_rank_def split: if_splits)

text \<open>The state of a download of encoded parts: the bytes written, those on the way and those that
  are still to come are the file.\<close>

definition dl_inv_at :: "string \<Rightarrow> dl_sys \<Rightarrow> string \<Rightarrow> string \<Rightarrow> string list \<Rightarrow> string list \<Rightarrow> bool" where
  "dl_inv_at f s b p ps rest \<longleftrightarrow>
     d_buf s = b64_encode b \<and> d_pipe s = b64_encode p \<and> d_todo s = map b64_encode ps @ rest \<and> [] \<notin> set ps
     \<and> (rest = [] \<or> hd rest = [])
     \<and> (d_main s = Fetching \<longrightarrow> p = []) \<and> (d_closed s \<longrightarrow> p = [] \<and> ps = [])
     \<and> (d_closed s \<longleftrightarrow> d_main s \<noteq> Fetching \<and> d_main s \<noteq> Writing)
     \<and> (d_open s \<longleftrightarrow> (\<forall>r. d_main s \<noteq> Returned r))
     \<and> (case d_copier s of
          Reading \<Rightarrow> d_hash s = d_temp s \<and> d_temp s @ b @ p @ concat ps = f
        | Saving bs ok \<Rightarrow> ok \<and> d_hash s = d_temp s \<and> d_temp s @ bs @ b @ p @ concat ps = f
        | Hashing bs ok \<Rightarrow> ok \<and> d_temp s = d_hash s @ bs \<and> d_temp s @ b @ p @ concat ps = f
        | Stopped \<Rightarrow> d_hash s = d_temp s \<and> prefix (d_temp s) f \<and> (d_open s \<longrightarrow> d_temp s = f) \<and> d_closed s)"

definition dl_inv :: "string \<Rightarrow> dl_sys \<Rightarrow> bool" where
  "dl_inv f s \<longleftrightarrow> (\<exists>b p ps rest. dl_inv_at f s b p ps rest)"

lemma dl_inv_start:
  "[] \<notin> set ps \<Longrightarrow> rest = [] \<or> hd rest = [] \<Longrightarrow> dl_inv (concat ps) (dl_start (map b64_encode ps @ rest))"
  unfolding dl_inv_def
  by (rule exI [of _ "[]"], rule exI [of _ "[]"], rule exI [of _ ps], rule exI [of _ rest])
    (simp add: dl_inv_at_def dl_start_def)

lemma next_rsp_encoded:
  "dl_inv_at f s b p ps rest \<Longrightarrow> next_rsp s = (case ps of [] \<Rightarrow> [] | q # qs \<Rightarrow> b64_encode q)"
  by (cases ps; cases rest) (auto simp: dl_inv_at_def next_rsp_def)

lemma dl_inv_step:
  assumes "dl_step md5 md5sum s s'" "dl_inv f s"
  shows "dl_inv f s'"
proof -
  from assms(2) obtain b p ps rest where i: "dl_inv_at f s b p ps rest" by (auto simp: dl_inv_def)
  note n = next_rsp_encoded [OF i] and d = dl_inv_at_def
  from assms(1) show ?thesis
  proof cases
    case part
    with n obtain q qs where "ps = q # qs" by (cases ps) auto
    with part i n have "dl_inv_at f s' b q qs rest" by (auto simp: d split: dl_copier.splits)
    then show ?thesis by (auto simp: dl_inv_def)
  next
    case written
    with i have "dl_inv_at f s' b p ps rest" by (auto simp: d split: dl_copier.splits)
    then show ?thesis by (auto simp: dl_inv_def)
  next
    case close
    have "ps = []" using n close(3) i by (cases ps) (auto simp: d)
    with close i have "dl_inv_at f s' b p ps rest" by (auto simp: d split: dl_copier.splits)
    then show ?thesis by (auto simp: dl_inv_def)
  next
    case take
    from take(3) i have "b = []" by (simp add: d b64_encode_short)
    moreover have "taken s = 1024" using i \<open>b = []\<close> by (simp add: d taken_def)
    ultimately have "dl_inv_at f s' (take 768 p) (drop 768 p) ps rest"
      using take i by (auto simp: d b64_buffer split: dl_copier.splits)
    then show ?thesis by (auto simp: dl_inv_def)
  next
    case (decode bs ok)
    have "whole_quanta s = length (d_buf s)" using i by (simp add: d whole_quanta_def b64_encode_quanta)
    with decode i have "dl_inv_at f s' [] p ps rest" by (auto simp: d b64_round_trip)
    then show ?thesis by (auto simp: dl_inv_def)
  next
    case eof
    with i have "dl_inv_at f s' b p ps rest" by (auto simp: d b64_encode_short)
    then show ?thesis by (auto simp: dl_inv_def)
  next
    case (save_fails bs ok)
    with i have "dl_inv_at f s' b p ps rest" by (auto simp: d)
    then show ?thesis by (auto simp: dl_inv_def)
  next
    case (hash bs ok)
    with i have "dl_inv_at f s' b p ps rest" by (auto simp: d)
    then show ?thesis by (auto simp: dl_inv_def)
  next
    case (save bs ok)
    with i have "dl_inv_at f s' b p ps rest" by (auto simp: d)
    then show ?thesis by (auto simp: dl_inv_def)
  qed (use i in \<open>auto simp: dl_inv_def d split: dl_copier.splits intro!: exI\<close>)
qed

interpretation download: ranked "dl_step md5 md5sum" "dl_inv f" dl_rank
  by unfold_locales (auto intro: dl_inv_step dl_step_rank)

lemma dl_progress:
  assumes "dl_inv f s" and "\<forall>r. d_main s \<noteq> Returned r"
  shows "\<exists>s'. dl_step md5 md5sum s s'"
proof (cases "d_main s = Writing \<and> d_pipe s \<noteq> []")
  case True
  obtain b p ps rest where "dl_inv_at f s b p ps rest" using assms(1) by (auto simp: dl_inv_def)
  then have "d_copier s \<noteq> Stopped" using True by (auto simp: dl_inv_at_def)
  then show ?thesis
    using True dl_step.take [of s] dl_step.decode [of s] dl_step.save [of s] dl_step.save_fails [of s] dl_step.hash [of s]
    by (cases "d_copier s"; cases "length (d_buf s) < 4"; cases "d_open s"; cases "b64_decode (take (whole_quanta s) (d_buf s))")
      (fastforce simp: not_less)+
next
  case False
  then show ?thesis
    using assms(2) dl_step.part [of s] dl_step.close [of s] dl_step.written [of s] dl_step.compare [of s] dl_step.ret [of s]
    by (cases "d_main s") blast+
qed

text \<open>A run in which the copying goroutine is as fast as it can be.\<close>

definition dl_at :: "dl_main \<Rightarrow> string list \<Rightarrow> string \<Rightarrow> dl_copier \<Rightarrow> string \<Rightarrow> dl_sys" where
  "dl_at m todo pipe c t = \<lparr>d_main = m, d_todo = todo, d_pipe = pipe, d_closed = False, d_buf = [],
     d_copier = c, d_temp = t, d_open = True, d_hash = t\<rparr>"

lemma one_chunk:
  assumes "p \<noteq> []"
  shows "(dl_step md5 md5sum)\<^sup>*\<^sup>* (dl_at m todo (b64_encode p) Reading t)
    (dl_at m todo (b64_encode (drop 768 p)) (Saving (take 768 p) True) t)" (is "_\<^sup>*\<^sup>* ?a ?c")
proof -
  let ?b = "?a\<lparr>d_buf := b64_encode (take 768 p), d_pipe := b64_encode (drop 768 p)\<rparr>"
  have t: "taken ?a = 1024" by (simp add: taken_def dl_at_def)
  have "dl_step md5 md5sum ?a ?b"
    using dl_step.take [of ?a md5 md5sum] assms unfolding t
    by (simp add: dl_at_def b64_buffer)
  moreover have "whole_quanta ?b = length (d_buf ?b)" by (simp add: whole_quanta_def b64_encode_quanta)
  then have "dl_step md5 md5sum ?b ?c"
    using dl_step.decode [of ?b "take 768 p" True md5 md5sum] b64_encode_short [of "take 768 p"] assms
    by (simp add: b64_round_trip dl_at_def)
  ultimately show ?thesis by (meson r_into_rtranclp rtranclp.rtrancl_into_rtrancl)
qed

lemma save_chunk:
  "(dl_step md5 md5sum)\<^sup>*\<^sup>* (dl_at m todo pipe (Saving l True) t) (dl_at m todo pipe Reading (t @ l))" (is "_\<^sup>*\<^sup>* ?a ?c")
proof -
  let ?b = "?a\<lparr>d_temp := t @ l, d_copier := Hashing l True\<rparr>"
  have "dl_step md5 md5sum ?a ?b" using dl_step.save [of ?a l True] by (simp add: dl_at_def)
  moreover have "dl_step md5 md5sum ?b ?c" using dl_step.hash [of ?b l True] by (simp add: dl_at_def)
  ultimately show ?thesis by (meson r_into_rtranclp rtranclp.rtrancl_into_rtrancl)
qed

lemma drain:
  assumes "p \<noteq> []"
  shows "\<exists>u l. p = u @ l \<and> l \<noteq> [] \<and> (dl_step md5 md5sum)\<^sup>*\<^sup>* (dl_at m todo (b64_encode p) Reading t)
    (dl_at m todo [] (Saving l True) (t @ u))"
  using assms
proof (induction "length p" arbitrary: p t rule: less_induct)
  case less
  show ?case
  proof (cases "drop 768 p = []")
    case True
    then show ?thesis using one_chunk [OF less.prems, of md5 md5sum m todo t] less.prems
      by (intro exI [of _ "[]"] exI [of _ p]) simp
  next
    case False
    then have "length (drop 768 p) < length p" by simp
    from less.hyps [OF this False, of "t @ take 768 p"] obtain u l where
      ul: "drop 768 p = u @ l" "l \<noteq> []" "(dl_step md5 md5sum)\<^sup>*\<^sup>* (dl_at m todo (b64_encode (drop 768 p)) Reading (t @ take 768 p))
        (dl_at m todo [] (Saving l True) ((t @ take 768 p) @ u))" by blast
    have p: "p = (take 768 p @ u) @ l" using ul(1) by (metis append_assoc append_take_drop_id)
    have "(dl_step md5 md5sum)\<^sup>*\<^sup>* (dl_at m todo (b64_encode p) Reading t)
      (dl_at m todo [] (Saving l True) (t @ take 768 p @ u))"
      using one_chunk [OF less.prems] save_chunk ul(3) by (metis (no_types) append_assoc rtranclp_trans)
    then show ?thesis using p ul(2) by blast
  qed
qed

lemma start_part:
  "p \<noteq> [] \<Longrightarrow> dl_step md5 md5sum (dl_at Fetching (b64_encode p # rs) [] Reading t) (dl_at Writing rs (b64_encode p) Reading t)"
  using dl_step.part [of "dl_at Fetching (b64_encode p # rs) [] Reading t"] by (simp add: dl_at_def next_rsp_def)

lemma end_part: "dl_step md5 md5sum (dl_at Writing rs [] c t) (dl_at Fetching rs [] c t)"
  using dl_step.written [of "dl_at Writing rs [] c t"] by (simp add: dl_at_def)

lemma fetch_parts:
  assumes "ps \<noteq> []" and "[] \<notin> set ps"
  shows "\<exists>u l. concat ps = u @ l \<and> l \<noteq> [] \<and>
    (dl_step md5 md5sum)\<^sup>*\<^sup>* (dl_at Fetching (map b64_encode ps @ rest) [] Reading t) (dl_at Fetching rest [] (Saving l True) (t @ u))"
  using assms
proof (induction ps arbitrary: t)
  case (Cons p ps)
  let ?R = "(dl_step md5 md5sum)\<^sup>*\<^sup>*"
  obtain u l where ul: "p = u @ l" "l \<noteq> []"
    "?R (dl_at Writing (map b64_encode ps @ rest) (b64_encode p) Reading t) (dl_at Writing (map b64_encode ps @ rest) [] (Saving l True) (t @ u))"
    using drain [of p md5 md5sum Writing "map b64_encode ps @ rest" t] Cons.prems(2) by auto
  have "?R (dl_at Fetching (map b64_encode (p # ps) @ rest) [] Reading t) (dl_at Writing (map b64_encode ps @ rest) (b64_encode p) Reading t)"
    using start_part [of p] Cons.prems(2) by auto
  then have one: "?R (dl_at Fetching (map b64_encode (p # ps) @ rest) [] Reading t)
      (dl_at Fetching (map b64_encode ps @ rest) [] (Saving l True) (t @ u))"
    using ul(3) end_part [of md5 md5sum "map b64_encode ps @ rest" "Saving l True" "t @ u"] by simp
  show ?case
  proof (cases "ps = []")
    case True
    then show ?thesis using one ul(1,2) by (intro exI [of _ u] exI [of _ l]) simp
  next
    case False
    obtain u' l' where ul': "concat ps = u' @ l'" "l' \<noteq> []"
      "?R (dl_at Fetching (map b64_encode ps @ rest) [] Reading (t @ p)) (dl_at Fetching rest [] (Saving l' True) ((t @ p) @ u'))"
      using Cons.IH [OF False, of "t @ p"] Cons.prems(2) by auto
    have "?R (dl_at Fetching (map b64_encode (p # ps) @ rest) [] Reading t) (dl_at Fetching (map b64_encode ps @ rest) [] Reading (t @ p))"
      using one save_chunk [of md5 md5sum Fetching "map b64_encode ps @ rest" "[]" l "t @ u"] ul(1) by (simp add: rtranclp_trans)
    then show ?thesis using ul' by (intro exI [of _ "p @ u'"] exI [of _ l']) (auto intro: rtranclp_trans)
  qed
qed simp

text \<open>The end of the main goroutine does not wait for the other one.\<close>

lemma return_at_once:
  assumes "rest = [] \<or> hd rest = []"
  shows "\<exists>s. (dl_step md5 md5sum)\<^sup>*\<^sup>* (dl_at Fetching rest [] (Saving l ok) t) s
    \<and> d_main s = Returned (md5 t \<noteq> md5sum) \<and> d_copier s = Stopped \<and> d_temp s = t"
proof -
  let ?a = "dl_at Fetching rest [] (Saving l ok) t"
  let ?b = "?a\<lparr>d_main := Closed, d_closed := True\<rparr>"
  let ?c = "?b\<lparr>d_main := Compared (md5 t \<noteq> md5sum)\<rparr>"
  let ?d = "?c\<lparr>d_main := Returned (md5 t \<noteq> md5sum), d_open := False\<rparr>"
  let ?e = "?d\<lparr>d_copier := Stopped\<rparr>"
  have "dl_step md5 md5sum ?a ?b" using assms dl_step.close [of ?a] by (cases rest) (simp_all add: dl_at_def next_rsp_def)
  moreover have "dl_step md5 md5sum ?b ?c" using dl_step.compare [of ?b md5 md5sum] by (simp add: dl_at_def)
  moreover have "dl_step md5 md5sum ?c ?d" using dl_step.ret [of ?c] by (simp add: dl_at_def)
  moreover have "dl_step md5 md5sum ?d ?e" using dl_step.save_fails [of ?d l ok] by (simp add: dl_at_def)
  ultimately have "(dl_step md5 md5sum)\<^sup>*\<^sup>* ?a ?e" by (meson converse_rtranclp_into_rtranclp rtranclp.rtrancl_refl)
  then show ?thesis by (rule exI [where x = ?e, OF conjI]) (simp add: dl_at_def)
qed

text \<open>A response that is no encoding: the copying goroutine ends, the pipe stays open, and the
  write of the next part blocks for ever.\<close>

definition dl_stuck :: "dl_sys \<Rightarrow> bool" where
  "dl_stuck s \<longleftrightarrow> d_main s = Writing \<and> d_pipe s \<noteq> [] \<and> d_copier s = Stopped"

lemma stuck_for_ever: "dl_stuck s \<Longrightarrow> \<not> dl_step md5 md5sum s s'"
  by (auto simp: dl_stuck_def elim: dl_stepE)

lemma dl_inv_prefix:
  assumes "dl_inv f s"
  shows "prefix (d_temp s) f" "prefix (d_hash s) (d_temp s)" "d_copier s = Stopped \<and> d_open s \<longrightarrow> d_temp s = f"
proof -
  obtain b p ps rest where "dl_inv_at f s b p ps rest" using assms by (auto simp: dl_inv_def)
  then show "prefix (d_temp s) f" "prefix (d_hash s) (d_temp s)" "d_copier s = Stopped \<and> d_open s \<longrightarrow> d_temp s = f"
    by (cases "d_copier s"; force simp: dl_inv_at_def prefix_def)+
qed

section \<open>Properties\<close>



text \<open>C28 Nothing waits for the copying goroutine: every non-empty download has a run that returns with
  the end of the file missing in the temporary file, which was closed under the copy, and whose
  verdict is on the checksum of the shorter file.\<close>

theorem download_cut_off:
  assumes "parts \<noteq> []" and "[] \<notin> set parts" and "rest = [] \<or> hd rest = []"
  shows "\<exists>s l. (dl_step md5 md5sum)\<^sup>*\<^sup>* (dl_start (map b64_encode parts @ rest)) s
    \<and> d_main s = Returned (md5 (d_temp s) \<noteq> md5sum) \<and> d_copier s = Stopped
    \<and> concat parts = d_temp s @ l \<and> l \<noteq> []"
proof -
  have start: "dl_start (map b64_encode parts @ rest) = dl_at Fetching (map b64_encode parts @ rest) [] Reading []"
    by (simp add: dl_start_def dl_at_def)
  obtain u l where "concat parts = u @ l" "l \<noteq> []"
    "(dl_step md5 md5sum)\<^sup>*\<^sup>* (dl_start (map b64_encode parts @ rest)) (dl_at Fetching rest [] (Saving l True) u)"
    using fetch_parts [OF assms(1,2)] unfolding start by (metis append_Nil)
  moreover obtain s where "(dl_step md5 md5sum)\<^sup>*\<^sup>* (dl_at Fetching rest [] (Saving l True) u) s"
    "d_main s = Returned (md5 u \<noteq> md5sum)" "d_copier s = Stopped" "d_temp s = u"
    using return_at_once [OF assms(3)] by metis
  ultimately show ?thesis by (metis (no_types, lifting) rtranclp_trans)
qed

lemma download_cut_off_witness:
  "\<exists>s l. (dl_step (\<lambda>x. x) ''hello'')\<^sup>*\<^sup>* (dl_start [b64_encode ''hel'', b64_encode ''lo'']) s
     \<and> d_main s = Returned (d_temp s \<noteq> ''hello'') \<and> d_copier s = Stopped \<and> ''hello'' = d_temp s @ l \<and> l \<noteq> []"
  using download_cut_off [of "[''hel'', ''lo'']" "[]" "\<lambda>x. x" "''hello''"] by simp

end
