(* ===== verification/Sshlib_Stream.thy ===== *)
theory Sshlib_Stream
  imports Sshlib_Net Go_Machine
begin

text \<open>
  The streams of src/sshlib: the environment (brg.go), the set-up of X11 forwarding and the copying
  between two connections (forward.go), and the dialers through an http proxy and a proxy command
  (proxy.go). What a network operation answers is an argument.
\<close>

section \<open>The environment (brg.go)\<close>

text \<open>\<open>envMap\<close>: an entry without an equals sign has no second part; \<open>upper\<close> is
  \<open>strings.ToUpper\<close>.\<close>

fun envMap :: "(string \<Rightarrow> string) \<Rightarrow> string list \<Rightarrow> (string \<rightharpoonup> string) \<Rightarrow> (string \<rightharpoonup> string) outcome" where
  "envMap upper [] env = Done env"
| "envMap upper (e # environ) env =
     (let pair = split_on CHR ''='' e
      in obind (go_index pair 1) (\<lambda>v. envMap upper environ (env(upper (hd pair) \<mapsto> v))))"

fun Getenv :: "(string \<Rightarrow> string) \<Rightarrow> (string \<rightharpoonup> string) \<Rightarrow> string list \<Rightarrow> string" where
  "Getenv upper env [] = []"
| "Getenv upper env (key # keys) =
     (case env (upper key) of
        Some v \<Rightarrow> if v \<noteq> [] then v else Getenv upper env keys
      | None \<Rightarrow> Getenv upper env keys)"

text \<open>The initial bridges and targets: none with a proxy in the environment or without bridges;
  \<open>state\<close> is what brg.json says.\<close>

definition initial_brg ::
  "(string \<Rightarrow> string) \<Rightarrow> (string \<Rightarrow> nat) \<Rightarrow> (string \<rightharpoonup> string) \<Rightarrow> 't option \<Rightarrow> (string list \<times> 't option) outcome" where
  "initial_brg upper sha1Port env state =
     (if Getenv upper env [''PROXY''] \<noteq> [] then Done ([], None)
      else let brgEnv = Getenv upper env [''BRG''] in
        if brgEnv = [] \<or> brgEnv = ''0'' then Done ([], None)
        else obind (createBrgProxies sha1Port brgEnv) (\<lambda>proxies. Done (proxies, state)))"

section \<open>X11 (forward.go)\<close>

text \<open>The host name and the file \<open>readAuthority\<close> reads; \<open>Inl\<close> is an error.\<close>

definition authority_host :: "string option \<Rightarrow> string \<Rightarrow> string option" where
  "authority_host os_hostname hostname =
     (if hostname = [] \<or> hostname = ''localhost'' then os_hostname else Some hostname)"

definition authority_file :: "string \<Rightarrow> string \<Rightarrow> string + string" where
  "authority_file xauthority home =
     (if xauthority \<noteq> [] then Inr xauthority
      else if home = [] then Inl ''Xauthority not found: $XAUTHORITY, $HOME not set''
      else Inr (home @ slash # ''.Xauthority''))"

datatype x11_error = NoHostname | NoAuthority string | OpenFailed | AuthError read_err | RequestError string | RequestRefused

definition read_authority ::
  "string option \<Rightarrow> string \<Rightarrow> string \<Rightarrow> (string \<Rightarrow> string option) \<Rightarrow> string \<Rightarrow> x11_error + (string \<times> string)" where
  "read_authority os_hostname xauthority home files display =
     (case authority_host os_hostname [] of
        None \<Rightarrow> Inl NoHostname
      | Some host \<Rightarrow>
          (case authority_file xauthority home of
             Inl e \<Rightarrow> Inl (NoAuthority e)
           | Inr fname \<Rightarrow>
               (case files fname of
                  None \<Rightarrow> Inl OpenFailed
                | Some content \<Rightarrow> map_sum AuthError id (readAuthority host display content))))"

record x11Request =
  x11_SingleConnection :: bool
  x11_AuthProtocol :: string
  x11_AuthCookie :: string
  x11_ScreenNumber :: nat

text \<open>\<open>X11Forward\<close>: the request that is sent, whether the channels are opened, and the error; of
  the errors of the authority file only its end is overlooked. \<open>send\<close> is the error of the
  request or whether it was accepted.\<close>

definition x11_payload :: "string \<Rightarrow> x11Request" where
  "x11_payload cookie =
     \<lparr>x11_SingleConnection = False, x11_AuthProtocol = ''MIT-MAGIC-COOKIE-1'', x11_AuthCookie = cookie, x11_ScreenNumber = 0\<rparr>"

definition X11Forward_request ::
  "string option \<Rightarrow> string \<Rightarrow> string \<Rightarrow> (string \<Rightarrow> string option) \<Rightarrow> (x11Request \<Rightarrow> string + bool) \<Rightarrow> string
   \<Rightarrow> (x11Request option \<times> bool \<times> x11_error option) outcome" where
  "X11Forward_request os_hostname xauthority home files send displayEnv =
     obind (getX11Display displayEnv) (\<lambda>display. Done (
       case (case read_authority os_hostname xauthority home files display of
               Inl (AuthError EOF) \<Rightarrow> Inr [] | Inl e \<Rightarrow> Inl e | Inr (name, data) \<Rightarrow> Inr data) of
         Inl e \<Rightarrow> (None, False, Some e)
       | Inr xAuth \<Rightarrow>
           (let payload = x11_payload (concat (map (\<lambda>d. [hex_digit (byte d div 16), hex_digit (byte d mod 16)]) xAuth))
            in case send payload of
                 Inr False \<Rightarrow> (Some payload, False, Some RequestRefused)
               | Inr True \<Rightarrow> (Some payload, True, None)
               | Inl e \<Rightarrow> (Some payload, True, Some (RequestError e)))))"

section \<open>Copying between two connections (forward.go)\<close>

text \<open>
  \<open>forwarder\<close> and \<open>x11forwarder\<close>: two copying goroutines, each of which ends at the end
  of its input (or on an error), and the closing of both connections when both have ended. The X11
  forwarder tells the other side the end of a direction, the TCP forwarder does not. \<open>waits\<close>:
  the remote end only ends its output after it has seen the end of its input.
\<close>

record forward_state =
  fw_up :: bool
  fw_down :: bool
  fw_told :: bool
  fw_closed :: bool

inductive forward_step :: "bool \<Rightarrow> bool \<Rightarrow> forward_state \<Rightarrow> forward_state \<Rightarrow> bool"
  for closeWrite waits :: bool where
  up: "\<not> fw_up s \<Longrightarrow> forward_step closeWrite waits s (s\<lparr>fw_up := True, fw_told := fw_told s \<or> closeWrite\<rparr>)"
| down: "\<not> fw_down s \<Longrightarrow> waits \<longrightarrow> fw_told s \<Longrightarrow> forward_step closeWrite waits s (s\<lparr>fw_down := True\<rparr>)"
| close: "fw_up s \<Longrightarrow> fw_down s \<Longrightarrow> \<not> fw_closed s \<Longrightarrow>
    forward_step closeWrite waits s (s\<lparr>fw_closed := True, fw_told := True\<rparr>)"

inductive_cases forward_stepE: "forward_step closeWrite waits s t"

definition forward_start :: forward_state where
  "forward_start = \<lparr>fw_up = False, fw_down = False, fw_told = False, fw_closed = False\<rparr>"

abbreviation forwarder :: "bool \<Rightarrow> forward_state \<Rightarrow> forward_state \<Rightarrow> bool" where
  "forwarder waits \<equiv> forward_step False waits"

abbreviation x11forwarder :: "bool \<Rightarrow> forward_state \<Rightarrow> forward_state \<Rightarrow> bool" where
  "x11forwarder waits \<equiv> forward_step True waits"

text \<open>Dynamic forwards: the first error of the SOCKS server and the listener, in their order.\<close>

definition TCPDynamicForward :: "string option \<Rightarrow> (string \<Rightarrow> string option) \<Rightarrow> string \<Rightarrow> string \<Rightarrow> string option" where
  "TCPDynamicForward socksErr listenAndServe address port =
     (case socksErr of Some e \<Rightarrow> Some e | None \<Rightarrow> listenAndServe (join_host_port address port))"

definition TCPReverseDynamicForward ::
  "string option \<Rightarrow> (string \<Rightarrow> string + 'l) \<Rightarrow> ('l \<Rightarrow> string option) \<Rightarrow> string \<Rightarrow> string \<Rightarrow> string option" where
  "TCPReverseDynamicForward socksErr listenRemote serve address port =
     (case listenRemote (join_host_port address port) of
        Inl e \<Rightarrow> Some e
      | Inr listner \<Rightarrow> (case socksErr of Some e \<Rightarrow> Some e | None \<Rightarrow> serve listner))"

section \<open>Dialing through a proxy (proxy.go)\<close>

record httpProxy =
  hp_host :: string
  hp_haveAuth :: bool
  hp_username :: string
  hp_password :: string

definition newHttpProxy :: "string \<Rightarrow> (string \<times> string) option \<Rightarrow> httpProxy" where
  "newHttpProxy host user =
     \<lparr>hp_host = host, hp_haveAuth = (user \<noteq> None),
      hp_username = (case user of Some (u, p) \<Rightarrow> u | None \<Rightarrow> []),
      hp_password = (case user of Some (u, p) \<Rightarrow> p | None \<Rightarrow> [])\<rparr>"

datatype dial_event = DialProxy string | SendConnect string "(string \<times> string) option" | CloseConn

text \<open>The reading of the answer: the chunks that the connection gives are taken into the buffer of the
  reader until it holds a whole header; \<open>header_end\<close> is its length. The result is the header,
  what else is in the buffer, and the chunks still to come.\<close>

fun read_header :: "(string \<Rightarrow> nat option) \<Rightarrow> string \<Rightarrow> string list \<Rightarrow> (string \<times> string \<times> string list) option" where
  "read_header header_end buf [] = None"
| "read_header header_end buf (c # cs) =
     (case header_end (buf @ c) of
        Some k \<Rightarrow> Some (take k (buf @ c), drop k (buf @ c), cs)
      | None \<Rightarrow> read_header header_end (buf @ c) cs)"

text \<open>\<open>httpProxy.Dial\<close>. \<open>dial\<close>, \<open>request\<close> and \<open>write_ok\<close> are the
  connection to the proxy, the making and the writing of the request; \<open>status\<close> is the status
  of a header. The connection of the result gives the chunks that have not been read.\<close>

definition httpProxy_Dial ::
  "httpProxy \<Rightarrow> (string \<Rightarrow> string option) \<Rightarrow> (string \<Rightarrow> string option) \<Rightarrow> string option
   \<Rightarrow> (string \<Rightarrow> nat option) \<Rightarrow> (string \<Rightarrow> string + nat) \<Rightarrow> string list \<Rightarrow> string
   \<Rightarrow> (string + string list) \<times> dial_event list" where
  "httpProxy_Dial hp dialErr requestErr writeErr header_end status chunks addr =
     (case dialErr (hp_host hp) of
        Some e \<Rightarrow> (Inl e, [DialProxy (hp_host hp)])
      | None \<Rightarrow>
          (case requestErr addr of
             Some e \<Rightarrow> (Inl e, [DialProxy (hp_host hp), CloseConn])
           | None \<Rightarrow>
               (let es = [DialProxy (hp_host hp), SendConnect addr (if hp_haveAuth hp then Some (hp_username hp, hp_password hp) else None)] in
                case writeErr of
                  Some e \<Rightarrow> (Inl e, es @ [CloseConn])
                | None \<Rightarrow>
                    (case read_header header_end [] chunks of
                       None \<Rightarrow> (Inl ''unexpected EOF'', es @ [CloseConn])
                     | Some (header, buffered, rest) \<Rightarrow>
                         (case status header of
                            Inl e \<Rightarrow> (Inl e, es @ [CloseConn])
                          | Inr code \<Rightarrow>
                              if code \<noteq> 200
                              then (Inl (''Connect server using proxy error, StatusCode ['' @ format_uint code @ '']''), es @ [CloseConn])
                              else (Inr rest, es))))))"

text \<open>\<open>NetPipe.Dial\<close>: the connection is given also when the command does not start.\<close>

definition NetPipe_Dial :: "(string list \<Rightarrow> string option) \<Rightarrow> string \<Rightarrow> string list \<times> string option" where
  "NetPipe_Dial start command = ([''sh'', ''-c'', command], start [''sh'', ''-c'', command])"

section \<open>Facts\<close>

text \<open>Without the message that a direction has ended, a remote end that waits for it keeps both
  connections open.\<close>

interpretation waiting: stepping "forwarder True" "\<lambda>s. \<not> fw_down s \<and> \<not> fw_told s \<and> \<not> fw_closed s"
  by unfold_locales (auto elim: forward_stepE)

lemma forward_waiting: "(forwarder True)\<^sup>*\<^sup>* forward_start s \<Longrightarrow> \<not> fw_down s \<and> \<not> fw_told s \<and> \<not> fw_closed s"
  using waiting.steps_inv [of forward_start s] by (simp add: forward_start_def)

lemma x11_forward_closes: "\<exists>s. (x11forwarder True)\<^sup>*\<^sup>* forward_start s \<and> fw_closed s"
proof -
  let ?a = "forward_start\<lparr>fw_up := True, fw_told := fw_told forward_start \<or> True\<rparr>"
  have 1: "x11forwarder True forward_start ?a" by (rule forward_step.up) (simp add: forward_start_def)
  have 2: "x11forwarder True ?a (?a\<lparr>fw_down := True\<rparr>)" by (rule forward_step.down) (simp_all add: forward_start_def)
  have 3: "x11forwarder True (?a\<lparr>fw_down := True\<rparr>) ((?a\<lparr>fw_down := True\<rparr>)\<lparr>fw_closed := True, fw_told := True\<rparr>)"
    by (rule forward_step.close) (simp_all add: forward_start_def)
  from 1 2 3 have "(x11forwarder True)\<^sup>*\<^sup>* forward_start ((?a\<lparr>fw_down := True\<rparr>)\<lparr>fw_closed := True, fw_told := True\<rparr>)"
    by (meson rtranclp.rtrancl_into_rtrancl rtranclp.rtrancl_refl)
  then show ?thesis by (intro exI conjI) (assumption, simp add: forward_start_def)
qed

section \<open>Properties\<close>


text \<open>The dialer through an http proxy loses what the server says first: bytes that arrive in the
  same read as the end of the proxy's answer stay in the buffer of the reader, and the connection goes
  on behind them.\<close>

theorem banner_lost:
  assumes "dialErr (hp_host hp) = None" and "requestErr addr = None"
    and "header_end (header @ banner) = Some (length header)" and "status header = Inr 200"
  shows "fst (httpProxy_Dial hp dialErr requestErr None header_end status ((header @ banner) # rest) addr) = Inr rest"
  using assms by (simp add: httpProxy_Dial_def Let_def)

lemma banner_lost_witness:
  "fst (httpProxy_Dial (newHttpProxy ''p'' None) (\<lambda>_. None) (\<lambda>_. None) None
     (\<lambda>s. if prefix ''200;'' s then Some 4 else None) (\<lambda>_. Inr 200) [''200;'' @ ''SSH-2.0'', ''more''] ''h'') = Inr [''more'']"
  by (rule banner_lost) simp_all

text \<open>The connection to the proxy is closed on every error after it was made, and only then.\<close>

theorem http_dial_closes:
  "(CloseConn \<in> set (snd (httpProxy_Dial hp dialErr requestErr writeErr header_end status chunks addr))) =
     (dialErr (hp_host hp) = None
      \<and> (\<exists>e. fst (httpProxy_Dial hp dialErr requestErr writeErr header_end status chunks addr) = Inl e))"
  by (auto simp: httpProxy_Dial_def Let_def split: option.splits sum.splits)

text \<open>A value of the environment ends at its second equals sign.\<close>

theorem env_value_cut:
  assumes "CHR ''='' \<notin> set k" and "CHR ''='' \<notin> set v"
  shows "envMap upper [k @ ''='' @ v @ ''='' @ rest] env = Done (env(upper k \<mapsto> v))"
  using assms by (simp add: split_on_append go_index_def)

lemma env_value_cut_witness:
  "envMap id [''PROXY'' @ ''='' @ ''http://p?a'' @ ''='' @ ''b''] Map.empty = Done [''PROXY'' \<mapsto> ''http://p?a'']"
  by (subst env_value_cut) simp_all

end
