(* ===== verification/Ssh_Dial.thy ===== *)
theory Ssh_Dial
  imports Ssh_Auth
begin

text \<open>
  The way to a server, end to end (src/ssh/connect.go): the route over the proxies, the dialers made
  along it, and the authentication methods each of them uses. The dialers are traces here: a dialer is the
  list of the calls it was made by, from the first to the last.
\<close>

section \<open>Dialers as traces\<close>

datatype 'm dial_call = ProxyCall string proxy_config | CommandCall string | SshCall server_config "'m list"

definition trace_of :: "'m dial_call list option \<Rightarrow> 'm dial_call list" where
  "trace_of d = (case d of Some t \<Rightarrow> t | None \<Rightarrow> [])"

definition trace_proxy :: "string \<Rightarrow> proxy_config \<Rightarrow> 'm dial_call list option \<Rightarrow> string + 'm dial_call list" where
  "trace_proxy t c d = Inr (trace_of d @ [ProxyCall t c])"

definition trace_command :: "string \<Rightarrow> string + 'm dial_call list" where
  "trace_command cmd = Inr [CommandCall cmd]"

definition trace_ssh :: "server_config \<Rightarrow> 'm list \<Rightarrow> 'm dial_call list option \<Rightarrow> string + 'm dial_call list" where
  "trace_ssh c ms d = Inr (trace_of d @ [SshCall c ms])"

text \<open>The call a hop of the route asks for, with the methods registered under its own name.\<close>

definition hop_call :: "servers \<Rightarrow> proxies \<Rightarrow> (string \<rightharpoonup> 'm list) \<Rightarrow> hop \<Rightarrow> 'm dial_call" where
  "hop_call sv px ms h =
     (if is_proxy_type (hop_Type h) then ProxyCall (hop_Type h) (proxy_at px (hop_Name h))
      else if hop_Type h = ''command'' then CommandCall (hop_Name h)
      else SshCall (server_at sv (hop_Name h)) (methods_of ms (hop_Name h)))"

lemma trace_simps [simp]:
  "trace_proxy t pc (Some d) = Inr (d @ [ProxyCall t pc])"
  "trace_ssh c ms (Some d) = Inr (d @ [SshCall c ms])"
  by (simp_all add: trace_proxy_def trace_ssh_def trace_of_def)

text \<open>The hops \<open>findServer\<close> is asked for are configured.\<close>

definition known_hop :: "servers \<Rightarrow> hop \<Rightarrow> bool" where
  "known_hop sv h \<longleftrightarrow> is_proxy_type (hop_Type h) \<or> hop_Type h = ''command'' \<or> sv (hop_Name h) \<noteq> None"

section \<open>Facts\<close>

text \<open>A command ends the chain of proxies, so it is the first to dial: what it does not use is nothing.\<close>

lemma command_ends_chain: "chain sv px n t (h # hs) \<Longrightarrow> hop_Type h = ''command'' \<Longrightarrow> hs = []"
  by (cases hs)
    (auto simp: next_hop_def proxy_of_def is_proxy_type_def split: option.splits if_splits prod.splits)

lemma command_last: "chain sv px n t hs \<Longrightarrow> list_all (\<lambda>h. hop_Type h \<noteq> ''command'') (butlast hs)"
proof (induction hs arbitrary: n t)
  case (Cons h hs)
  show ?case
  proof (cases "hs = []")
    case False
    then have "hop_Type h \<noteq> ''command''" using command_ends_chain [OF Cons.prems] by blast
    moreover from Cons.prems obtain raw where "chain sv px (hop_Name h) raw hs" by auto
    from Cons.IH [OF this] have "list_all (\<lambda>h. hop_Type h \<noteq> ''command'') (butlast hs)" .
    ultimately show ?thesis using False by simp
  qed simp
qed simp

text \<open>Behind its first hop a route has no command, and the calls of the hops are made one after the other.\<close>

lemma dial_loop_trace:
  assumes "list_all (\<lambda>h. hop_Type h \<noteq> ''command'') hs"
  shows "dial_loop trace_proxy trace_command (\<lambda>sc name d. trace_ssh sc (methods_of ms name) d) sv px hs (Some d) None
    = (if list_all (known_hop sv) hs then Done (Inr (Some (d @ map (hop_call sv px ms) hs), None)) else Exit 1)"
  using assms
proof (induction hs arbitrary: d)
  case (Cons h hs)
  then have rest: "\<And>d. dial_loop trace_proxy trace_command (\<lambda>sc name d. trace_ssh sc (methods_of ms name) d) sv px hs (Some d) None
      = (if list_all (known_hop sv) hs then Done (Inr (Some (d @ map (hop_call sv px ms) hs), None)) else Exit 1)"
    and ty: "hop_Type h \<noteq> ''command''"
    by simp_all
  show ?case
  proof (cases "is_proxy_type (hop_Type h)")
    case True
    then show ?thesis by (simp add: rest known_hop_def [of sv h] hop_call_def [of sv px ms h])
  next
    case False
    with ty show ?thesis
      by (cases "sv (hop_Name h)") (simp_all add: rest known_hop_def [of sv h] hop_call_def [of sv px ms h])
  qed
qed simp

lemma dial_route_trace:
  assumes "list_all (\<lambda>h. hop_Type h \<noteq> ''command'') (tl route)"
  shows "dial_loop trace_proxy trace_command (\<lambda>sc name d. trace_ssh sc (methods_of ms name) d) sv px route (Some []) None
    = (if list_all (known_hop sv) route then Done (Inr (Some (map (hop_call sv px ms) route), None)) else Exit 1)"
proof (cases "route \<noteq> [] \<and> hop_Type (hd route) = ''command''")
  case True
  then obtain h hs where "route = h # hs" "hop_Type h = ''command''" by (cases route) auto
  with assms show ?thesis
    by (simp add: dial_loop_trace trace_command_def [of "hop_Name h"] is_proxy_type_def hop_call_def [of sv px ms h] known_hop_def [of sv h])
next
  case False
  with assms have "list_all (\<lambda>h. hop_Type h \<noteq> ''command'') route" by (cases route) auto
  then show ?thesis by (simp add: dial_loop_trace)
qed

section \<open>Properties\<close>


text \<open>A server behind a jump host that is reached through a command: the command, the jump host, the server.\<close>

definition demo_jumps :: servers where
  "demo_jumps = [''jump'' \<mapsto> zero_server\<lparr>sc_Addr := ''10.0.0.1'', sc_Port := ''22'', sc_User := ''me'',
       sc_ProxyCommand := ''nc %h %p''\<rparr>,
     ''web'' \<mapsto> zero_server\<lparr>sc_Addr := ''10.1.1.1'', sc_Proxy := ''jump'', sc_ID := ''web''\<rparr>]"


end
