(* ===== verification/Ssh_Cmd.thy ===== *)
theory Ssh_Cmd
  imports Ssh_Shell Sshlib_Conn
begin

text \<open>
  The whole of command mode (src/ssh/cmd.go): the headers, the writers of the input, the runs of the
  command on the connections and the wait for them, as the sequence of what \<open>cmd\<close> does. The map of
  connections is ranged over in the order \<open>keys\<close>; \<open>session\<close> is whether a connection was given a
  session. Also the log of a session (src/sshlib/shell.go) on the writers it is put behind.
\<close>

section \<open>Input and writers\<close>

text \<open>Who sends the input to all hosts of a parallel run: a goroutine that copies the pipe or one that
  reads the keyboard.\<close>

datatype input_feed = FeedPipe | FeedKeys | NoFeed

definition cmd_feed :: "run_opts \<Rightarrow> bool \<Rightarrow> input_feed" where
  "cmd_feed r isStdinPipe =
     (if ro_IsParallel r \<and> length (ro_ServerList r) > 1 then (if isStdinPipe then FeedPipe else FeedKeys) else NoFeed)"

text \<open>\<open>createWriter\<close>: the error of the session is dropped; a parallel run of several hosts asks the
  session for its input, a nil session panics. With one server the forwards are started.\<close>

fun createWriter :: "servers \<Rightarrow> run_opts \<Rightarrow> (string \<Rightarrow> bool) \<Rightarrow> string list \<Rightarrow> (net_action list \<times> string list) outcome" where
  "createWriter sv r session [] = Done ([], [])"
| "createWriter sv r session (s # ss) =
     obind (if length (ro_ServerList r) = 1 then Done (snd (createWriter_conf sv r s), [])
            else if ro_IsParallel r then (if session s then Done ([], [s]) else Panic)
            else Done ([], []))
       (\<lambda>(acts, ws). obind (createWriter sv r session ss) (\<lambda>(acts', ws'). Done (acts @ acts', ws @ ws')))"

section \<open>The run\<close>

datatype cmd_event =
    SelectHeader | RunHeader string | ProxyHeader string | Forward net_action
  | Feed input_feed "string list" | OnConn string run_event | AwaitFinished | CloseExitInput

text \<open>The runs: sending data asks the session of the connection for its input.\<close>

fun run_all :: "run_opts \<Rightarrow> (string \<Rightarrow> bool) \<Rightarrow> string \<Rightarrow> string list \<Rightarrow> cmd_event list outcome" where
  "run_all r session stdinData [] = Done []"
| "run_all r session stdinData (s # ss) =
     (if \<not> ro_IsParallel r \<and> stdinData \<noteq> [] \<and> \<not> session s then Panic
      else obind (run_all r session stdinData ss) (\<lambda>es.
        Done (map (OnConn s) (runCommand r (cmd_line r) stdinData) @ es)))"

definition cmd :: "servers \<Rightarrow> run_opts \<Rightarrow> bool \<Rightarrow> string \<Rightarrow> (string \<Rightarrow> bool) \<Rightarrow> string list \<Rightarrow> cmd_event list outcome" where
  "cmd sv r isStdinPipe stdin session keys =
     obind (createWriter sv r session keys) (\<lambda>(acts, writers).
       obind (run_all r session (cmd_stdin r isStdinPipe stdin) keys) (\<lambda>runs. Done (
         SelectHeader # RunHeader (printRunCommand r)
         # (if length (ro_ServerList r) = 1 then [ProxyHeader (hd (ro_ServerList r))] else [])
         @ map Forward acts @ [Feed (cmd_feed r isStdinPipe) writers] @ runs
         @ replicate (length keys) AwaitFinished @ [CloseExitInput])))"

section \<open>The log of a session\<close>

text \<open>\<open>logger\<close>: the log file is put behind both streams; without it they stay as they are.\<close>

definition logger :: "string option \<Rightarrow> 'w \<Rightarrow> 'w + 'w list \<Rightarrow> 'w + 'w list \<Rightarrow> ('w + 'w list) \<times> ('w + 'w list) \<times> string option" where
  "logger openErr l out err =
     (case openErr of
        Some e \<Rightarrow> (out, err, Some e)
      | None \<Rightarrow> (Inr (withLogWriters [out, Inl l]), Inr (withLogWriters [err, Inl l]), None))"

section \<open>Facts\<close>

text \<open>What a session writes reaches every writer it wrote to before, and the log behind them.\<close>

lemma logger_appends:
  "logger None l out err =
     (Inr (withLogWriters [out] @ [l]), Inr (withLogWriters [err] @ [l]), None)"
  by (simp add: logger_def withLogWriters_def)

lemma createWriter_result:
  "(createWriter sv r session ss = Panic \<and> length (ro_ServerList r) \<noteq> 1 \<and> ro_IsParallel r \<and> (\<exists>s \<in> set ss. \<not> session s))
   \<or> (\<exists>x. createWriter sv r session ss = Done x)"
  by (induction ss) (fastforce split: if_splits)+

lemma run_all_eq:
  "run_all r session d ss =
     (if \<not> ro_IsParallel r \<and> d \<noteq> [] \<and> (\<exists>s \<in> set ss. \<not> session s) then Panic
      else Done (concat (map (\<lambda>s. map (OnConn s) (runCommand r (cmd_line r) d)) ss)))"
  by (induction ss) auto

text \<open>Each connection runs the command once and signals its end once.\<close>

fun finishes :: "cmd_event \<Rightarrow> bool" where
  "finishes (OnConn s (SpawnCommand c)) = True"
| "finishes (OnConn s SignalFinished) = True"
| "finishes e = False"

fun runs_at :: "cmd_event \<Rightarrow> (string \<times> string) option" where
  "runs_at (OnConn s (SpawnCommand c)) = Some (s, c)"
| "runs_at (OnConn s (RunCommand c)) = Some (s, c)"
| "runs_at e = None"

lemma runs_counted:
  "length (filter finishes (concat (map (\<lambda>s. map (OnConn s) (runCommand r c d)) ss))) = length ss"
  "List.map_filter runs_at (concat (map (\<lambda>s. map (OnConn s) (runCommand r c d)) ss)) = map (\<lambda>s. (s, c)) ss"
  by (induction ss) (auto simp: runCommand_def map_filter_def)

lemma not_run [simp]:
  "filter finishes (map Forward acts) = []" "filter (\<lambda>x. \<exists>a b. runs_at x = Some (a, b)) (map Forward acts) = []"
  "filter (\<lambda>e. e = AwaitFinished) (map Forward acts) = []"
  "filter finishes (replicate n AwaitFinished) = []"
  "filter (\<lambda>x. \<exists>a b. runs_at x = Some (a, b)) (replicate n AwaitFinished) = []"
  "filter (\<lambda>e. e = AwaitFinished) (concat (map (\<lambda>s. map (OnConn s) (rs s)) ss)) = []"
  by (induction acts, auto simp: filter_empty_conv)

section \<open>Properties\<close>


text \<open>A parallel run on two hosts, of which one refused the session.\<close>

definition demo_parallel :: run_opts where
  "demo_parallel = demo_opts\<lparr>ro_ServerList := [''web'', ''db''], ro_IsParallel := True, ro_ExecCmd := [''date'']\<rparr>"


end
