(* ===== verification/Ssh_HostInfo.thy ===== *)
theory Ssh_HostInfo
  imports Ssh_Shell
begin

text \<open>
  The information about the hosts: \<open>ReadConf\<close> (src/conf/conf.go) reads it from a file beside the
  configuration, the sessions of \<open>shell\<close> (src/ssh/shell.go) and the local command \<open>.hostinfo\<close>
  (src/sshlib/interrupt.go) update it, and every update writes the whole file. Several programs that run at
  the same time share the file. \<open>encode\<close> and \<open>decode\<close> are those of encoding/json; \<open>encode\<close> is \<open>None\<close>
  when it gives no data.
\<close>

section \<open>State\<close>

record host_info =
  hi_Info :: string
  hi_Update :: string

type_synonym host_infos = "string \<rightharpoonup> host_info"

definition host_info_at :: "host_infos \<Rightarrow> string \<Rightarrow> host_info" where
  "host_info_at m server = (case m server of Some h \<Rightarrow> h | None \<Rightarrow> \<lparr>hi_Info = [], hi_Update = []\<rparr>)"

section \<open>Reading and updating\<close>

text \<open>The name of the file, and the map and the name that \<open>ReadConf\<close> leaves in the configuration: none
  when the information is switched off.\<close>

definition host_info_file :: "(string \<Rightarrow> string) \<Rightarrow> string \<Rightarrow> string" where
  "host_info_file expandHome confPath = expandHome (trim_suffix confPath ''.toml'' @ ''.json'')"

definition read_host_info ::
  "('f \<Rightarrow> host_infos) \<Rightarrow> bool \<Rightarrow> string \<Rightarrow> (string \<rightharpoonup> 'f) \<Rightarrow> host_infos \<times> string" where
  "read_host_info decode enabled path disk =
     (if enabled then (case disk path of None \<Rightarrow> Map.empty | Some f \<Rightarrow> decode f, path) else (Map.empty, []))"

text \<open>The function \<open>shell\<close> hands to the session: it compares with the entry of the start of the session.
  A file that cannot be written is left as it is.\<close>

definition update_host_info ::
  "(host_infos \<Rightarrow> 'f option) \<Rightarrow> (string \<Rightarrow> bool) \<Rightarrow> string \<Rightarrow> string \<Rightarrow> host_info \<Rightarrow> string \<times> string
   \<Rightarrow> host_infos \<times> (string \<rightharpoonup> 'f) \<Rightarrow> host_infos \<times> (string \<rightharpoonup> 'f)" where
  "update_host_info encode writable path server existing response st =
     (case response of (info, now) \<Rightarrow> case st of (mem, disk) \<Rightarrow>
        if hi_Info existing = info then st
        else let mem' = mem(server \<mapsto> \<lparr>hi_Info = info, hi_Update = now\<rparr>)
             in (mem', case encode mem' of
                         Some f \<Rightarrow> if writable path then disk(path \<mapsto> f) else disk
                       | None \<Rightarrow> disk))"

text \<open>Whether a session asks for the information by itself, and the responses it passes on: of its own
  question only one that is not empty, of \<open>.hostinfo\<close> every one.\<close>

definition auto_host_info :: "bool \<Rightarrow> host_infos \<Rightarrow> string \<Rightarrow> bool" where
  "auto_host_info enabled mem server \<longleftrightarrow> enabled \<and> hi_Info (host_info_at mem server) = []"

definition session_responses :: "bool \<Rightarrow> string \<times> string \<Rightarrow> (string \<times> string) list \<Rightarrow> (string \<times> string) list" where
  "session_responses auto first asked = (if auto \<and> fst first \<noteq> [] then [first] else []) @ asked"

definition host_info_session ::
  "(host_infos \<Rightarrow> 'f option) \<Rightarrow> (string \<Rightarrow> bool) \<Rightarrow> string \<Rightarrow> string \<Rightarrow> (string \<times> string) list
   \<Rightarrow> host_infos \<times> (string \<rightharpoonup> 'f) \<Rightarrow> host_infos \<times> (string \<rightharpoonup> 'f)" where
  "host_info_session encode writable path server responses st =
     fold (update_host_info encode writable path server (host_info_at (fst st) server)) responses st"

section \<open>Programs beside each other\<close>

text \<open>Each program has the map it read at its start and the entry of its server then; the file is
  shared.\<close>

record hi_prog =
  hp_server :: string
  hp_existing :: host_info
  hp_mem :: host_infos

datatype hi_event = StartProg string | GotInfo nat "string \<times> string"

definition hi_step ::
  "(host_infos \<Rightarrow> 'f option) \<Rightarrow> ('f \<Rightarrow> host_infos) \<Rightarrow> (string \<Rightarrow> bool) \<Rightarrow> string \<Rightarrow> hi_event
   \<Rightarrow> hi_prog list \<times> (string \<rightharpoonup> 'f) \<Rightarrow> hi_prog list \<times> (string \<rightharpoonup> 'f)" where
  "hi_step encode decode writable path e st =
     (case st of (progs, disk) \<Rightarrow> case e of
        StartProg server \<Rightarrow>
          (let mem = fst (read_host_info decode True path disk)
           in (progs @ [\<lparr>hp_server = server, hp_existing = host_info_at mem server, hp_mem = mem\<rparr>], disk))
      | GotInfo i response \<Rightarrow>
          if i < length progs
          then let p = progs ! i;
                   (mem, disk') = update_host_info encode writable path (hp_server p) (hp_existing p) response (hp_mem p, disk)
               in (progs[i := p\<lparr>hp_mem := mem\<rparr>], disk')
          else st)"

section \<open>Facts\<close>

lemma update_same: "hi_Info existing = fst response \<Longrightarrow> update_host_info encode writable path server existing response st = st"
  by (cases response; cases st) (simp add: update_host_info_def)

lemma update_new:
  assumes "hi_Info existing \<noteq> fst response" and "\<forall>m. encode m = Some (enc m)" and "writable path"
  shows "update_host_info encode writable path server existing response (mem, disk) =
    (let m = mem(server \<mapsto> \<lparr>hi_Info = fst response, hi_Update = snd response\<rparr>) in (m, disk(path \<mapsto> enc m)))"
  using assms by (cases response) (simp add: update_host_info_def Let_def)

text \<open>The responses that count are those that differ from the entry of the start; the last of them stays.\<close>

lemma fold_updates:
  assumes "\<forall>m. encode m = Some (enc m)" and "writable path" and "disk path = Some (enc mem)"
  shows "fold (update_host_info encode writable path server existing) responses (mem, disk) =
    (let news = filter (\<lambda>r. fst r \<noteq> hi_Info existing) responses;
         m = (if news = [] then mem else mem(server \<mapsto> \<lparr>hi_Info = fst (last news), hi_Update = snd (last news)\<rparr>))
     in (m, disk(path \<mapsto> enc m)))"
  using assms(3)
proof (induction responses arbitrary: mem disk)
  case Nil
  then have "disk = disk(path \<mapsto> enc mem)" by auto
  then show ?case by (simp only: fold_simps filter.simps Let_def if_True simp_thms)
next
  case (Cons r rs)
  show ?case
  proof (cases "fst r = hi_Info existing")
    case True
    then show ?thesis using Cons by (simp add: update_same)
  next
    case False
    let ?m = "mem(server \<mapsto> \<lparr>hi_Info = fst r, hi_Update = snd r\<rparr>)"
    have "update_host_info encode writable path server existing r (mem, disk) = (?m, disk(path \<mapsto> enc ?m))"
      using update_new [of existing r encode enc writable path server mem disk] assms(1,2) False
      by (auto simp: Let_def)
    moreover have "(disk(path \<mapsto> enc ?m)) path = Some (enc ?m)" by simp
    note Cons.IH [of "disk(path \<mapsto> enc ?m)" ?m, OF this]
    moreover have "filter (\<lambda>r. fst r \<noteq> hi_Info existing) (r # rs) = r # filter (\<lambda>r. fst r \<noteq> hi_Info existing) rs"
      using False by simp
    ultimately show ?thesis
      by (simp only: fold_simps comp_apply) (simp add: Let_def del: fun_upd_apply)
  qed
qed

section \<open>Properties\<close>



text \<open>A map of hosts as its own encoding: one session whose host answers A, then B, then A again; and two
  programs on the hosts web and db.\<close>

definition demo_infos :: host_infos where
  "demo_infos = [''web'' \<mapsto> \<lparr>hi_Info = ''A'', hi_Update = ''1''\<rparr>]"



end
