(* ===== verification/Pshell_Run.thy ===== *)
theory Pshell_Run
  imports Pshell
begin

text \<open>
  The running of a pipeline in the parallel shell (src/ssh/pshell_cmd.go), the history of the results
  (pshell_history.go), the start of the shell (pshell.go), and what is left of its completion
  (pshell_complete.go). What a host or a local command writes is given as the chunks of its output.
\<close>

section \<open>Pipes\<close>

text \<open>The writing end of an \<open>io.Pipe\<close>: what its reader gets, and whether it is closed. A write to
  a closed end is an error. \<open>io.MultiWriter\<close> stops at the first error, and so does the copying
  of the output of a session.\<close>

record pipe_end =
  pe_text :: string
  pe_closed :: bool

definition pipe_write :: "pipe_end \<Rightarrow> string \<Rightarrow> pipe_end option" where
  "pipe_write p s = (if pe_closed p then None else Some (p\<lparr>pe_text := pe_text p @ s\<rparr>))"

fun multi_write :: "pipe_end list \<Rightarrow> string \<Rightarrow> pipe_end list \<times> bool" where
  "multi_write [] s = ([], True)"
| "multi_write (p # ps) s =
     (case pipe_write p s of
        None \<Rightarrow> (p # ps, False)
      | Some p' \<Rightarrow> (case multi_write ps s of (ps', ok) \<Rightarrow> (p' # ps', ok)))"

fun copy_output :: "pipe_end list \<Rightarrow> string list \<Rightarrow> pipe_end list" where
  "copy_output ps [] = ps"
| "copy_output ps (c # cs) =
     (case multi_write ps c of (ps', ok) \<Rightarrow> if ok then copy_output ps' cs else ps')"

definition open_end :: pipe_end where
  "open_end = \<lparr>pe_text = [], pe_closed = False\<rparr>"

definition close_end :: "pipe_end \<Rightarrow> pipe_end" where
  "close_end p = p\<lparr>pe_closed := True\<rparr>"

section \<open>Remote commands (pshell_cmd.go)\<close>

text \<open>Where the output of a command goes: the screen and the history, or the next pipe. On the screen
  the two writers are closed as soon as they are joined.\<close>

definition host_writers :: "bool \<Rightarrow> pipe_end list" where
  "host_writers toPipe = (if toPipe then [open_end] else map close_end [open_end, open_end])"

datatype input_mode = PushKeyboard | PushFromPipe | NoInput

definition input_mode_of :: "bool \<Rightarrow> bool \<Rightarrow> input_mode" where
  "input_mode_of fromPipe toPipe =
     (if fromPipe then PushFromPipe else if toPipe then NoInput else PushKeyboard)"

record remote_run =
  rr_command :: string
  rr_tty :: bool
  rr_input :: input_mode
  rr_hosts :: "(string \<times> pipe_end list) list"

text \<open>\<open>executeRemotePipeLine\<close>: a connection is a host with the chunks of its output, or without a
  session (\<open>None\<close>), whose nil session is run. Of the hosts that write to the same pipe, each
  has its own part of it here.\<close>

definition executeRemotePipeLine :: "bool \<Rightarrow> bool \<Rightarrow> pipe_line \<Rightarrow> (string \<times> string list option) list \<Rightarrow> remote_run outcome" where
  "executeRemotePipeLine fromPipe toPipe pline conns =
     (if \<exists>c \<in> set conns. snd c = None then Panic
      else Done \<lparr>rr_command = str_join (pl_Args pline) '' '', rr_tty = (\<not> fromPipe \<and> \<not> toPipe),
                 rr_input = input_mode_of fromPipe toPipe,
                 rr_hosts = map (\<lambda>(name, chunks). (name, copy_output (host_writers toPipe) (the chunks))) conns\<rparr>)"

text \<open>What the next part of the pipeline reads when several hosts write to its pipe: the chunks in the
  order the hosts get the lock of the pipe, here a schedule of the numbers of the hosts.\<close>

fun merge_chunks :: "nat list \<Rightarrow> 'a list list \<Rightarrow> (nat \<times> 'a) list" where
  "merge_chunks [] hs = []"
| "merge_chunks (i # is) hs =
     (if i < length hs
      then (case hs ! i of
              [] \<Rightarrow> merge_chunks is hs
            | c # cs \<Rightarrow> (i, c) # merge_chunks is (hs[i := cs]))
      else merge_chunks is hs)"

definition piped_text :: "nat list \<Rightarrow> string list list \<Rightarrow> string" where
  "piped_text sched outs = concat (map snd (merge_chunks sched outs))"

section \<open>Local commands (pshell_cmd.go)\<close>

record local_run =
  lr_command :: "string list"
  lr_shown :: string
  lr_piped :: string
  lr_history :: "string option"

text \<open>\<open>executeLocalPipeLine\<close>: the writer of the history is closed at the end, and takes part unless
  the option leaves the result out.\<close>

definition executeLocalPipeLine :: "bool \<Rightarrow> bool \<Rightarrow> pipe_line \<Rightarrow> string list \<Rightarrow> local_run outcome" where
  "executeLocalPipeLine toPipe notRecord pline chunks =
     obind (go_index (pl_Args pline) 0) (\<lambda>c. Done
       \<lparr>lr_command = [''sh'', ''-c'', str_join (strip_bang c # tl (pl_Args pline)) '' ''],
        lr_shown = (if toPipe then [] else concat chunks),
        lr_piped = (if toPipe then concat chunks else []),
        lr_history = (if toPipe then None else Some (if notRecord then [] else concat chunks))\<rparr>)"

section \<open>The history of results (pshell_history.go)\<close>

text \<open>\<open>pShellHistoryPrint\<close>: the lines of what was written; \<open>NewHistoryWriter\<close> with the command
  that was entered last.\<close>

definition pShellHistoryPrint :: "nat \<Rightarrow> string \<Rightarrow> string" where
  "pShellHistoryPrint limit written = concat (map (\<lambda>l. l @ [newline]) (scan_tokens limit written))"

definition NewHistoryWriter :: "nat \<Rightarrow> string \<Rightarrow> out_conf option \<Rightarrow> string \<Rightarrow> history_result" where
  "NewHistoryWriter limit latestCommand ot written =
     \<lparr>hr_Command = latestCommand, hr_Result = pShellHistoryPrint limit written, hr_Output = ot\<rparr>"

text \<open>The entries a remote command on the screen leaves, by their servers.\<close>

definition remote_history :: "nat \<Rightarrow> string \<Rightarrow> (string \<Rightarrow> out_conf) \<Rightarrow> remote_run \<Rightarrow> (string \<times> history_result) list" where
  "remote_history limit latestCommand outputs r =
     map (\<lambda>(name, ws). (name, NewHistoryWriter limit latestCommand (Some (outputs name)) (pe_text (last ws)))) (rr_hosts r)"

definition pad3 :: "nat \<Rightarrow> string" where
  "pad3 n = replicate (3 - length (format_uint n)) CHR '' '' @ format_uint n"

text \<open>\<open>buildinOutlist\<close>: one entry of each run, the first one in the order of the map.\<close>

definition buildinOutlist :: "(string \<times> history_result) list list \<Rightarrow> string list" where
  "buildinOutlist runs =
     concat (map (\<lambda>(i, h). case h of [] \<Rightarrow> [] | (k, hh) # _ \<Rightarrow> [pad3 i @ '' : '' @ hr_Command hh @ [newline]])
       (zip [0..<length runs] runs))"

text \<open>\<open>buildinSuggests\<close>: the numbers of the runs with the last command of each.\<close>

definition buildinSuggests :: "string \<Rightarrow> (string \<times> history_result) list list \<Rightarrow> (string \<times> string) list" where
  "buildinSuggests c runs =
     (if c = ''%out''
      then map (\<lambda>(i, h). (format_uint i, if h = [] then [] else hr_Command (snd (last h)))) (zip [0..<length runs] runs)
      else [])"

section \<open>Completion of paths (pshell_complete.go)\<close>

definition localSuggest :: "nat \<Rightarrow> string \<Rightarrow> (string \<times> string) list" where
  "localSuggest limit sgt = map (\<lambda>l. (path_base l, ''local path.'')) (scan_tokens limit sgt)"

text \<open>\<open>answers\<close> and \<open>sgt\<close> are the outputs of the command on the hosts and here.\<close>

definition GetPathComplete ::
  "nat \<Rightarrow> bool \<Rightarrow> (string \<Rightarrow> (string \<times> string) list) \<Rightarrow> (string \<Rightarrow> string) \<Rightarrow> string \<Rightarrow> (string \<times> string) list" where
  "GetPathComplete limit remote answers sgt word =
     sort_key fst (if remote then remoteSuggest (map (\<lambda>(n, t). (n, scan_tokens limit t)) (answers (path_command word)))
                   else localSuggest limit (sgt (path_command word)))"

section \<open>The start of the shell (pshell.go)\<close>

record shell_config =
  sh_Prompt :: string
  sh_OPrompt :: string
  sh_HistoryFile :: string
  sh_PreCmd :: string
  sh_PostCmd :: string

definition or_default :: "string \<Rightarrow> string \<Rightarrow> string" where
  "or_default s d = (if s = [] then d else s)"

definition shell_defaults :: "shell_config \<Rightarrow> shell_config" where
  "shell_defaults c = c\<lparr>sh_Prompt := or_default (sh_Prompt c) ''[${COUNT}] <<< '',
     sh_OPrompt := or_default (sh_OPrompt c) ''[${SERVER}][${COUNT}] > '',
     sh_HistoryFile := or_default (sh_HistoryFile c) (''~'' @ slash # ''.lssh_history'')\<rparr>"

datatype ps_event = PsLocal string | PsConnect string | PsReadHistory string | PsReadNames | PsPrompt "string list"

text \<open>\<open>pshell\<close>: the commands of the configuration run around everything else, also around a panic;
  \<open>history\<close> is the content of a history file, if it can be read.\<close>

definition pshell ::
  "shell_config \<Rightarrow> nat \<Rightarrow> (string \<Rightarrow> 'c option) \<Rightarrow> ('c \<Rightarrow> string list) \<Rightarrow> (string \<Rightarrow> string option) \<Rightarrow> string list
   \<Rightarrow> ps_event list \<times> unit outcome" where
  "pshell config0 limit connect compgen history servers =
     (let config = shell_defaults config0;
          cons = createPsConnects connect servers;
          commands = (case history (sh_HistoryFile config) of
                        None \<Rightarrow> [] | Some content \<Rightarrow> map snd (GetHistoryFromFile limit content));
          start = PsLocal (sh_PreCmd config) # map PsConnect servers in
      if cons = [] then (start @ [PsLocal (sh_PostCmd config)], Done ())
      else case command_names compgen cons of
             Done names \<Rightarrow> (start @ [PsReadHistory (sh_HistoryFile config), PsReadNames, PsPrompt commands, PsLocal (sh_PostCmd config)], Done ())
           | _ \<Rightarrow> (start @ [PsReadHistory (sh_HistoryFile config), PsReadNames, PsLocal (sh_PostCmd config)], Panic))"

text \<open>\<open>setInput\<close> and \<open>setOutput\<close>: a nil pointer behind the interface stands for the stream of
  the process; a nil interface has no value to ask and panics. \<open>wait\<close> takes one message per
  command from its channel.\<close>

datatype 'a iface = NilInterface | NilPointer | Pointer 'a

definition set_io :: "'a \<Rightarrow> 'a iface \<Rightarrow> 'a outcome" where
  "set_io std x = (case x of NilInterface \<Rightarrow> Panic | NilPointer \<Rightarrow> Done std | Pointer p \<Rightarrow> Done p)"

fun wait_num :: "nat \<Rightarrow> 'm list \<Rightarrow> 'm list option" where
  "wait_num 0 ms = Some ms"
| "wait_num (Suc n) [] = None"
| "wait_num (Suc n) (m # ms) = wait_num n ms"

lemma wait_num_iff: "wait_num n ms = (if n \<le> length ms then Some (drop n ms) else None)"
  by (induction n ms rule: wait_num.induct) simp_all

section \<open>Facts\<close>

lemma copy_open: "copy_output [open_end\<lparr>pe_text := t\<rparr>] cs = [open_end\<lparr>pe_text := t @ concat cs\<rparr>]"
  by (induction cs arbitrary: t) (simp_all add: pipe_write_def open_end_def)

lemma copy_one: "copy_output [open_end] cs = [open_end\<lparr>pe_text := concat cs\<rparr>]"
  using copy_open [of "[]" cs] by (simp add: open_end_def)

lemma copy_closed: "pe_closed p \<Longrightarrow> copy_output (p # ps) cs = p # ps"
  by (cases cs) (simp_all add: pipe_write_def)

lemma host_text:
  "map pe_text (copy_output (host_writers toPipe) cs) = (if toPipe then [concat cs] else [[], []])"
  by (auto simp: host_writers_def copy_one copy_closed close_end_def) (simp_all add: open_end_def)

lemma no_connections: "createPsConnects connect servers = [] \<longleftrightarrow> servers = []"
  by (simp add: createPsConnects_def)

lemma scan_nothing: "scan_tokens limit [] = []"
  by (simp add: scan_tokens.simps [of limit "[]"])

text \<open>The chunks of a host keep their order in the pipe of several hosts.\<close>

lemma merge_keeps_order:
  "i < length hs \<Longrightarrow> prefix (map snd (filter (\<lambda>x. fst x = i) (merge_chunks sched hs))) (hs ! i)"
proof (induction sched hs rule: merge_chunks.induct)
  case (2 j sched hs)
  show ?case
  proof (cases "j < length hs")
    case True
    then show ?thesis using 2 by (cases "hs ! j"; cases "i = j") auto
  qed (use 2 in simp)
qed simp

lemma merge_chunks_map: "merge_chunks sched (map (map f) hs) = map (\<lambda>(i, c). (i, f c)) (merge_chunks sched hs)"
proof (induction sched hs rule: merge_chunks.induct)
  case (2 j sched hs)
  then show ?case by (cases "hs ! j") (simp_all add: map_update [symmetric] split: if_splits)
qed simp

text \<open>Hosts that write whole lines have them taken apart nowhere; a chunk that ends within a line runs
  into the next one of another host.\<close>

definition line_chunk :: "string list \<Rightarrow> string" where
  "line_chunk ls = concat (map (\<lambda>l. l @ [newline]) ls)"

lemma line_chunk_concat: "concat (map line_chunk lss) = line_chunk (concat lss)"
  by (induction lss) (simp_all add: line_chunk_def)

lemma whole_lines_kept:
  assumes "\<forall>(i, ls) \<in> set (merge_chunks sched hs). \<forall>l \<in> set ls. newline \<notin> set l \<and> \<not> suffix [CHR 0x0D] l"
  shows "scan_lines (piped_text sched (map (map line_chunk) hs)) = concat (map snd (merge_chunks sched hs))"
proof -
  have "piped_text sched (map (map line_chunk) hs) = line_chunk (concat (map snd (merge_chunks sched hs)))"
    using line_chunk_concat [of "map snd (merge_chunks sched hs)"]
    by (simp add: piped_text_def merge_chunks_map comp_def case_prod_beta)
  then show ?thesis
    using assms unfolding line_chunk_def by (simp, intro scan_lines_concat) fastforce+
qed

lemma lines_run_together: "piped_text [0, 1, 0] [[''ab'', ''c'' @ [newline]], [''x'' @ [newline]]] = ''abx'' @ [newline] @ ''c'' @ [newline]"
  by (simp add: piped_text_def)

section \<open>Properties\<close>

text \<open>C21 The parallel shell shows nothing of what the hosts write: when the output of a command goes to
  the screen, its writers are closed before the command runs, every host's first write fails, and
  screen and history stay empty. Through a pipe everything arrives.\<close>

theorem remote_output_lost:
  assumes "executeRemotePipeLine fromPipe toPipe pline conns = Done r"
  shows "map (\<lambda>(name, ws). (name, map pe_text ws)) (rr_hosts r) =
      map (\<lambda>(name, chunks). (name, if toPipe then [concat (the chunks)] else [[], []])) conns
    \<and> (\<not> toPipe \<longrightarrow> map (\<lambda>(name, h). (name, hr_Result h)) (remote_history limit cmd outputs r) = map (\<lambda>(name, chunks). (name, [])) conns)"
proof -
  have r: "rr_hosts r = map (\<lambda>(name, chunks). (name, copy_output (host_writers toPipe) (the chunks))) conns"
    using assms by (auto simp: executeRemotePipeLine_def split: if_splits)
  have last: "pe_text (last (copy_output (host_writers False) cs)) = []" for cs
    by (simp add: host_writers_def copy_closed close_end_def open_end_def)
  show ?thesis
    by (auto simp: r host_text remote_history_def NewHistoryWriter_def pShellHistoryPrint_def last scan_nothing)
qed

lemma remote_output_lost_witness:
  "map (\<lambda>(name, ws). (name, map pe_text ws)) (rr_hosts \<lparr>rr_command = ''uptime'', rr_tty = True, rr_input = PushKeyboard,
       rr_hosts = [(''a'', copy_output (host_writers False) [''up 3 days''])]\<rparr>) = [(''a'', [[], []])]"
proof -
  have run: "executeRemotePipeLine False False \<lparr>pl_Args = [''uptime''], pl_Operator = []\<rparr> [(''a'', Some [''up 3 days''])]
    = Done \<lparr>rr_command = ''uptime'', rr_tty = True, rr_input = PushKeyboard,
       rr_hosts = [(''a'', copy_output (host_writers False) [''up 3 days''])]\<rparr>"
    by (simp add: executeRemotePipeLine_def input_mode_of_def del: copy_output.simps)
  show ?thesis using conjunct1 [OF remote_output_lost [OF run]] by (simp del: copy_output.simps)
qed

text \<open>The commands of the configuration bracket the parallel shell: the first and the last event of a
  start are the command before and the command after it, whatever happens in between, a panic
  included; it panics exactly when a host cannot be reached.\<close>

theorem pshell_brackets:
  "hd (fst (pshell config limit connect compgen history servers)) = PsLocal (sh_PreCmd config)
   \<and> last (fst (pshell config limit connect compgen history servers)) = PsLocal (sh_PostCmd config)
   \<and> (snd (pshell config limit connect compgen history servers) = Panic) = (\<exists>s \<in> set servers. connect s = None)"
  by (auto simp: pshell_def shell_defaults_def command_names_eq no_connections Let_def split: if_splits)

end
