(* ===== verification/Pshell_Kill.thy ===== *)
theory Pshell_Kill
  imports Pshell_Run Go_Machine
begin

text \<open>
  The interrupts of the parallel shell: \<open>parseExecutor\<close> (src/ssh/pshell_executor.go) with the
  goroutines it and the commands of pshell_cmd.go start, as a transition system. Every statement of a
  line has a channel its commands report their end on, a channel \<open>kill\<close> every local and remote command
  listens on, and a goroutine, here the killer, that waits for a signal or the channel \<open>killExit\<close>. The
  channels are closed by \<open>defer\<close>, so only when the whole line has run. All channels are unbuffered: a
  send and its receive are one step, and a signal nobody waits for is dropped.
\<close>

section \<open>State\<close>

datatype cmd_phase = Fresh | Runs | Ended

text \<open>The goroutine of a command that listens for a kill: what it got says whether the command still
  ran.\<close>

datatype listener = NoListener | Listens | GotKill bool | Released

record sig_cmd =
  sc_what :: started
  sc_phase :: cmd_phase
  sc_listener :: listener

datatype killer = KWait | KSend nat | KGone

record sig_line =
  sl_cmds :: "sig_cmd list"
  sl_killer :: killer
  sl_kill_open :: bool
  sl_exit_open :: bool

datatype sig_chan = ChanCh | ChanKill | ChanExit

datatype sig_main = WaitCh nat | Defers "(sig_chan \<times> nat) list"

datatype sig_over = Crashed | Exited

record sig_sys =
  ss_lines :: "sig_line list"
  ss_todo :: "started list list"
  ss_main :: sig_main
  ss_over :: "sig_over option"

fun killable :: "started \<Rightarrow> bool" where
  "killable (LocalCmd c) = True"
| "killable (RemoteCmd c) = True"
| "killable w = False"

definition new_cmd :: "started \<Rightarrow> sig_cmd" where
  "new_cmd w = \<lparr>sc_what = w, sc_phase = Fresh, sc_listener = NoListener\<rparr>"

definition new_line :: "started list \<Rightarrow> sig_line" where
  "new_line ws = \<lparr>sl_cmds = map new_cmd ws, sl_killer = KWait, sl_kill_open = True, sl_exit_open = True\<rparr>"

text \<open>The deferred calls run backwards, over all statements.\<close>

definition defers :: "nat \<Rightarrow> (sig_chan \<times> nat) list" where
  "defers n = concat (map (\<lambda>l. [(ChanExit, l), (ChanKill, l), (ChanCh, l)]) (rev [0..<n]))"

definition sig_start :: "started list list \<Rightarrow> sig_sys" where
  "sig_start todo = \<lparr>ss_lines = [], ss_todo = todo, ss_main = WaitCh 0, ss_over = None\<rparr>"

section \<open>Steps\<close>

definition with_line :: "nat \<Rightarrow> (sig_line \<Rightarrow> sig_line option) \<Rightarrow> sig_sys \<Rightarrow> sig_sys option" where
  "with_line l f s =
     (if l < length (ss_lines s)
      then map_option (\<lambda>L. s\<lparr>ss_lines := (ss_lines s)[l := L]\<rparr>) (f (ss_lines s ! l)) else None)"

definition with_cmd :: "nat \<Rightarrow> (sig_cmd \<Rightarrow> sig_cmd option) \<Rightarrow> sig_line \<Rightarrow> sig_line option" where
  "with_cmd i f L =
     (if i < length (sl_cmds L)
      then map_option (\<lambda>c. L\<lparr>sl_cmds := (sl_cmds L)[i := c]\<rparr>) (f (sl_cmds L ! i)) else None)"

definition guarded :: "bool \<Rightarrow> 'a \<Rightarrow> 'a option" where
  "guarded b x = (if b then Some x else None)"

text \<open>The commands: a start, the goroutine that listens, the report of the end to the executor, which
  waits at the last statement it started.\<close>

definition begin_cmd :: "sig_cmd \<Rightarrow> sig_cmd option" where
  "begin_cmd c = guarded (sc_phase c = Fresh \<and> sc_what c \<noteq> Quits) (c\<lparr>sc_phase := Runs\<rparr>)"

definition listen_cmd :: "sig_cmd \<Rightarrow> sig_cmd option" where
  "listen_cmd c =
     guarded (sc_phase c \<noteq> Fresh \<and> killable (sc_what c) \<and> sc_listener c = NoListener) (c\<lparr>sc_listener := Listens\<rparr>)"

definition finish_cmd :: "bool \<Rightarrow> sig_cmd \<Rightarrow> sig_cmd option" where
  "finish_cmd readable c = guarded (sc_phase c = Runs \<and> signals readable (sc_what c)) (c\<lparr>sc_phase := Ended\<rparr>)"

definition finish_line :: "bool \<Rightarrow> nat \<Rightarrow> nat \<Rightarrow> sig_sys \<Rightarrow> sig_sys option" where
  "finish_line readable l i s =
     (case ss_main s of
        WaitCh (Suc n) \<Rightarrow>
          if Suc l = length (ss_lines s)
          then map_option (ss_main_update (\<lambda>m. WaitCh n)) (with_line l (with_cmd i (finish_cmd readable)) s) else None
      | _ \<Rightarrow> None)"

definition quit_cmd :: "nat \<Rightarrow> nat \<Rightarrow> sig_sys \<Rightarrow> sig_sys option" where
  "quit_cmd l i s =
     guarded (l < length (ss_lines s) \<and> i < length (sl_cmds (ss_lines s ! l))
       \<and> sc_what (sl_cmds (ss_lines s ! l) ! i) = Quits) (s\<lparr>ss_over := Some Exited\<rparr>)"

text \<open>The executor: the next statement with its commands, or the deferred calls.\<close>

definition next_line :: "sig_sys \<Rightarrow> sig_sys option" where
  "next_line s =
     (if ss_main s = WaitCh 0
      then (case ss_todo s of
              [] \<Rightarrow> Some (s\<lparr>ss_main := Defers (defers (length (ss_lines s)))\<rparr>)
            | ws # rest \<Rightarrow> Some (s\<lparr>ss_lines := ss_lines s @ [new_line ws], ss_todo := rest,
                                   ss_main := WaitCh (length ws)\<rparr>))
      else None)"

definition close_chan :: "sig_chan \<Rightarrow> sig_line \<Rightarrow> sig_line option" where
  "close_chan c L =
     Some (case c of ChanCh \<Rightarrow> L | ChanKill \<Rightarrow> L\<lparr>sl_kill_open := False\<rparr> | ChanExit \<Rightarrow> L\<lparr>sl_exit_open := False\<rparr>)"

definition close_next :: "sig_sys \<Rightarrow> sig_sys option" where
  "close_next s =
     (case ss_main s of
        Defers ((c, l) # ds) \<Rightarrow> map_option (ss_main_update (\<lambda>m. Defers ds)) (with_line l (close_chan c) s)
      | _ \<Rightarrow> None)"

text \<open>The killer: a signal makes it send as many kills as the statement has commands, one at a time to
  whoever listens; a closed \<open>killExit\<close> ends it. A send on the closed \<open>kill\<close> is a panic of the
  program; a receive from it returns.\<close>

definition take_signal :: "sig_line \<Rightarrow> sig_line option" where
  "take_signal L = guarded (sl_killer L = KWait \<and> sl_exit_open L) (L\<lparr>sl_killer := KSend (length (sl_cmds L))\<rparr>)"

definition leave_killer :: "sig_line \<Rightarrow> sig_line option" where
  "leave_killer L = guarded (sl_killer L = KWait \<and> \<not> sl_exit_open L) (L\<lparr>sl_killer := KGone\<rparr>)"

definition get_kill :: "sig_cmd \<Rightarrow> sig_cmd option" where
  "get_kill c = guarded (sc_listener c = Listens) (c\<lparr>sc_listener := GotKill (sc_phase c = Runs)\<rparr>)"

definition send_kill :: "nat \<Rightarrow> sig_line \<Rightarrow> sig_line option" where
  "send_kill i L =
     (case sl_killer L of
        KSend (Suc k) \<Rightarrow>
          if sl_kill_open L then map_option (sl_killer_update (\<lambda>x. KSend k)) (with_cmd i get_kill L) else None
      | _ \<Rightarrow> None)"

definition end_listen :: "sig_cmd \<Rightarrow> sig_cmd option" where
  "end_listen c = guarded (sc_listener c = Listens) (c\<lparr>sc_listener := Released\<rparr>)"

definition release_cmd :: "nat \<Rightarrow> sig_line \<Rightarrow> sig_line option" where
  "release_cmd i L =
     (if sl_kill_open L then None else with_cmd i end_listen L)"

definition crash :: "nat \<Rightarrow> sig_sys \<Rightarrow> sig_sys option" where
  "crash l s =
     (if l < length (ss_lines s) \<and> \<not> sl_kill_open (ss_lines s ! l)
      then (case sl_killer (ss_lines s ! l) of KSend (Suc k) \<Rightarrow> Some (s\<lparr>ss_over := Some Crashed\<rparr>) | _ \<Rightarrow> None)
      else None)"

datatype sig_event =
    Begin nat nat | Quit nat nat | Listen nat nat | Finish nat nat | NextLine | CloseNext
  | Signal nat | Leave nat | SendKill nat nat | Release nat nat | Crash nat

fun sig_fire :: "bool \<Rightarrow> sig_event \<Rightarrow> sig_sys \<Rightarrow> sig_sys option" where
  "sig_fire readable (Begin l i) s = with_line l (with_cmd i begin_cmd) s"
| "sig_fire readable (Quit l i) s = quit_cmd l i s"
| "sig_fire readable (Listen l i) s = with_line l (with_cmd i listen_cmd) s"
| "sig_fire readable (Finish l i) s = finish_line readable l i s"
| "sig_fire readable NextLine s = next_line s"
| "sig_fire readable CloseNext s = close_next s"
| "sig_fire readable (Signal l) s = with_line l take_signal s"
| "sig_fire readable (Leave l) s = with_line l leave_killer s"
| "sig_fire readable (SendKill l i) s = with_line l (send_kill i) s"
| "sig_fire readable (Release l i) s = with_line l (release_cmd i) s"
| "sig_fire readable (Crash l) s = crash l s"

definition sig_event :: "bool \<Rightarrow> sig_event \<Rightarrow> sig_sys \<Rightarrow> sig_sys option" where
  "sig_event readable e s = (if ss_over s = None then sig_fire readable e s else None)"

definition sig_step :: "bool \<Rightarrow> sig_sys \<Rightarrow> sig_sys \<Rightarrow> bool" where
  "sig_step readable s t \<longleftrightarrow> (\<exists>e. sig_event readable e s = Some t)"

fun sig_run :: "bool \<Rightarrow> sig_event list \<Rightarrow> sig_sys \<Rightarrow> sig_sys option" where
  "sig_run readable [] s = Some s"
| "sig_run readable (e # es) s = (case sig_event readable e s of None \<Rightarrow> None | Some t \<Rightarrow> sig_run readable es t)"

section \<open>Facts\<close>

text \<open>Sums over a list of commands or statements after an update.\<close>

lemma sum_update:
  fixes f :: "'a \<Rightarrow> nat"
  shows "i < length xs \<Longrightarrow> sum_list (map f (xs[i := y])) + f (xs ! i) = sum_list (map f xs) + f y"
  by (induction xs arbitrary: i) (auto split: nat.split)

lemma sum_pos:
  fixes f :: "'a \<Rightarrow> nat"
  shows "sum_list (map f xs) = Suc n \<Longrightarrow> \<exists>i < length xs. f (xs ! i) \<noteq> 0"
  by (metis Zero_not_Suc in_set_conv_nth map_idI sum_list_0 map_eq_conv sum_list_eq_0_iff in_set_conv_nth list.set_map imageE)

lemma guarded_Some [simp]: "guarded b x = Some y \<longleftrightarrow> b \<and> y = x"
  by (auto simp: guarded_def)

lemma with_line_Some [simp]:
  "with_line l f s = Some t \<longleftrightarrow> l < length (ss_lines s)
     \<and> (\<exists>L. f (ss_lines s ! l) = Some L \<and> t = s\<lparr>ss_lines := (ss_lines s)[l := L]\<rparr>)"
  by (auto simp: with_line_def)

lemma with_cmd_Some [simp]:
  "with_cmd i f L = Some M \<longleftrightarrow> i < length (sl_cmds L)
     \<and> (\<exists>c. f (sl_cmds L ! i) = Some c \<and> M = L\<lparr>sl_cmds := (sl_cmds L)[i := c]\<rparr>)"
  by (auto simp: with_cmd_def)

lemma send_kill_Some [simp]:
  "send_kill i L = Some M \<longleftrightarrow> (\<exists>k. sl_killer L = KSend (Suc k) \<and> sl_kill_open L \<and> i < length (sl_cmds L)
     \<and> sc_listener (sl_cmds L ! i) = Listens
     \<and> M = L\<lparr>sl_cmds := (sl_cmds L)[i := (sl_cmds L ! i)\<lparr>sc_listener := GotKill (sc_phase (sl_cmds L ! i) = Runs)\<rparr>],
             sl_killer := KSend k\<rparr>)"
  by (auto simp: send_kill_def get_kill_def split: killer.splits nat.splits)

lemma release_Some [simp]: "release_cmd i L = Some M \<longleftrightarrow> \<not> sl_kill_open L \<and> with_cmd i end_listen L = Some M"
  by (auto simp: release_cmd_def)

text \<open>What a step can do to a statement, apart from the report of an end.\<close>

definition line_move :: "sig_line \<Rightarrow> sig_line \<Rightarrow> bool" where
  "line_move L M \<longleftrightarrow>
     (\<exists>i. with_cmd i begin_cmd L = Some M \<or> with_cmd i listen_cmd L = Some M \<or> send_kill i L = Some M
        \<or> release_cmd i L = Some M) \<or> take_signal L = Some M \<or> leave_killer L = Some M"

lemma line_moveI:
  "with_cmd i begin_cmd L = Some M \<Longrightarrow> line_move L M"
  "with_cmd i listen_cmd L = Some M \<Longrightarrow> line_move L M"
  "send_kill i L = Some M \<Longrightarrow> line_move L M"
  "release_cmd i L = Some M \<Longrightarrow> line_move L M"
  "take_signal L = Some M \<Longrightarrow> line_move L M"
  "leave_killer L = Some M \<Longrightarrow> line_move L M"
  unfolding line_move_def by blast+

lemma finish_line_Some [simp]:
  "finish_line readable l i s = Some t \<longleftrightarrow> (\<exists>n. ss_main s = WaitCh (Suc n) \<and> Suc l = length (ss_lines s)
     \<and> (\<exists>M. with_cmd i (finish_cmd readable) (ss_lines s ! l) = Some M
          \<and> t = s\<lparr>ss_lines := (ss_lines s)[l := M], ss_main := WaitCh n\<rparr>))"
  by (auto simp: finish_line_def simp del: with_cmd_Some split: sig_main.splits nat.splits)

lemma next_line_Some [simp]:
  "next_line s = Some t \<longleftrightarrow> ss_main s = WaitCh 0
     \<and> (ss_todo s = [] \<and> t = s\<lparr>ss_main := Defers (defers (length (ss_lines s)))\<rparr>
      \<or> (\<exists>ws rest. ss_todo s = ws # rest \<and> t = s\<lparr>ss_lines := ss_lines s @ [new_line ws], ss_todo := rest,
                                   ss_main := WaitCh (length ws)\<rparr>))"
  by (auto simp: next_line_def split: list.splits)

lemma close_next_Some [simp]:
  "close_next s = Some t \<longleftrightarrow> (\<exists>c l ds. ss_main s = Defers ((c, l) # ds) \<and> l < length (ss_lines s)
     \<and> (\<exists>M. close_chan c (ss_lines s ! l) = Some M \<and> t = s\<lparr>ss_lines := (ss_lines s)[l := M], ss_main := Defers ds\<rparr>))"
  by (auto simp: close_next_def split: sig_main.splits list.splits)

lemma crash_Some [simp]:
  "crash l s = Some t \<longleftrightarrow> l < length (ss_lines s) \<and> \<not> sl_kill_open (ss_lines s ! l)
     \<and> (\<exists>k. sl_killer (ss_lines s ! l) = KSend (Suc k)) \<and> t = s\<lparr>ss_over := Some Crashed\<rparr>"
  by (auto simp: crash_def split: killer.splits nat.splits)

lemma step_cases:
  assumes "sig_step readable s t"
  obtains
    (line) l M where "l < length (ss_lines s)" "line_move (ss_lines s ! l) M" "t = s\<lparr>ss_lines := (ss_lines s)[l := M]\<rparr>"
  | (finish) l i M n where "ss_main s = WaitCh (Suc n)" "Suc l = length (ss_lines s)"
      "with_cmd i (finish_cmd readable) (ss_lines s ! l) = Some M"
      "t = s\<lparr>ss_lines := (ss_lines s)[l := M], ss_main := WaitCh n\<rparr>"
  | (start) ws rest where "ss_main s = WaitCh 0" "ss_todo s = ws # rest"
      "t = s\<lparr>ss_lines := ss_lines s @ [new_line ws], ss_todo := rest, ss_main := WaitCh (length ws)\<rparr>"
  | (return) "ss_main s = WaitCh 0" "ss_todo s = []" "t = s\<lparr>ss_main := Defers (defers (length (ss_lines s)))\<rparr>"
  | (close) c l ds M where "ss_main s = Defers ((c, l) # ds)" "l < length (ss_lines s)"
      "close_chan c (ss_lines s ! l) = Some M" "t = s\<lparr>ss_lines := (ss_lines s)[l := M], ss_main := Defers ds\<rparr>"
  | (over) x where "t = s\<lparr>ss_over := Some x\<rparr>"
proof -
  from assms obtain e where "sig_fire readable e s = Some t"
    by (auto simp: sig_step_def sig_event_def split: if_splits)
  then show thesis
  proof (cases e)
    case (Finish l i)
    then show thesis using \<open>sig_fire readable e s = Some t\<close> finish [of _ l i]
      by (auto simp del: with_cmd_Some)
  qed (insert \<open>sig_fire readable e s = Some t\<close>, auto simp: quit_cmd_def simp del: with_cmd_Some send_kill_Some release_Some
         intro: line line_moveI start return close over)
qed

text \<open>Listeners belong to commands that can be killed and that have started; the kills a killer still
  has to send and the ones its commands got add up to the commands of the statement.\<close>

definition got_kill :: "sig_cmd \<Rightarrow> nat" where
  "got_kill c = (case sc_listener c of GotKill b \<Rightarrow> 1 | _ \<Rightarrow> 0)"

definition kills :: "sig_line \<Rightarrow> nat" where
  "kills L = sum_list (map got_kill (sl_cmds L))"

definition cmd_ok :: "sig_cmd \<Rightarrow> bool" where
  "cmd_ok c \<longleftrightarrow> sc_listener c = NoListener \<or> killable (sc_what c) \<and> sc_phase c \<noteq> Fresh"

definition line_ok :: "sig_line \<Rightarrow> bool" where
  "line_ok L \<longleftrightarrow> list_all cmd_ok (sl_cmds L)
     \<and> (case sl_killer L of KSend k \<Rightarrow> k + kills L = length (sl_cmds L) | _ \<Rightarrow> kills L = 0)"

definition unended :: "sig_line \<Rightarrow> nat" where
  "unended L = sum_list (map (\<lambda>c. if sc_phase c = Ended then 0 else 1) (sl_cmds L))"

lemmas cmd_defs = begin_cmd_def listen_cmd_def finish_cmd_def get_kill_def end_listen_def

lemma kills_update:
  "i < length (sl_cmds L) \<Longrightarrow> got_kill c = got_kill (sl_cmds L ! i) \<Longrightarrow>
   kills (L\<lparr>sl_cmds := (sl_cmds L)[i := c]\<rparr>) = kills L"
  using sum_update [of i "sl_cmds L" got_kill c] by (simp add: kills_def)

lemma kills_Suc:
  "i < length (sl_cmds L) \<Longrightarrow> got_kill c = 1 \<Longrightarrow> got_kill (sl_cmds L ! i) = 0 \<Longrightarrow>
   kills (L\<lparr>sl_cmds := (sl_cmds L)[i := c], sl_killer := k\<rparr>) = Suc (kills L)"
  using sum_update [of i "sl_cmds L" got_kill c] by (simp add: kills_def)

lemma cmds_update_ok: "list_all cmd_ok cs \<Longrightarrow> cmd_ok c \<Longrightarrow> list_all cmd_ok (cs[i := c])"
  by (auto simp: list_all_iff dest: set_update_subset_insert [THEN subsetD])

lemma cmd_ok_nth: "list_all cmd_ok cs \<Longrightarrow> i < length cs \<Longrightarrow> cmd_ok (cs ! i)"
  by (simp add: list_all_length)

lemma line_update_ok:
  "line_ok L \<Longrightarrow> i < length (sl_cmds L) \<Longrightarrow> cmd_ok c \<Longrightarrow> got_kill c = got_kill (sl_cmds L ! i) \<Longrightarrow>
   line_ok (L\<lparr>sl_cmds := (sl_cmds L)[i := c]\<rparr>)"
  by (cases "sl_killer L") (simp_all add: line_ok_def kills_update cmds_update_ok)

lemma with_cmd_ok:
  assumes "line_ok L" and "with_cmd i f L = Some M"
    and "\<And>c d. f c = Some d \<Longrightarrow> cmd_ok c \<Longrightarrow> cmd_ok d \<and> got_kill d = got_kill c"
  shows "line_ok M"
proof -
  from assms(2) obtain d where d: "i < length (sl_cmds L)" "f (sl_cmds L ! i) = Some d"
      "M = L\<lparr>sl_cmds := (sl_cmds L)[i := d]\<rparr>" by auto
  have "cmd_ok (sl_cmds L ! i)" using assms(1) d(1) by (simp add: line_ok_def cmd_ok_nth)
  with assms(3) [OF d(2)] show ?thesis using assms(1) d by (simp add: line_update_ok)
qed

lemma send_kill_ok:
  assumes "line_ok L" and "send_kill i L = Some M"
  shows "line_ok M"
proof -
  from assms(2) obtain k where k: "sl_killer L = KSend (Suc k)" "i < length (sl_cmds L)"
      "sc_listener (sl_cmds L ! i) = Listens"
    and M: "M = L\<lparr>sl_cmds := (sl_cmds L)[i := (sl_cmds L ! i)\<lparr>sc_listener := GotKill (sc_phase (sl_cmds L ! i) = Runs)\<rparr>],
             sl_killer := KSend k\<rparr>"
    by auto
  have "cmd_ok (sl_cmds L ! i)" using assms(1) k(2) by (simp add: line_ok_def cmd_ok_nth)
  then show ?thesis
    using assms(1) k unfolding M line_ok_def
    by (simp add: kills_Suc got_kill_def cmd_ok_def cmds_update_ok)
qed

lemma killer_move_ok:
  "take_signal L = Some M \<Longrightarrow> line_ok L \<Longrightarrow> line_ok M"
  "leave_killer L = Some M \<Longrightarrow> line_ok L \<Longrightarrow> line_ok M"
  by (auto simp: take_signal_def leave_killer_def line_ok_def kills_def)

lemma close_chan_ok: "close_chan c L = Some M \<Longrightarrow> line_ok L \<Longrightarrow> line_ok M"
  by (cases "sl_killer L") (auto simp: close_chan_def line_ok_def kills_def split: sig_chan.splits)

lemma cmd_moves_ok:
  "with_cmd i begin_cmd L = Some M \<Longrightarrow> line_ok L \<Longrightarrow> line_ok M"
  "with_cmd i listen_cmd L = Some M \<Longrightarrow> line_ok L \<Longrightarrow> line_ok M"
  "with_cmd i (finish_cmd readable) L = Some M \<Longrightarrow> line_ok L \<Longrightarrow> line_ok M"
  "with_cmd i end_listen L = Some M \<Longrightarrow> line_ok L \<Longrightarrow> line_ok M"
  by (erule with_cmd_ok [rotated]; auto simp: cmd_defs cmd_ok_def got_kill_def split: if_splits)+

lemma line_move_ok: "line_move L M \<Longrightarrow> line_ok L \<Longrightarrow> line_ok M"
  unfolding line_move_def release_Some by (blast intro: cmd_moves_ok send_kill_ok killer_move_ok)

lemma new_line_ok: "line_ok (new_line ws)"
  by (simp add: line_ok_def new_line_def new_cmd_def cmd_ok_def kills_def got_kill_def list_all_iff comp_def)

text \<open>A move keeps what its commands are, their channels, and the number of commands that have not reported.\<close>

definition whats :: "sig_line \<Rightarrow> started list" where
  "whats L = map sc_what (sl_cmds L)"

lemma unended_update:
  "i < length (sl_cmds L) \<Longrightarrow> (sc_phase c = Ended \<longleftrightarrow> sc_phase (sl_cmds L ! i) = Ended) \<Longrightarrow>
   sum_list (map (\<lambda>c. if sc_phase c = Ended then 0 else 1) ((sl_cmds L)[i := c])) = unended L"
  using sum_update [of i "sl_cmds L" "\<lambda>c. if sc_phase c = Ended then 0 else 1" c] by (simp add: unended_def)

lemma with_cmd_keeps:
  assumes "with_cmd i f L = Some M" and "\<And>c d. f c = Some d \<Longrightarrow> sc_what d = sc_what c"
  shows "whats M = whats L \<and> sl_kill_open M = sl_kill_open L \<and> sl_exit_open M = sl_exit_open L \<and> sl_killer M = sl_killer L"
  using assms by (auto simp: whats_def map_update list_update_same_conv)

lemma with_cmd_unended:
  assumes "with_cmd i f L = Some M" and "\<And>c d. f c = Some d \<Longrightarrow> (sc_phase d = Ended \<longleftrightarrow> sc_phase c = Ended)"
  shows "unended M = unended L"
  using assms unended_update [of i L] by (auto simp: unended_def)

lemma line_move_keeps:
  assumes "line_move L M"
  shows "whats M = whats L \<and> sl_kill_open M = sl_kill_open L \<and> sl_exit_open M = sl_exit_open L"
  using assms unfolding line_move_def release_Some
  by (elim disjE exE conjE)
    (auto dest!: with_cmd_keeps simp: cmd_defs simp del: with_cmd_Some,
     auto simp: take_signal_def leave_killer_def whats_def map_update list_update_same_conv)

lemma line_move_unended:
  assumes "line_move L M"
  shows "unended M = unended L"
  using assms unfolding line_move_def release_Some
  by (elim disjE exE conjE)
    (auto dest!: with_cmd_unended simp: cmd_defs simp del: with_cmd_Some,
     auto simp: take_signal_def leave_killer_def unended_def unended_update [unfolded unended_def])

lemma finish_unended:
  assumes "with_cmd i (finish_cmd readable) L = Some M"
  shows "Suc (unended M) = unended L"
  using assms sum_update [of i "sl_cmds L" "\<lambda>c. if sc_phase c = Ended then 0 else 1"]
  by (auto simp: finish_cmd_def unended_def)

lemma finish_keeps:
  assumes "with_cmd i (finish_cmd readable) L = Some M"
  shows "whats M = whats L \<and> sl_kill_open M = sl_kill_open L \<and> sl_exit_open M = sl_exit_open L"
  using assms by (auto dest!: with_cmd_keeps simp: finish_cmd_def simp del: with_cmd_Some)

lemma close_keeps: "close_chan c L = Some M \<Longrightarrow> whats M = whats L \<and> unended M = unended L \<and> sl_killer M = sl_killer L"
  by (auto simp: close_chan_def whats_def unended_def split: sig_chan.splits)

text \<open>The executor: the statements before the last one have ended, the last one misses as many reports as
  are waited for; every channel stays open until the deferred calls, which close each \<open>kill\<close>.\<close>

definition waited :: "sig_sys \<Rightarrow> nat \<Rightarrow> nat" where
  "waited s l = (if Suc l = length (ss_lines s) then (case ss_main s of WaitCh n \<Rightarrow> n | _ \<Rightarrow> 0) else 0)"

definition main_ok :: "sig_sys \<Rightarrow> bool" where
  "main_ok s \<longleftrightarrow>
     (case ss_main s of
        WaitCh n \<Rightarrow> (ss_lines s = [] \<longrightarrow> n = 0)
          \<and> (\<forall>l < length (ss_lines s). sl_exit_open (ss_lines s ! l) \<and> sl_kill_open (ss_lines s ! l))
      | Defers ds \<Rightarrow> (\<forall>l < length (ss_lines s). sl_kill_open (ss_lines s ! l) \<longrightarrow> (ChanKill, l) \<in> set ds)
          \<and> (\<forall>x \<in> set ds. snd x < length (ss_lines s)))"

definition sig_inv :: "sig_sys \<Rightarrow> bool" where
  "sig_inv s \<longleftrightarrow> list_all line_ok (ss_lines s)
     \<and> (\<forall>l < length (ss_lines s). unended (ss_lines s ! l) = waited s l) \<and> main_ok s"

lemma defers_mem: "(c, l) \<in> set (defers n) \<longleftrightarrow> l < n"
  by (cases c) (auto simp: defers_def)

lemma new_line_simps [simp]:
  "unended (new_line ws) = length ws" "whats (new_line ws) = ws" "sl_killer (new_line ws) = KWait"
  "sl_kill_open (new_line ws)" "sl_exit_open (new_line ws)"
  by (simp_all add: new_line_def unended_def whats_def new_cmd_def comp_def sum_list_triv)

lemma lines_ok_step: "sig_step readable s t \<Longrightarrow> list_all line_ok (ss_lines s) \<Longrightarrow> list_all line_ok (ss_lines t)"
  by (erule step_cases)
    (auto intro: line_move_ok cmd_moves_ok close_chan_ok new_line_ok
       simp del: with_cmd_Some simp: list_all_length nth_list_update nth_append less_Suc_eq)

lemma unended_step:
  assumes "sig_step readable s t" and "\<forall>l < length (ss_lines s). unended (ss_lines s ! l) = waited s l"
  shows "\<forall>l < length (ss_lines t). unended (ss_lines t ! l) = waited t l"
  using assms(1)
proof (cases rule: step_cases)
  case (line l M)
  then show ?thesis using assms(2) line_move_unended [OF line(2)]
    by (auto simp: nth_list_update waited_def)
next
  case (finish l i M n)
  then show ?thesis using assms(2) finish_unended [OF finish(3)]
    by (auto simp: nth_list_update waited_def simp del: with_cmd_Some)
next
  case (start ws rest)
  then show ?thesis using assms(2) by (auto simp: nth_append waited_def less_Suc_eq)
next
  case (close c l ds M)
  then show ?thesis using assms(2) close_keeps [OF close(3)]
    by (auto simp: nth_list_update waited_def)
qed (use assms(2) in \<open>auto simp: waited_def\<close>)

lemma main_step:
  assumes "sig_step readable s t" and "main_ok s"
  shows "main_ok t"
  using assms(1)
proof (cases rule: step_cases)
  case (line l M)
  then show ?thesis using assms(2) line_move_keeps [OF line(2)]
    by (auto simp: nth_list_update main_ok_def split: sig_main.splits)
next
  case (finish l i M n)
  then show ?thesis using assms(2) finish_keeps [OF finish(3)]
    by (auto simp: nth_list_update main_ok_def simp del: with_cmd_Some)
next
  case (start ws rest)
  then show ?thesis using assms(2) by (auto simp: nth_append main_ok_def less_Suc_eq)
next
  case (close c l ds M)
  then show ?thesis using assms(2)
    by (cases c) (auto simp: nth_list_update main_ok_def close_chan_def)
next
  case return
  then show ?thesis by (auto simp: main_ok_def defers_mem)
next
  case (over x)
  then show ?thesis using assms(2) by (cases "ss_main s") (auto simp: main_ok_def)
qed

lemma inv_step: "sig_step readable s t \<Longrightarrow> sig_inv s \<Longrightarrow> sig_inv t"
  unfolding sig_inv_def using lines_ok_step [of readable s t] unended_step [of readable s t] main_step [of readable s t]
  by blast

lemma inv_start: "sig_inv (sig_start todo)"
  by (simp add: sig_inv_def sig_start_def main_ok_def)

text \<open>Every step makes the work that is left smaller.\<close>

definition cmd_rank :: "sig_cmd \<Rightarrow> nat" where
  "cmd_rank c = (case sc_phase c of Fresh \<Rightarrow> 2 | Runs \<Rightarrow> 1 | Ended \<Rightarrow> 0)
     + (case sc_listener c of NoListener \<Rightarrow> 2 | Listens \<Rightarrow> 1 | _ \<Rightarrow> 0)"

definition line_rank :: "sig_line \<Rightarrow> nat" where
  "line_rank L = sum_list (map cmd_rank (sl_cmds L))
     + (case sl_killer L of KWait \<Rightarrow> Suc (length (sl_cmds L)) | KSend k \<Rightarrow> k | KGone \<Rightarrow> 0)"

definition sig_rank :: "sig_sys \<Rightarrow> nat" where
  "sig_rank s = sum_list (map line_rank (ss_lines s)) + sum_list (map (\<lambda>ws. 4 + line_rank (new_line ws)) (ss_todo s))
     + (case ss_main s of WaitCh n \<Rightarrow> Suc (3 * length (ss_lines s)) | Defers ds \<Rightarrow> length ds)
     + (if ss_over s = None then 1 else 0)"

lemma with_cmd_rank:
  assumes "with_cmd i f L = Some M" and "\<And>c d. f c = Some d \<Longrightarrow> cmd_rank d < cmd_rank c"
  shows "line_rank M < line_rank L"
proof -
  from assms(1) obtain d where d: "i < length (sl_cmds L)" "f (sl_cmds L ! i) = Some d"
      "M = L\<lparr>sl_cmds := (sl_cmds L)[i := d]\<rparr>" by auto
  then show ?thesis using assms(2) [OF d(2)] sum_update [OF d(1), of cmd_rank d]
    by (cases "sl_killer L") (simp_all add: line_rank_def)
qed

lemma send_kill_rank:
  assumes "send_kill i L = Some M"
  shows "line_rank M < line_rank L"
proof -
  from assms obtain k where k: "sl_killer L = KSend (Suc k)" "i < length (sl_cmds L)"
      "sc_listener (sl_cmds L ! i) = Listens"
    and M: "M = L\<lparr>sl_cmds := (sl_cmds L)[i := (sl_cmds L ! i)\<lparr>sc_listener := GotKill (sc_phase (sl_cmds L ! i) = Runs)\<rparr>],
             sl_killer := KSend k\<rparr>"
    by auto
  show ?thesis
    unfolding M using k sum_update [OF k(2), of cmd_rank "(sl_cmds L ! i)\<lparr>sc_listener := GotKill (sc_phase (sl_cmds L ! i) = Runs)\<rparr>"]
    by (simp add: line_rank_def cmd_rank_def)
qed

lemma cmd_moves_rank:
  "with_cmd i begin_cmd L = Some M \<Longrightarrow> line_rank M < line_rank L"
  "with_cmd i listen_cmd L = Some M \<Longrightarrow> line_rank M < line_rank L"
  "with_cmd i (finish_cmd readable) L = Some M \<Longrightarrow> line_rank M < line_rank L"
  "with_cmd i end_listen L = Some M \<Longrightarrow> line_rank M < line_rank L"
  by (erule with_cmd_rank; auto simp: cmd_defs cmd_rank_def)+

lemma line_move_rank: "line_move L M \<Longrightarrow> line_rank M < line_rank L"
  unfolding line_move_def release_Some
  by (elim disjE exE conjE)
    (auto dest: cmd_moves_rank send_kill_rank simp del: with_cmd_Some send_kill_Some
       simp: take_signal_def leave_killer_def line_rank_def)

lemma sum_line_rank:
  "l < length Ls \<Longrightarrow> line_rank M < line_rank (Ls ! l) \<Longrightarrow> sum_list (map line_rank (Ls[l := M])) < sum_list (map line_rank Ls)"
  "l < length Ls \<Longrightarrow> line_rank M = line_rank (Ls ! l) \<Longrightarrow> sum_list (map line_rank (Ls[l := M])) = sum_list (map line_rank Ls)"
  using sum_update [of l Ls line_rank M] by simp_all

lemma close_rank: "close_chan c L = Some M \<Longrightarrow> line_rank M = line_rank L"
  by (cases "sl_killer L") (auto simp: close_chan_def line_rank_def split: sig_chan.splits)

lemma length_defers: "length (defers n) = 3 * n"
  by (simp add: defers_def length_concat comp_def sum_list_triv)

lemma step_open: "sig_step readable s t \<Longrightarrow> ss_over s = None"
  by (auto simp: sig_step_def sig_event_def split: if_splits)

lemma rank_step:
  assumes "sig_step readable s t"
  shows "sig_rank t < sig_rank s"
  using assms
proof (cases rule: step_cases)
  case (line l M)
  then show ?thesis using sum_line_rank(1) [OF line(1) line_move_rank [OF line(2)]]
    by (simp add: sig_rank_def split: sig_main.splits)
next
  case (finish l i M n)
  then show ?thesis using sum_line_rank(1) [of l "ss_lines s" M] cmd_moves_rank(3) [OF finish(3)]
    by (simp add: sig_rank_def)
next
  case (close c l ds M)
  then show ?thesis using sum_line_rank(2) [of l "ss_lines s" M] close_rank [OF close(3)]
    by (simp add: sig_rank_def)
next
  case (over x)
  then show ?thesis using step_open [OF assms] by (cases "ss_main s") (simp_all add: sig_rank_def)
qed (simp_all add: sig_rank_def length_defers)

interpretation sg: ranked "sig_step readable" sig_inv sig_rank for readable
  by unfold_locales (auto intro: inv_step rank_step)

text \<open>The statements are those of the line, in their order.\<close>

lemma statements_step:
  assumes "sig_step readable s t"
  shows "map whats (ss_lines t) @ ss_todo t = map whats (ss_lines s) @ ss_todo s"
  using assms
proof (cases rule: step_cases)
  case (line l M)
  then show ?thesis using line_move_keeps [OF line(2)] by (simp add: map_update list_update_same_conv)
next
  case (finish l i M n)
  then show ?thesis using finish_keeps [OF finish(3)]
    by (simp add: map_update list_update_same_conv del: with_cmd_Some)
next
  case (close c l ds M)
  then show ?thesis using close_keeps [OF close(3)] by (simp add: map_update list_update_same_conv)
qed simp_all

lemma statements_kept:
  "(sig_step readable)\<^sup>*\<^sup>* (sig_start lines) s \<Longrightarrow> map whats (ss_lines s) @ ss_todo s = lines"
proof (induction rule: rtranclp_induct)
  case base
  then show ?case by (simp add: sig_start_def)
qed (simp add: statements_step)

lemma statement_nth:
  "(sig_step readable)\<^sup>*\<^sup>* (sig_start lines) s \<Longrightarrow> l < length (ss_lines s) \<Longrightarrow>
   whats (ss_lines s ! l) = lines ! l \<and> lines ! l \<in> set lines"
  using statements_kept [of readable lines s] by (metis length_map nth_append nth_map nth_mem in_set_conv_decomp Un_iff set_append)

lemma reached_inv: "(sig_step readable)\<^sup>*\<^sup>* (sig_start lines) s \<Longrightarrow> sig_inv s"
  using sg.steps_inv inv_start by blast

text \<open>Where a run ends that nobody ended: the executor has returned and all \<open>kill\<close> are closed.\<close>

lemma unended_command:
  assumes "unended L \<noteq> 0"
  shows "\<exists>i < length (sl_cmds L). sc_phase (sl_cmds L ! i) \<noteq> Ended"
  using assms by (auto simp: unended_def sum_list_eq_0_iff in_set_conv_nth split: if_splits)

text \<open>A state in which nothing happens by itself: only a signal may still come.\<close>

definition quiescent :: "bool \<Rightarrow> sig_sys \<Rightarrow> bool" where
  "quiescent readable s \<longleftrightarrow> (\<forall>e. sig_event readable e s \<noteq> None \<longrightarrow> (\<exists>l. e = Signal l))"

lemma stopped_quiescent: "\<forall>t. \<not> sig_step readable s t \<Longrightarrow> quiescent readable s"
  unfolding quiescent_def sig_step_def by blast

lemma stands:
  assumes "sig_inv s" and "ss_over s = None" and "quiescent readable s"
    and "\<forall>l < length (ss_lines s). Quits \<notin> set (whats (ss_lines s ! l))"
  shows "ss_main s = Defers [] \<or> (\<exists>n l. ss_main s = WaitCh (Suc n) \<and> Suc l = length (ss_lines s)
    \<and> unended (ss_lines s ! l) = Suc n
    \<and> list_all (\<lambda>c. sc_phase c \<noteq> Ended \<longrightarrow> \<not> signals readable (sc_what c)) (sl_cmds (ss_lines s ! l)))"
proof -
  have dead: "sig_fire readable e s = None" if "\<And>l. e \<noteq> Signal l" for e
    using assms(2,3) that unfolding quiescent_def sig_event_def by metis
  show ?thesis
  proof (cases "ss_main s")
    case (WaitCh n)
    show ?thesis
    proof (cases n)
      case 0
      then have "next_line s \<noteq> None" using WaitCh unfolding next_line_def by (simp split: list.split)
      then show ?thesis using dead [of NextLine] unfolding sig_fire.simps by (metis sig_event.distinct)
    next
      case (Suc m)
      then have "ss_lines s \<noteq> []" using WaitCh assms(1) by (auto simp: sig_inv_def main_ok_def)
      then obtain l where l: "Suc l = length (ss_lines s)" by (metis length_Suc_conv_rev neq_Nil_conv length_Cons)
      then have "unended (ss_lines s ! l) = Suc m"
        using assms(1) WaitCh Suc by (auto simp: sig_inv_def waited_def)
      moreover have "sc_phase (sl_cmds (ss_lines s ! l) ! i) \<noteq> Ended \<longrightarrow> \<not> signals readable (sc_what (sl_cmds (ss_lines s ! l) ! i))"
        if i: "i < length (sl_cmds (ss_lines s ! l))" for i
      proof (intro impI notI)
        assume run: "sc_phase (sl_cmds (ss_lines s ! l) ! i) \<noteq> Ended" "signals readable (sc_what (sl_cmds (ss_lines s ! l) ! i))"
        have "sc_what (sl_cmds (ss_lines s ! l) ! i) \<noteq> Quits"
          using assms(4) l nth_mem [OF i] unfolding whats_def by (metis imageI lessI list.set_map)
        then have "with_cmd i begin_cmd (ss_lines s ! l) \<noteq> None \<or> with_cmd i (finish_cmd readable) (ss_lines s ! l) \<noteq> None"
          using i run by (cases "sc_phase (sl_cmds (ss_lines s ! l) ! i)")
            (simp_all add: with_cmd_def begin_cmd_def finish_cmd_def guarded_def)
        then show False
          using dead [of "Begin l i"] dead [of "Finish l i"] l WaitCh Suc
          by (auto simp: with_line_def finish_line_def simp del: with_cmd_Some)
      qed
      ultimately show ?thesis using WaitCh Suc l by (auto simp: list_all_length)
    qed
  next
    case (Defers ds)
    then show ?thesis
    proof (cases ds)
      case (Cons x ds')
      obtain c l where "x = (c, l)" by (cases x)
      then have "close_next s \<noteq> None" using Defers Cons assms(1)
        by (auto simp: close_next_def with_line_def close_chan_def sig_inv_def main_ok_def)
      then show ?thesis using dead [of CloseNext] unfolding sig_fire.simps by (metis sig_event.distinct)
    qed simp
  qed
qed

lemma run_out:
  assumes "sig_inv s" and "ss_over s = None" and "\<forall>t. \<not> sig_step readable s t"
    and "\<forall>l < length (ss_lines s). \<forall>w \<in> set (whats (ss_lines s ! l)). signals readable w \<and> w \<noteq> Quits"
  shows "ss_main s = Defers []"
proof -
  have "\<forall>l < length (ss_lines s). Quits \<notin> set (whats (ss_lines s ! l))" using assms(4) by blast
  from stands [OF assms(1,2) stopped_quiescent [OF assms(3)] this] show ?thesis
  proof (elim disjE exE conjE)
    fix n l
    assume l: "Suc l = length (ss_lines s)" "unended (ss_lines s ! l) = Suc n"
      and silent: "list_all (\<lambda>c. sc_phase c \<noteq> Ended \<longrightarrow> \<not> signals readable (sc_what c)) (sl_cmds (ss_lines s ! l))"
    from l(2) obtain i where "i < length (sl_cmds (ss_lines s ! l))" "sc_phase (sl_cmds (ss_lines s ! l) ! i) \<noteq> Ended"
      using unended_command [of "ss_lines s ! l"] by auto
    moreover from this(1) have "signals readable (sc_what (sl_cmds (ss_lines s ! l) ! i))"
      using assms(4) l(1) nth_mem unfolding whats_def by (metis imageI lessI list.set_map)
    ultimately show ?thesis using silent by (simp add: list_all_length)
  qed
qed

text \<open>A killer that sends has something left to send as long as a command of its statement cannot be
  killed.\<close>

lemma got_kill_le: "got_kill c \<le> 1"
  by (simp add: got_kill_def split: listener.split)

lemma kills_less:
  "list_all cmd_ok cs \<Longrightarrow> \<not> list_all killable (map sc_what cs) \<Longrightarrow> sum_list (map got_kill cs) < length cs"
proof (induction cs)
  case (Cons c cs)
  have le: "sum_list (map got_kill cs) \<le> length cs" for cs
  proof (induction cs)
    case (Cons a cs)
    then show ?case using got_kill_le [of a] by simp
  qed simp
  show ?case
  proof (cases "killable (sc_what c)")
    case True
    then show ?thesis using Cons got_kill_le [of c] by auto
  next
    case False
    then have "got_kill c = 0" using Cons.prems(1) by (auto simp: cmd_ok_def got_kill_def)
    then show ?thesis using le [of cs] by simp
  qed
qed simp

lemma sending_line:
  assumes "line_ok L" and "sl_killer L = KSend k" and "\<not> list_all killable (whats L)"
  shows "\<exists>j. k = Suc j"
  using kills_less [of "sl_cmds L"] assms by (cases k) (auto simp: line_ok_def kills_def whats_def)

definition sending :: "nat \<Rightarrow> sig_sys \<Rightarrow> bool" where
  "sending l s \<longleftrightarrow> l < length (ss_lines s) \<and> (\<exists>k. sl_killer (ss_lines s ! l) = KSend k)"

lemma line_move_sending: "line_move L M \<Longrightarrow> sl_killer L = KSend k \<Longrightarrow> \<exists>j. sl_killer M = KSend j"
  unfolding line_move_def release_Some
  by (elim disjE exE conjE) (auto simp: take_signal_def leave_killer_def)

lemma sending_step:
  assumes "sig_step readable s t" and "sending l s"
  shows "sending l t"
  using assms(1)
proof (cases rule: step_cases)
  case (line m M)
  then show ?thesis using assms(2) line_move_sending [OF line(2)] by (auto simp: sending_def nth_list_update)
next
  case (start ws rest)
  then show ?thesis using assms(2) by (auto simp: sending_def nth_append)
next
  case (close c m ds M)
  then show ?thesis using assms(2) close_keeps [OF close(3)] by (auto simp: sending_def nth_list_update)
qed (use assms(2) in \<open>auto simp: sending_def nth_list_update\<close>)

interpretation sd: stepping "sig_step readable" "sending l" for readable l
  by unfold_locales (rule sending_step)

lemma crash_left:
  assumes "sig_inv s" and "sending l s" and "\<not> list_all killable (whats (ss_lines s ! l))" and "ss_main s = Defers []"
    and "ss_over s = None"
  shows "\<exists>t. sig_step readable s t"
proof -
  from assms(2) obtain k where k: "l < length (ss_lines s)" "sl_killer (ss_lines s ! l) = KSend k"
    by (auto simp: sending_def)
  then obtain j where "sl_killer (ss_lines s ! l) = KSend (Suc j)"
    using sending_line [of "ss_lines s ! l" k] assms(1,3) by (auto simp: sig_inv_def list_all_length)
  moreover have "\<not> sl_kill_open (ss_lines s ! l)" using assms(1,4) k(1) by (auto simp: sig_inv_def main_ok_def)
  ultimately have "sig_event readable (Crash l) s = Some (s\<lparr>ss_over := Some Crashed\<rparr>)"
    using k(1) assms(5) by (simp add: sig_event_def)
  then show ?thesis unfolding sig_step_def by blast
qed

text \<open>Without \<open>exit\<close> in the line nothing but such a send ends a run.\<close>

definition no_exit :: "started list list \<Rightarrow> sig_sys \<Rightarrow> bool" where
  "no_exit lines s \<longleftrightarrow> map whats (ss_lines s) @ ss_todo s = lines \<and> ss_over s \<noteq> Some Exited"

lemma no_exit_step:
  assumes "sig_step readable s t" and "no_exit lines s" and "\<forall>ws \<in> set lines. Quits \<notin> set ws"
  shows "no_exit lines t"
proof -
  from assms(1) obtain e where e: "sig_fire readable e s = Some t" "ss_over s = None"
    by (auto simp: sig_step_def sig_event_def split: if_splits)
  have "ss_over t \<noteq> Some Exited"
  proof (cases e)
    case (Quit l i)
    then have q: "l < length (ss_lines s)" "Quits \<in> set (whats (ss_lines s ! l))"
      using e(1) by (auto simp: quit_cmd_def whats_def) (metis image_eqI nth_mem)
    have "whats (ss_lines s ! l) \<in> set lines"
      using assms(2) q(1) by (auto simp: no_exit_def)
    then show ?thesis using assms(3) q(2) by blast
  qed (use e in \<open>auto simp: send_kill_def\<close>)
  then show ?thesis using assms(2) statements_step [OF assms(1)] by (simp add: no_exit_def)
qed

lemma no_exit_steps:
  "(sig_step readable)\<^sup>*\<^sup>* s t \<Longrightarrow> no_exit lines s \<Longrightarrow> \<forall>ws \<in> set lines. Quits \<notin> set ws \<Longrightarrow> no_exit lines t"
  by (induction rule: rtranclp_induct) (auto intro: no_exit_step)

text \<open>A statement that has ended and whose commands got no kill cannot be hit any more.\<close>

definition unhit :: "sig_line \<Rightarrow> bool" where
  "unhit L \<longleftrightarrow> list_all (\<lambda>c. sc_phase c = Ended \<and> sc_listener c \<noteq> GotKill True) (sl_cmds L)"

lemma cmds_unhit:
  "unhit L \<Longrightarrow> sc_phase c = Ended \<Longrightarrow> sc_listener c \<noteq> GotKill True \<Longrightarrow> sl_cmds M = (sl_cmds L)[i := c] \<Longrightarrow> unhit M"
  by (auto simp: unhit_def list_all_iff dest: set_update_subset_insert [THEN subsetD])

lemma with_cmd_unhit:
  assumes "with_cmd i f L = Some M" and "unhit L"
    and "\<And>c d. f c = Some d \<Longrightarrow> sc_phase c = Ended \<Longrightarrow> sc_listener c \<noteq> GotKill True \<Longrightarrow>
      sc_phase d = Ended \<and> sc_listener d \<noteq> GotKill True"
  shows "unhit M"
proof -
  from assms(1) obtain d where d: "i < length (sl_cmds L)" "f (sl_cmds L ! i) = Some d"
      "M = L\<lparr>sl_cmds := (sl_cmds L)[i := d]\<rparr>" by auto
  have "sc_phase (sl_cmds L ! i) = Ended \<and> sc_listener (sl_cmds L ! i) \<noteq> GotKill True"
    using assms(2) d(1) by (simp add: unhit_def list_all_length)
  with assms(3) [OF d(2)] show ?thesis using d(3) by (intro cmds_unhit [OF assms(2)]) auto
qed

lemma cmd_moves_unhit:
  "with_cmd i begin_cmd L = Some M \<Longrightarrow> unhit L \<Longrightarrow> unhit M"
  "with_cmd i listen_cmd L = Some M \<Longrightarrow> unhit L \<Longrightarrow> unhit M"
  "with_cmd i (finish_cmd readable) L = Some M \<Longrightarrow> unhit L \<Longrightarrow> unhit M"
  "with_cmd i end_listen L = Some M \<Longrightarrow> unhit L \<Longrightarrow> unhit M"
  by (erule with_cmd_unhit; auto simp: cmd_defs)+

lemma killer_moves_unhit:
  "take_signal L = Some M \<Longrightarrow> unhit L \<Longrightarrow> unhit M"
  "leave_killer L = Some M \<Longrightarrow> unhit L \<Longrightarrow> unhit M"
  by (auto simp: unhit_def take_signal_def leave_killer_def)

lemma send_kill_unhit: "send_kill i L = Some M \<Longrightarrow> unhit L \<Longrightarrow> unhit M"
proof -
  assume u: "unhit L" and "send_kill i L = Some M"
  then have i: "i < length (sl_cmds L)"
      "sl_cmds M = (sl_cmds L)[i := (sl_cmds L ! i)\<lparr>sc_listener := GotKill (sc_phase (sl_cmds L ! i) = Runs)\<rparr>]"
    by auto
  show "unhit M" by (rule cmds_unhit [OF u _ _ i(2)]) (use u i(1) in \<open>simp_all add: unhit_def list_all_length\<close>)
qed

lemma line_move_unhit: "line_move L M \<Longrightarrow> unhit L \<Longrightarrow> unhit M"
  unfolding line_move_def release_Some using cmd_moves_unhit killer_moves_unhit send_kill_unhit by blast

definition unhit_at :: "nat \<Rightarrow> sig_sys \<Rightarrow> bool" where
  "unhit_at l s \<longleftrightarrow> l < length (ss_lines s) \<and> unhit (ss_lines s ! l)"

lemma unhit_step:
  assumes "sig_step readable s t" and "unhit_at l s"
  shows "unhit_at l t"
  using assms(1)
proof (cases rule: step_cases)
  case (line m M)
  then show ?thesis using assms(2) line_move_unhit [OF line(2)] by (auto simp: unhit_at_def nth_list_update)
next
  case (finish m i M n)
  then show ?thesis using assms(2) cmd_moves_unhit(3) [OF finish(3)]
    by (auto simp: unhit_at_def nth_list_update simp del: with_cmd_Some)
next
  case (start ws rest)
  then show ?thesis using assms(2) by (auto simp: unhit_at_def nth_append)
next
  case (close c m ds M)
  then show ?thesis using assms(2)
    by (cases c) (auto simp: unhit_at_def nth_list_update close_chan_def unhit_def)
qed (use assms(2) in \<open>auto simp: unhit_at_def\<close>)

interpretation uh: stepping "sig_step readable" "unhit_at l" for readable l
  by unfold_locales (rule unhit_step)

lemma ended_unhit:
  assumes "line_ok L" and "unended L = 0" and "sl_killer L = KWait"
  shows "unhit L"
  using assms by (auto simp: line_ok_def unended_def kills_def unhit_def list_all_iff got_kill_def split: if_splits)

lemma sig_run_steps: "sig_run readable es s = Some t \<Longrightarrow> (sig_step readable)\<^sup>*\<^sup>* s t"
proof (induction es arbitrary: s)
  case (Cons e es)
  then obtain u where u: "sig_event readable e s = Some u" "sig_run readable es u = Some t"
    by (auto split: option.splits)
  then have "sig_step readable s u" unfolding sig_step_def by blast
  then show ?case using Cons.IH [OF u(2)] by (rule converse_rtranclp_into_rtranclp)
qed simp

text \<open>An ended command has reported, and the calls are deferred only when no statement is left.\<close>

definition honest :: "bool \<Rightarrow> sig_line \<Rightarrow> bool" where
  "honest readable L \<longleftrightarrow> list_all (\<lambda>c. sc_phase c = Ended \<longrightarrow> signals readable (sc_what c)) (sl_cmds L)"

lemma with_cmd_honest:
  assumes "with_cmd i f L = Some M" and "honest readable L"
    and "\<And>c d. f c = Some d \<Longrightarrow> sc_what d = sc_what c \<and> (sc_phase d = Ended \<longrightarrow> sc_phase c = Ended \<or> signals readable (sc_what c))"
  shows "honest readable M"
proof -
  from assms(1) obtain d where d: "i < length (sl_cmds L)" "f (sl_cmds L ! i) = Some d"
      "M = L\<lparr>sl_cmds := (sl_cmds L)[i := d]\<rparr>" by auto
  then have "sc_phase d = Ended \<longrightarrow> signals readable (sc_what d)"
    using assms(2) assms(3) [OF d(2)] by (auto simp: honest_def list_all_length)
  then show ?thesis
    using assms(2) d(3) by (auto simp: honest_def list_all_iff dest: set_update_subset_insert [THEN subsetD])
qed

lemma cmd_moves_honest:
  "with_cmd i begin_cmd L = Some M \<Longrightarrow> honest readable L \<Longrightarrow> honest readable M"
  "with_cmd i listen_cmd L = Some M \<Longrightarrow> honest readable L \<Longrightarrow> honest readable M"
  "with_cmd i (finish_cmd readable) L = Some M \<Longrightarrow> honest readable L \<Longrightarrow> honest readable M"
  "with_cmd i end_listen L = Some M \<Longrightarrow> honest readable L \<Longrightarrow> honest readable M"
  by (erule with_cmd_honest; auto simp: cmd_defs)+

lemma send_kill_honest: "send_kill i L = Some M \<Longrightarrow> honest readable L \<Longrightarrow> honest readable M"
  by (auto simp: honest_def list_all_iff dest!: set_update_subset_insert [THEN subsetD])

lemma killer_moves_honest:
  "take_signal L = Some M \<Longrightarrow> honest readable L \<Longrightarrow> honest readable M"
  "leave_killer L = Some M \<Longrightarrow> honest readable L \<Longrightarrow> honest readable M"
  "close_chan c L = Some M \<Longrightarrow> honest readable L \<Longrightarrow> honest readable M"
  by (auto simp: honest_def take_signal_def leave_killer_def close_chan_def split: sig_chan.splits)

lemma line_move_honest: "line_move L M \<Longrightarrow> honest readable L \<Longrightarrow> honest readable M"
  unfolding line_move_def release_Some
  by (elim disjE exE conjE)
    ((erule (1) cmd_moves_honest(1) cmd_moves_honest(2) cmd_moves_honest(4) send_kill_honest killer_moves_honest(1) killer_moves_honest(2))+)

definition reported :: "bool \<Rightarrow> sig_sys \<Rightarrow> bool" where
  "reported readable s \<longleftrightarrow> list_all (honest readable) (ss_lines s) \<and> (\<forall>ds. ss_main s = Defers ds \<longrightarrow> ss_todo s = [])"

lemma new_line_honest: "honest readable (new_line ws)"
  by (simp add: honest_def new_line_def new_cmd_def list_all_iff)

lemma reported_step:
  assumes "sig_step readable s t" and "reported readable s"
  shows "reported readable t"
  using assms(1)
proof (cases rule: step_cases)
  case (line l M)
  then show ?thesis using assms(2) line_move_honest [OF line(2)]
    by (auto simp: reported_def list_all_length nth_list_update)
next
  case (finish l i M n)
  then show ?thesis using assms(2) cmd_moves_honest(3) [OF finish(3)]
    by (auto simp: reported_def list_all_length nth_list_update simp del: with_cmd_Some)
next
  case (start ws rest)
  then show ?thesis using assms(2) new_line_honest by (simp add: reported_def)
next
  case (close c l ds M)
  then show ?thesis using assms(2) killer_moves_honest(3) [OF close(3)]
    by (auto simp: reported_def list_all_length nth_list_update)
qed (use assms(2) in \<open>auto simp: reported_def\<close>)

interpretation rp: stepping "sig_step readable" "reported readable" for readable
  by unfold_locales (rule reported_step)

lemma reached_reported: "(sig_step readable)\<^sup>*\<^sup>* (sig_start lines) s \<Longrightarrow> reported readable s"
  using rp.steps_inv [of readable "sig_start lines" s] by (simp add: reported_def sig_start_def)

lemma line_signals: "honest readable L \<Longrightarrow> unended L = 0 \<Longrightarrow> list_all (signals readable) (whats L)"
  by (auto simp: honest_def unended_def whats_def list_all_iff split: if_splits)

lemma unended_silent:
  assumes "honest readable L" and "list_all (\<lambda>c. sc_phase c \<noteq> Ended \<longrightarrow> \<not> signals readable (sc_what c)) (sl_cmds L)"
  shows "unended L = length (filter (\<lambda>w. \<not> signals readable w) (whats L))"
proof -
  have "sum_list (map (\<lambda>c. if sc_phase c = Ended then 0 else 1) cs) = length (filter (\<lambda>w. \<not> signals readable w) (map sc_what cs))"
    if "list_all (\<lambda>c. sc_phase c = Ended \<longleftrightarrow> signals readable (sc_what c)) cs" for cs
    using that by (induction cs) auto
  moreover have "list_all (\<lambda>c. sc_phase c = Ended \<longleftrightarrow> signals readable (sc_what c)) (sl_cmds L)"
    using assms by (auto simp: honest_def list_all_iff)
  ultimately show ?thesis by (simp add: unended_def whats_def)
qed

text \<open>The executor of \<open>Pshell\<close> on statements whose parts are known.\<close>

definition parts_of :: "nat \<Rightarrow> pipe_line list \<Rightarrow> started list \<Rightarrow> bool" where
  "parts_of count pline ws \<longleftrightarrow> obind (joinPipeLine pline) (starts count) = Done ws"

lemma line_end_parts:
  "parts_of count pline ws \<Longrightarrow> Quits \<notin> set ws \<Longrightarrow>
   line_end_of count readable pline = (if list_all (signals readable) ws then Finished count else Waits)"
  by (auto simp: parts_of_def line_end_of_def obind_Done_iff)

lemma parseExecutor_parts:
  "list_all2 (parts_of count) plines lines \<Longrightarrow> \<forall>ws \<in> set lines. Quits \<notin> set ws \<Longrightarrow>
   parseExecutor count readable pslice plines =
     (if list_all (list_all (signals readable)) lines
      then Finished (if build_in_only pslice then count else Suc count) else Waits)"
  by (induction rule: list_all2_induct) (auto simp: line_end_parts)

section \<open>Properties\<close>


definition demo_history :: "pipe_line list" where
  "demo_history = [\<lparr>pl_Args = [''%history''], pl_Operator = ''|''\<rparr>, \<lparr>pl_Args = [''!less''], pl_Operator = []\<rparr>]"

definition demo_parts :: "started list list" where
  "demo_parts = [[History, LocalCmd ''less'']]"


text \<open>C20 A later statement of a line can lose its interrupt: as long as it runs, the killer of every former
  statement still waits, because \<open>killExit\<close> is only closed at the return. When the signal goes to such a
  killer, the running statement is left as it was, and the kills reach no command that still runs.\<close>

theorem stale_killer_takes_signal:
  assumes "(sig_step readable)\<^sup>*\<^sup>* (sig_start lines) s"
    and "ss_main s = WaitCh n" and "ss_over s = None" and "Suc c = length (ss_lines s)" and "l < c"
    and "sl_killer (ss_lines s ! l) = KWait"
  shows "\<exists>t. sig_event readable (Signal l) s = Some t \<and> ss_lines t ! c = ss_lines s ! c
     \<and> (\<forall>u. (sig_step readable)\<^sup>*\<^sup>* t u \<longrightarrow> (\<forall>x \<in> set (sl_cmds (ss_lines u ! l)). sc_listener x \<noteq> GotKill True))"
proof -
  have inv: "sig_inv s" by (rule reached_inv [OF assms(1)])
  let ?t = "s\<lparr>ss_lines := (ss_lines s)[l := (ss_lines s ! l)\<lparr>sl_killer := KSend (length (sl_cmds (ss_lines s ! l)))\<rparr>]\<rparr>"
  have ev: "sig_event readable (Signal l) s = Some ?t"
    using assms inv by (auto simp: sig_event_def take_signal_def sig_inv_def main_ok_def)
  have "unhit (ss_lines s ! l)"
    using inv assms(4-6) by (intro ended_unhit) (auto simp: sig_inv_def waited_def list_all_length)
  then have "unhit_at l s" using assms(4,5) by (simp add: unhit_at_def)
  moreover have "sig_step readable s ?t" using ev unfolding sig_step_def by blast
  ultimately have "unhit_at l ?t" by (blast intro: unhit_step)
  then have "\<forall>u. (sig_step readable)\<^sup>*\<^sup>* ?t u \<longrightarrow> unhit_at l u" using uh.steps_inv by blast
  then show ?thesis using ev assms(5) by (intro exI [of _ ?t]) (auto simp: unhit_at_def unhit_def list_all_iff)
qed

definition demo_two :: "started list list" where
  "demo_two = [[RemoteCmd ''make''], [RemoteCmd ''make'']]"

definition demo_second :: "sig_event list" where
  "demo_second = [NextLine, Begin 0 0, Finish 0 0, NextLine, Begin 1 0]"

theorem stale_killer_takes_signal_witness:
  "\<exists>s t. sig_run True demo_second (sig_start demo_two) = Some s \<and> ss_main s = WaitCh 1
     \<and> sig_event True (Signal 0) s = Some t \<and> ss_lines t ! 1 = ss_lines s ! 1"
proof -
  obtain s where s: "sig_run True demo_second (sig_start demo_two) = Some s" "ss_main s = WaitCh 1" "ss_over s = None"
      "Suc 1 = length (ss_lines s)" "sl_killer (ss_lines s ! 0) = KWait"
    by (simp add: sig_event_def sig_start_def demo_second_def demo_two_def new_line_def new_cmd_def with_line_def with_cmd_def
        next_line_def guarded_def begin_cmd_def finish_cmd_def finish_line_def signals_def)
  from stale_killer_takes_signal [OF sig_run_steps [OF s(1)] s(2-4) _ s(5)] s show ?thesis by auto
qed

text \<open>C18 The goroutines refine the executor: whatever the interleaving and the signals, a run that can go no
  further by itself and was not ended has come back to the prompt exactly when the executor as a function of the
  line finishes; when it waits, the run stands at the first statement with a command that never reports, and
  waits for as many reports as there are such commands.\<close>

theorem goroutines_refine_executor:
  assumes "list_all2 (parts_of count) plines lines" and "\<forall>ws \<in> set lines. Quits \<notin> set ws"
    and "(sig_step readable)\<^sup>*\<^sup>* (sig_start lines) s" and "quiescent readable s" and "ss_over s = None"
  shows "(ss_main s = Defers []) = (parseExecutor count readable pslice plines \<noteq> Waits)
    \<and> (parseExecutor count readable pslice plines = Waits \<longrightarrow>
        (\<exists>l. Suc l = length (ss_lines s) \<and> list_all (list_all (signals readable)) (take l lines)
          \<and> ss_main s = WaitCh (length (filter (\<lambda>w. \<not> signals readable w) (lines ! l)))))"
proof -
  have inv: "sig_inv s" and rep: "reported readable s"
    using reached_inv reached_reported assms(3) by blast+
  have at: "whats (ss_lines s ! l) = lines ! l \<and> lines ! l \<in> set lines" if "l < length (ss_lines s)" for l
    using statement_nth [OF assms(3) that] .
  have told: "list_all (signals readable) (lines ! l)" if "l < length (ss_lines s)" "unended (ss_lines s ! l) = 0" for l
    using line_signals [of readable "ss_lines s ! l"] rep that at [of l] by (simp add: reported_def list_all_length)
  note exec = parseExecutor_parts [OF assms(1,2), of readable pslice]
  have quiet: "\<forall>l < length (ss_lines s). Quits \<notin> set (whats (ss_lines s ! l))" using at assms(2) by metis
  from stands [OF inv assms(5,4) quiet] show ?thesis
  proof (elim disjE exE conjE)
    assume main: "ss_main s = Defers []"
    then have "lines = map whats (ss_lines s)" using statements_kept [OF assms(3)] rep by (simp add: reported_def)
    moreover have "unended (ss_lines s ! l) = 0" if "l < length (ss_lines s)" for l
      using inv main that by (simp add: sig_inv_def waited_def)
    ultimately have "list_all (list_all (signals readable)) lines" using told by (simp add: list_all_length)
    then show ?thesis using exec main by simp
  next
    fix n l
    assume main: "ss_main s = WaitCh (Suc n)" and l: "Suc l = length (ss_lines s)" "unended (ss_lines s ! l) = Suc n"
      and silent: "list_all (\<lambda>c. sc_phase c \<noteq> Ended \<longrightarrow> \<not> signals readable (sc_what c)) (sl_cmds (ss_lines s ! l))"
    have n: "Suc n = length (filter (\<lambda>w. \<not> signals readable w) (lines ! l))"
      using unended_silent [OF _ silent] l rep at [of l] by (simp add: reported_def list_all_length)
    then have "filter (\<lambda>w. \<not> signals readable w) (lines ! l) \<noteq> []" by auto
    then have "\<not> list_all (signals readable) (lines ! l)"
    proof (rule contrapos_nn)
      assume "list_all (signals readable) (lines ! l)"
      then show "filter (\<lambda>w. \<not> signals readable w) (lines ! l) = []" by (simp add: filter_empty_conv list_all_iff)
    qed
    then have "\<not> list_all (list_all (signals readable)) lines" using at [of l] l(1) by (auto simp: list_all_iff)
    moreover have "list_all (list_all (signals readable)) (take l lines)"
      using told inv l(1) by (auto simp: list_all_length sig_inv_def waited_def)
    ultimately show ?thesis using exec main l(1) n by auto
  qed
qed

definition demo_clear :: "pipe_line list" where
  "demo_clear = [\<lparr>pl_Args = [''clear''], pl_Operator = []\<rparr>]"

theorem goroutines_refine_executor_witness:
  "\<exists>s. sig_run False [NextLine, Begin 0 0] (sig_start [[Clear]]) = Some s \<and> ss_main s = WaitCh 1
     \<and> parseExecutor 3 False [demo_clear] [demo_clear] = Waits"
proof -
  obtain s where s: "sig_run False [NextLine, Begin 0 0] (sig_start [[Clear]]) = Some s"
      "s = \<lparr>ss_lines = [\<lparr>sl_cmds = [\<lparr>sc_what = Clear, sc_phase = Runs, sc_listener = NoListener\<rparr>], sl_killer = KWait,
                         sl_kill_open = True, sl_exit_open = True\<rparr>],
            ss_todo = [], ss_main = WaitCh 1, ss_over = None\<rparr>"
    by (simp add: sig_event_def sig_start_def new_line_def new_cmd_def with_line_def with_cmd_def
        next_line_def guarded_def begin_cmd_def)
  have "quiescent False s"
    unfolding quiescent_def
  proof (intro allI impI)
    fix e assume e: "sig_event False e s \<noteq> None"
    then show "\<exists>l. e = Signal l"
      by (cases e) (auto simp: s(2) sig_event_def with_line_def with_cmd_def begin_cmd_def listen_cmd_def quit_cmd_def
          guarded_def finish_line_def finish_cmd_def signals_def next_line_def close_next_def leave_killer_def send_kill_def
          release_cmd_def crash_def split: if_splits)
  qed
  moreover have "list_all2 (parts_of 3) [demo_clear] [[Clear]]"
    by (simp add: parts_of_def demo_clear_def joinPipeLine_def run_start_def go_index_def checkLocalBuildInCommand_def
        checkBuildInCommand_def)
  ultimately have "(ss_main s = Defers []) = (parseExecutor 3 False [demo_clear] [demo_clear] \<noteq> Waits)"
    using goroutines_refine_executor [OF _ _ sig_run_steps [OF s(1)], where pslice = "[demo_clear]" and count = 3
        and plines = "[demo_clear]"] s(2) by (simp del: parseExecutor.simps)
  then show ?thesis using s by simp
qed

end
