(* ===== verification/Sftp_List.thy ===== *)
theory Sftp_List
  imports Sftp List_Text
begin

text \<open>
  The output of the listings of the sftp shell (src/sftp/cmd_ls.go, cmd_lls.go, cmd_df.go), its local
  commands (cmd_cd.go, cmd_mkdir.go, cmd_lls.go) and its start (main.go). A table is the lines handed
  to the tabwriter, a list in columns the names and the padding handed to the column printer.
\<close>

section \<open>Local listings (cmd_lls.go)\<close>

record local_file =
  loc_Name :: string
  loc_Mode :: string
  loc_owner :: "(nat \<times> nat \<times> nat) option"
  loc_Time :: string

text \<open>\<open>SyscallStat\<close>: user, group and size, zero for a file information of another kind.\<close>

definition SyscallStat :: "local_file \<Rightarrow> nat \<times> nat \<times> nat" where
  "SyscallStat f = (case loc_owner f of Some s \<Rightarrow> s | None \<Rightarrow> (0, 0, 0))"

definition in_parens :: "string \<Rightarrow> string \<Rightarrow> string" where
  "in_parens s n = s @ ''('' @ n @ '')''"

text \<open>The data of one file; a user or group that is not known has no name to print.\<close>

definition lls_cells ::
  "(nat \<Rightarrow> string) \<Rightarrow> (nat \<Rightarrow> string option) \<Rightarrow> (nat \<Rightarrow> string option) \<Rightarrow> local_file
   \<Rightarrow> (string \<times> string \<times> string) outcome" where
  "lls_cells human user_of group_of f =
     (case SyscallStat f of (uid, gid, sz) \<Rightarrow>
       (case user_of uid of
          None \<Rightarrow> Panic
        | Some u \<Rightarrow>
            (case group_of gid of
               None \<Rightarrow> Panic
             | Some g \<Rightarrow> Done (in_parens (format_uint uid) u, in_parens (format_uint gid) g,
                              in_parens (format_uint sz) (human sz)))))"

fun lls_data ::
  "(nat \<Rightarrow> string) \<Rightarrow> (nat \<Rightarrow> string option) \<Rightarrow> (nat \<Rightarrow> string option) \<Rightarrow> local_file list
   \<Rightarrow> (local_file \<times> string \<times> string \<times> string) list outcome" where
  "lls_data human user_of group_of [] = Done []"
| "lls_data human user_of group_of (f # fs) =
     obind (lls_cells human user_of group_of f) (\<lambda>c.
     obind (lls_data human user_of group_of fs) (\<lambda>rest. Done ((f, c) # rest)))"

definition max_width :: "string list \<Rightarrow> nat" where
  "max_width ss = foldl max 0 (map length ss)"

text \<open>\<open>longList\<close>: the three middle columns are printed one behind the other, each padded to its
  widest entry.\<close>

definition lls_row :: "nat \<times> nat \<times> nat \<Rightarrow> local_file \<times> string \<times> string \<times> string \<Rightarrow> string" where
  "lls_row w r =
     (case w of (maxUserWidth, maxGroupWidth, maxSizeWidth) \<Rightarrow>
      case r of (f, user, grp, sizestr) \<Rightarrow>
        loc_Mode f @ [tab] @ pad_left maxUserWidth user @ pad_left maxGroupWidth grp @ pad_left maxSizeWidth sizestr
        @ [tab] @ loc_Time f @ [tab] @ loc_Name f @ [newline])"

definition lls_longList ::
  "(nat \<Rightarrow> string) \<Rightarrow> (nat \<Rightarrow> string option) \<Rightarrow> (nat \<Rightarrow> string option) \<Rightarrow> local_file list \<Rightarrow> string list outcome" where
  "lls_longList human user_of group_of data =
     obind (lls_data human user_of group_of data) (\<lambda>lsData. Done (
       map (lls_row (max_width (map (\<lambda>(f, u, g, s). u) lsData), max_width (map (\<lambda>(f, u, g, s). g) lsData),
                     max_width (map (\<lambda>(f, u, g, s). s) lsData))) lsData))"

datatype listing = Rows "string list" | NameLines "string list" | NameColumns nat "string list" | NotListed

text \<open>\<open>llsAction\<close>: \<open>stat\<close> is the file itself or a directory with its entries (or the error of
  reading it).\<close>

definition llsAction ::
  "(nat \<Rightarrow> string) \<Rightarrow> (nat \<Rightarrow> string option) \<Rightarrow> (nat \<Rightarrow> string option) \<Rightarrow> (string \<Rightarrow> (local_file + local_file list option) option)
   \<Rightarrow> bool \<Rightarrow> bool \<Rightarrow> string \<Rightarrow> listing outcome" where
  "llsAction human user_of group_of stat l one argpath =
     (case stat (if argpath = [] then ''./'' else argpath) of
        None \<Rightarrow> Done NotListed
      | Some st \<Rightarrow>
          (case (case st of Inl f \<Rightarrow> Some [f] | Inr entries \<Rightarrow> entries) of
             None \<Rightarrow> Done NotListed
           | Some data \<Rightarrow>
               if l then obind (lls_longList human user_of group_of data) (\<lambda>rows. Done (Rows rows))
               else if one then Done (NameLines (map loc_Name data))
               else Done (NameColumns 0 (map loc_Name data))))"

section \<open>Remote listings (cmd_ls.go)\<close>

text \<open>The answers of the hosts, in the order of the map: the prompt, the files, passwd and group.\<close>

record host_list =
  hl_prompt :: string
  hl_files :: "file_info list"
  hl_passwd :: string
  hl_groups :: string

fun list_files ::
  "(nat \<Rightarrow> string) \<Rightarrow> (int \<Rightarrow> string) \<Rightarrow> ls_flags \<Rightarrow> nat \<Rightarrow> nat \<Rightarrow> host_list \<Rightarrow> file_info list \<Rightarrow> string list outcome" where
  "list_files human stamp fl hosts w h [] = Done []"
| "list_files human stamp fl hosts w h (f # fs) =
     obind (listFile human stamp fl hosts w (hl_prompt h) (hl_passwd h) (hl_groups h) f) (\<lambda>cells.
     obind (list_files human stamp fl hosts w h fs) (\<lambda>rest. Done ((str_join cells [tab] @ [newline]) # rest)))"

fun list_hosts ::
  "(nat \<Rightarrow> string) \<Rightarrow> (int \<Rightarrow> string) \<Rightarrow> ls_flags \<Rightarrow> nat \<Rightarrow> nat \<Rightarrow> host_list list \<Rightarrow> string list outcome" where
  "list_hosts human stamp fl hosts w [] = Done []"
| "list_hosts human stamp fl hosts w (h # hs) =
     obind (list_files human stamp fl hosts w h (hl_files h)) (\<lambda>rows.
     obind (list_hosts human stamp fl hosts w hs) (\<lambda>rest. Done (rows @ rest)))"

definition ls_longList ::
  "(nat \<Rightarrow> string) \<Rightarrow> (int \<Rightarrow> string) \<Rightarrow> ls_flags \<Rightarrow> host_list list \<Rightarrow> string list outcome" where
  "ls_longList human stamp fl lsdata =
     list_hosts human stamp fl (length lsdata) (max_size_width human fl (map hl_files lsdata)) lsdata"

text \<open>\<open>lsAction\<close>: one table for all hosts, or a list for each one behind its prompt; \<open>one\<close> is
  the option of a file per line.\<close>

definition lsAction ::
  "(nat \<Rightarrow> string) \<Rightarrow> (int \<Rightarrow> string) \<Rightarrow> ls_flags \<Rightarrow> bool \<Rightarrow> host_list list \<Rightarrow> listing list outcome" where
  "lsAction human stamp fl one lsdata =
     (if ls_l fl then obind (ls_longList human stamp fl lsdata) (\<lambda>rows. Done [Rows rows])
      else if one then Done (map (\<lambda>h. NameLines (map fi_Name (hl_files h))) lsdata)
      else Done (map (\<lambda>h. NameColumns (length (hl_prompt h)) (map fi_Name (hl_files h))) lsdata))"

section \<open>Space (cmd_df.go)\<close>

text \<open>\<open>getRemoteStat\<close> leaves a host out whose statistics fail; \<open>capacity\<close> is the printed
  quotient of two floats.\<close>

definition getRemoteStat ::
  "(string \<Rightarrow> string \<Rightarrow> 'v option) \<Rightarrow> string \<Rightarrow> sftp_client list \<Rightarrow> (string \<times> 'v) list" where
  "getRemoteStat statVFS argpath clients =
     List.map_filter (\<lambda>c. map_option (Pair (cl_server c)) (statVFS (cl_server c) (ls_path (cl_Pwd c) argpath))) clients"

definition df_row :: "(64 word \<Rightarrow> string) \<Rightarrow> bool \<Rightarrow> bool \<Rightarrow> (64 word \<Rightarrow> 64 word \<Rightarrow> string) \<Rightarrow> string
   \<Rightarrow> 64 word \<times> 64 word \<Rightarrow> 64 word \<times> 64 word \<Rightarrow> string" where
  "df_row ibytes i h capacity server inodes space =
     (let (totals, frees) = (if i then inodes else space)
      in concat (map (\<lambda>c. c @ [tab]) (df_columns ibytes i h server inodes space @ [capacity (totals - frees) totals @ ''%'']))
         @ [newline])"

definition dfAction ::
  "(64 word \<Rightarrow> string) \<Rightarrow> bool \<Rightarrow> bool \<Rightarrow> (64 word \<Rightarrow> 64 word \<Rightarrow> string)
   \<Rightarrow> (string \<times> (64 word \<times> 64 word) \<times> (64 word \<times> 64 word)) list \<Rightarrow> string list" where
  "dfAction ibytes i h capacity stats =
     (concat (map (\<lambda>c. c @ [tab]) [''Server'', if i then ''Inodes'' else ''TotalSize'', ''Used'', ''(root)'', ''Capacity'']) @ [newline])
     # map (\<lambda>(server, inodes, space). df_row ibytes i h capacity server inodes space) stats"

section \<open>Local commands and the start\<close>

text \<open>\<open>lcd\<close>: the directory to change to; an unknown user has no home.\<close>

definition lcd :: "string option \<Rightarrow> string list \<Rightarrow> string outcome" where
  "lcd home args =
     (case home of
        None \<Rightarrow> Panic
      | Some h \<Rightarrow> Done (if length args > 1 then args ! 1 else h))"

definition lmkdir :: "bool \<Rightarrow> string list \<Rightarrow> file_op option" where
  "lmkdir p args = (case args of [path] \<Rightarrow> Some (if p then MkdirAll path else Mkdir path) | _ \<Rightarrow> None)"

definition GetLocalComplete ::
  "(string \<Rightarrow> string) \<Rightarrow> (string \<Rightarrow> bool option) \<Rightarrow> (string \<Rightarrow> string list option) \<Rightarrow> string \<Rightarrow> string list option" where
  "GetLocalComplete expandHome isDir glob path0 =
     (let path = expandHome path0 in
      case isDir path of
        None \<Rightarrow> None
      | Some d \<Rightarrow> map_option (map path_base) (glob (if d then path_join [path, ''*''] else path @ ''*'')))"

text \<open>\<open>createSftpConnect\<close>: the hosts with a connection and an sftp client.\<close>

definition createSftpConnect :: "(string \<Rightarrow> bool) \<Rightarrow> (string \<Rightarrow> bool) \<Rightarrow> string list \<Rightarrow> sftp_client list" where
  "createSftpConnect connects client_ok targets = map new_client (filter (\<lambda>s. connects s \<and> client_ok s) targets)"

definition sftp_Start ::
  "(string \<Rightarrow> bool) \<Rightarrow> (string \<Rightarrow> bool) \<Rightarrow> string list \<Rightarrow> ((string \<Rightarrow> remote) \<times> string list) list \<Rightarrow> sftp_client list outcome" where
  "sftp_Start connects client_ok servers typed = sftp_session typed (createSftpConnect connects client_ok servers)"

section \<open>Facts\<close>

lemma foldl_max: "foldl max (m::nat) ns = max m (foldl max 0 ns)"
proof (induction ns arbitrary: m)
  case (Cons n ns)
  show ?case using Cons [of "max m n"] Cons [of n] by (simp add: max.assoc)
qed simp

lemma max_width_ge: "s \<in> set ss \<Longrightarrow> length s \<le> max_width ss"
proof (induction ss)
  case (Cons t ss)
  have "max_width (t # ss) = max (length t) (max_width ss)"
    using foldl_max [of "length t" "map length ss"] by (simp add: max_width_def)
  then show ?case using Cons by auto
qed simp

lemma pad_left_full: "w \<le> rune_count s \<Longrightarrow> pad_left w s = s"
  by (simp add: pad_left_def)

lemma lls_data_cells:
  "lls_data human user_of group_of fs = Done rs \<Longrightarrow>
   map fst rs = fs \<and> (\<forall>(f, c) \<in> set rs. lls_cells human user_of group_of f = Done c)"
proof (induction fs arbitrary: rs)
  case (Cons f fs)
  then obtain c rest where "lls_cells human user_of group_of f = Done c" "lls_data human user_of group_of fs = Done rest"
    "rs = (f, c) # rest" by (auto simp: obind_Done_iff)
  then show ?case using Cons.IH by simp
qed simp

lemma list_hosts_rows:
  "list_hosts human stamp fl n w hs = Done rows \<Longrightarrow> length rows = length (concat (map hl_files hs))"
proof (induction hs arbitrary: rows)
  case (Cons h hs)
  have files: "list_files human stamp fl n w h fs = Done rs \<Longrightarrow> length rs = length fs" for fs rs
    by (induction fs arbitrary: rs) (auto simp: obind_Done_iff)
  from Cons show ?case by (auto simp: obind_Done_iff files)
qed simp

lemma ascii_parens: "ascii x \<Longrightarrow> ascii (in_parens (format_uint n) x)"
proof -
  have "\<not> digit7 c" if "is_digit c" for c
    using that byte_ascii [of c] by (auto simp: is_digit_def)
  then show "ascii x \<Longrightarrow> ascii (in_parens (format_uint n) x)"
    using format_uint_digits by (auto simp: in_parens_def ascii_def list_all_iff)
qed

section \<open>Properties\<close>

text \<open>The owner, the group and the size of a local listing run into each other: the row of a single
  file has nothing between the three, it reads like one word, and the same holds for every row
  that has the widest group and size of a listing.\<close>

theorem lls_columns_touch:
  assumes "SyscallStat f = (uid, gid, sz)" and "user_of uid = Some u" and "group_of gid = Some g"
    and "ascii u" and "ascii g" and "ascii (human sz)"
  shows "lls_longList human user_of group_of [f] = Done [loc_Mode f @ [tab]
      @ in_parens (format_uint uid) u @ in_parens (format_uint gid) g @ in_parens (format_uint sz) (human sz)
      @ [tab] @ loc_Time f @ [tab] @ loc_Name f @ [newline]]"
proof -
  have "rune_count (in_parens (format_uint n) x) = length (in_parens (format_uint n) x)" if "ascii x" for n x
    using runes_ascii [OF ascii_parens [OF that, of n]] by (simp add: rune_count_def)
  then have "pad_left (max_width [in_parens (format_uint n) x]) (in_parens (format_uint n) x) = in_parens (format_uint n) x"
    if "ascii x" for n x
    using that by (simp add: pad_left_full max_width_def)
  with assms show ?thesis by (simp add: lls_longList_def lls_cells_def lls_row_def)
qed

lemma lls_columns_touch_witness:
  "lls_longList (\<lambda>_. ''4 B'') (\<lambda>_. Some ''root'') (\<lambda>_. Some ''wheel'')
     [\<lparr>loc_Name = ''f'', loc_Mode = ''-rw'', loc_owner = Some (0, 0, 4), loc_Time = ''t''\<rparr>]
   = Done [''-rw'' @ [tab] @ in_parens (format_uint 0) ''root'' @ in_parens (format_uint 0) ''wheel'' @ in_parens (format_uint 4) ''4 B''
       @ [tab] @ ''t'' @ [tab] @ ''f'' @ [newline]]"
  by (subst lls_columns_touch) (simp_all add: SyscallStat_def ascii_def)

text \<open>A long listing of the hosts has a row for every file of every host.\<close>

theorem ls_row_per_file:
  assumes "ls_longList human stamp fl lsdata = Done rows"
  shows "length rows = length (concat (map hl_files lsdata))"
  using assms list_hosts_rows by (auto simp: ls_longList_def)

end
