(* ===== verification/Sftp_Cmd.thy ===== *)
theory Sftp_Cmd
  imports Sftp_List
begin

text \<open>
  src/sftp: the commands as applications of the command-line library. A command line goes through
  \<open>ParseArgs\<close> with the flags of the command, then through the library (a parameter: the flags
  that are set and the operands, or none when it reports a wrong use), then to the action, which
  counts the operands and starts the work on every host.
\<close>

section \<open>Applications\<close>

record cli_app =
  ap_Name :: string
  ap_Usage :: string
  ap_ArgsUsage :: string
  ap_Flags :: "(string \<times> flag_kind) list"
  ap_HideHelp :: bool
  ap_HideVersion :: bool

record cli_ctx =
  cx_bool :: "string \<Rightarrow> bool"
  cx_args :: "string list"

definition builtin :: "string \<Rightarrow> string \<Rightarrow> string \<Rightarrow> string list \<Rightarrow> cli_app" where
  "builtin name usage argsUsage flags = \<lparr>ap_Name = name, ap_Usage = usage, ap_ArgsUsage = argsUsage,
     ap_Flags = map (\<lambda>f. (f, OtherFlag)) flags, ap_HideHelp = True, ap_HideVersion = True\<rparr>"

definition chgrp_app :: cli_app where
  "chgrp_app = builtin ''chgrp'' ''bssh ftp build-in command: chgrp [remote machine chgrp]'' ''[group path]'' []"

definition chmod_app :: cli_app where
  "chmod_app = builtin ''chmod'' ''bssh ftp build-in command: chmod [remote machine chmod]'' ''[perm path]'' []"

definition chown_app :: cli_app where
  "chown_app = builtin ''chown'' ''bssh ftp build-in command: chown [remote machine chown]'' ''[user path]'' []"

definition df_app :: cli_app where
  "df_app = builtin ''df'' ''bssh ftp build-in command: df [remote machine df]'' ''[PATH]'' [''h'', ''i'']"

definition get_app :: cli_app where
  "get_app = builtin ''get'' ''bssh ftp build-in command: get'' ''[source(remote) target(local)]'' []"

definition lls_app :: cli_app where
  "lls_app = builtin ''lls'' ''bssh ftp build-in command: lls [local machine ls]'' ''[PATH]'' [''1'', ''a'', ''f'', ''h'', ''l'', ''n'', ''r'', ''S'', ''t'']"

definition lmkdir_app :: cli_app where
  "lmkdir_app = builtin ''lmkdir'' ''bssh ftp build-in command: lmkdir [local machine mkdir]'' ''[PATH]'' [''p'']"

definition ls_app :: cli_app where
  "ls_app = builtin ''ls'' ''bssh ftp build-in command: ls [remote machine ls]'' ''[PATH]'' [''1'', ''a'', ''f'', ''h'', ''l'', ''n'', ''r'', ''S'', ''t'']"

definition mkdir_app :: cli_app where
  "mkdir_app = builtin ''mkdir'' ''bssh ftp build-in command: mkdir [remote machine mkdir]'' ''[PATH]'' [''p'']"

definition put_app :: cli_app where
  "put_app = builtin ''put'' ''bssh ftp build-in command: put'' ''[source(local) target(remote)]'' []"

definition rename_app :: cli_app where
  "rename_app = builtin ''rename'' ''bssh ftp build-in command: rename [remote machine rename]'' ''[path path]'' []"

definition rm_app :: cli_app where
  "rm_app = builtin ''rm'' ''bssh ftp build-in command: rm [remote machine rm]'' '''' [''r'']"

definition rmdir_app :: cli_app where
  "rmdir_app = builtin ''rmdir'' ''bssh ftp build-in command: rmdir [remote machine rmdir]'' '''' []"

definition symlink_app :: cli_app where
  "symlink_app = builtin ''symlink'' ''bssh ftp build-in command: symlink [remote machine symlink]'' ''[source target]'' []"

definition sftp_apps :: "cli_app list" where
  "sftp_apps = [chgrp_app, chmod_app, chown_app, df_app, get_app, lls_app, lmkdir_app, ls_app, mkdir_app, put_app, rename_app, rm_app, rmdir_app, symlink_app]"


text \<open>\<open>args = common.ParseArgs(app.Flags, args); app.Run(args)\<close>\<close>

definition run_app :: "(cli_app \<Rightarrow> string list \<Rightarrow> cli_ctx option) \<Rightarrow> cli_app \<Rightarrow> string list \<Rightarrow> cli_ctx option outcome" where
  "run_app cli app args = obind (ParseArgs (ap_Flags app) args) (\<lambda>as. Done (cli app as))"

section \<open>Actions on all hosts\<close>

text \<open>One goroutine per host and one message of each on \<open>exit\<close>; a panic of one ends the program.\<close>

fun on_hosts :: "(sftp_client \<Rightarrow> 'a outcome) \<Rightarrow> sftp_client list \<Rightarrow> (string \<times> 'a) list outcome" where
  "on_hosts act [] = Done []"
| "on_hosts act (c # cs) = obind (act c) (\<lambda>a. obind (on_hosts act cs) (\<lambda>as. Done ((cl_server c, a) # as)))"

definition with_two :: "(string \<Rightarrow> string \<Rightarrow> sftp_client \<Rightarrow> action outcome) \<Rightarrow> cli_ctx \<Rightarrow> sftp_client list \<Rightarrow> (string \<times> action) list outcome" where
  "with_two act cx clients = (case cx_args cx of [a, b] \<Rightarrow> on_hosts (act a b) clients | _ \<Rightarrow> Done [])"

definition with_one :: "(string \<Rightarrow> sftp_client \<Rightarrow> action outcome) \<Rightarrow> cli_ctx \<Rightarrow> sftp_client list \<Rightarrow> (string \<times> action) list outcome" where
  "with_one act cx clients = (case cx_args cx of [a] \<Rightarrow> on_hosts (act a) clients | _ \<Rightarrow> Done [])"

definition chgrpAction :: "(string \<Rightarrow> remote) \<Rightarrow> cli_ctx \<Rightarrow> sftp_client list \<Rightarrow> (string \<times> action) list outcome" where
  "chgrpAction re = with_two (\<lambda>grp path c. doChgrp (re (cl_server c)) (cl_Pwd c) grp path)"

definition chownAction :: "(string \<Rightarrow> remote) \<Rightarrow> cli_ctx \<Rightarrow> sftp_client list \<Rightarrow> (string \<times> action) list outcome" where
  "chownAction re = with_two (\<lambda>user path c. doChown (re (cl_server c)) (cl_Pwd c) user path)"

definition chmodAction :: "(string \<Rightarrow> remote) \<Rightarrow> cli_ctx \<Rightarrow> sftp_client list \<Rightarrow> (string \<times> action) list outcome" where
  "chmodAction re = with_two (\<lambda>mode path c. Done (doChmod (re (cl_server c)) (cl_Pwd c) mode path))"

definition renameAction :: "(string \<Rightarrow> remote) \<Rightarrow> cli_ctx \<Rightarrow> sftp_client list \<Rightarrow> (string \<times> action) list outcome" where
  "renameAction re = with_two (\<lambda>oldname newname c. Done (doRename (re (cl_server c)) oldname newname))"

definition symlinkAction :: "(string \<Rightarrow> remote) \<Rightarrow> cli_ctx \<Rightarrow> sftp_client list \<Rightarrow> (string \<times> action) list outcome" where
  "symlinkAction re = with_two (\<lambda>source target c. Done (doSymlink (re (cl_server c)) (cl_Pwd c) source target))"

definition mkdirAction :: "(string \<Rightarrow> remote) \<Rightarrow> cli_ctx \<Rightarrow> sftp_client list \<Rightarrow> (string \<times> action) list outcome" where
  "mkdirAction re cx = with_one (\<lambda>path c. Done (doMkdir (re (cl_server c)) (cx_bool cx ''p'') (cl_Pwd c) path)) cx"

definition rmAction ::
  "(string \<Rightarrow> remote) \<Rightarrow> (string \<Rightarrow> string \<Rightarrow> (bool \<times> string) list) \<Rightarrow> cli_ctx \<Rightarrow> sftp_client list \<Rightarrow> (string \<times> action) list outcome" where
  "rmAction re walked cx =
     with_one (\<lambda>path c. Done (doRM (re (cl_server c)) (cx_bool cx ''r'') (walked (cl_server c)) (cl_Pwd c) path)) cx"

text \<open>\<open>rmdir\<close> works on the hosts in turn.\<close>

definition rmdirAction :: "(string \<Rightarrow> remote) \<Rightarrow> cli_ctx \<Rightarrow> sftp_client list \<Rightarrow> (string \<times> action) list" where
  "rmdirAction re cx clients = (case cx_args cx of [path] \<Rightarrow> rmdir_loop re path clients | _ \<Rightarrow> [])"

definition lmkdirAction :: "cli_ctx \<Rightarrow> file_op option" where
  "lmkdirAction cx = lmkdir (cx_bool cx ''p'') (cx_args cx)"

text \<open>\<open>c.Args().First()\<close> is empty without operands.\<close>

definition first_arg :: "cli_ctx \<Rightarrow> string" where
  "first_arg cx = (case cx_args cx of [] \<Rightarrow> [] | a # as \<Rightarrow> a)"

definition ls_options :: "cli_ctx \<Rightarrow> ls_flags" where
  "ls_options cx = \<lparr>ls_a = cx_bool cx ''a'', ls_f = cx_bool cx ''f'', ls_h = cx_bool cx ''h'', ls_l = cx_bool cx ''l'',
     ls_n = cx_bool cx ''n'', ls_r = cx_bool cx ''r'', ls_S = cx_bool cx ''S'', ls_t = cx_bool cx ''t''\<rparr>"

text \<open>The listings of the hosts that answer: another host is left out.\<close>

definition ls_hosts ::
  "(string \<Rightarrow> remote) \<Rightarrow> (string \<Rightarrow> string \<Rightarrow> file_info) \<Rightarrow> (string \<Rightarrow> string \<Rightarrow> file_info list option) \<Rightarrow> (string \<Rightarrow> string)
   \<Rightarrow> cli_ctx \<Rightarrow> sftp_client list \<Rightarrow> host_list list" where
  "ls_hosts re info_of readDir prompt cx clients =
     concat (map (\<lambda>c. case doLs (re (cl_server c)) (info_of (cl_server c)) (readDir (cl_server c)) (ls_options cx) (cl_Pwd c) (first_arg cx) of
         None \<Rightarrow> []
       | Some (files, passwd, groups) \<Rightarrow>
           [\<lparr>hl_prompt = prompt (cl_server c), hl_files = files, hl_passwd = passwd, hl_groups = groups\<rparr>]) clients)"

definition ls_command ::
  "(string \<Rightarrow> remote) \<Rightarrow> (string \<Rightarrow> string \<Rightarrow> file_info) \<Rightarrow> (string \<Rightarrow> string \<Rightarrow> file_info list option) \<Rightarrow> (string \<Rightarrow> string)
   \<Rightarrow> (nat \<Rightarrow> string) \<Rightarrow> (int \<Rightarrow> string) \<Rightarrow> cli_ctx \<Rightarrow> sftp_client list \<Rightarrow> listing list outcome" where
  "ls_command re info_of readDir prompt human stamp cx clients =
     lsAction human stamp (ls_options cx) (cx_bool cx ''1'') (ls_hosts re info_of readDir prompt cx clients)"

section \<open>A line that changes the hosts\<close>

definition change_action ::
  "(string \<Rightarrow> remote) \<Rightarrow> (string \<Rightarrow> string \<Rightarrow> (bool \<times> string) list) \<Rightarrow> string \<Rightarrow> cli_ctx \<Rightarrow> sftp_client list \<Rightarrow> (string \<times> action) list outcome" where
  "change_action re walked cmd cx clients =
     (if cmd = ''chgrp'' then chgrpAction re cx clients
      else if cmd = ''chmod'' then chmodAction re cx clients
      else if cmd = ''chown'' then chownAction re cx clients
      else if cmd = ''mkdir'' then mkdirAction re cx clients
      else if cmd = ''rename'' then renameAction re cx clients
      else if cmd = ''rm'' then rmAction re walked cx clients
      else if cmd = ''rmdir'' then Done (rmdirAction re cx clients)
      else if cmd = ''symlink'' then symlinkAction re cx clients
      else Done [])"

definition change_line ::
  "(cli_app \<Rightarrow> string list \<Rightarrow> cli_ctx option) \<Rightarrow> (string \<Rightarrow> remote) \<Rightarrow> (string \<Rightarrow> string \<Rightarrow> (bool \<times> string) list)
   \<Rightarrow> string list \<Rightarrow> sftp_client list \<Rightarrow> (string \<times> action) list outcome" where
  "change_line cli re walked cmdline clients =
     obind (Executor cmdline) (\<lambda>c. case c of
       CmdAction cmd args \<Rightarrow>
         (case find (\<lambda>a. ap_Name a = cmd) sftp_apps of
            None \<Rightarrow> Done []
          | Some app \<Rightarrow> obind (run_app cli app args) (\<lambda>r. case r of
              None \<Rightarrow> Done []
            | Some cx \<Rightarrow> change_action re walked cmd cx clients))
     | _ \<Rightarrow> Done [])"

section \<open>Facts\<close>

lemma on_hosts_all: "on_hosts act cs = Done rs \<Longrightarrow> map fst rs = map cl_server cs"
  by (induction act cs arbitrary: rs rule: on_hosts.induct) (auto simp: obind_Done_iff)

lemma on_hosts_each:
  "on_hosts act cs = Done rs \<Longrightarrow> i < length cs \<Longrightarrow> act (cs ! i) = Done (snd (rs ! i))"
proof (induction act cs arbitrary: rs i rule: on_hosts.induct)
  case (2 act c cs)
  then show ?case by (cases i) (auto simp: obind_Done_iff)
qed simp

text \<open>Flags without values: the words behind the first operand are not touched.\<close>

lemma valued_upd: "valued (m(n \<mapsto> k)) s = (if s = n then takes_string k else valued m s)"
  by (simp add: valued_def)

lemma add_names_plain: "\<not> takes_string k \<Longrightarrow> \<forall>s. \<not> valued m s \<Longrightarrow> \<not> valued (add_names k ns m) t"
  by (induction ns arbitrary: m) (simp_all add: valued_upd)

lemma option_map_plain:
  "\<forall>(n, k) \<in> set ops. \<not> takes_string k \<Longrightarrow> \<forall>s. \<not> valued m s \<Longrightarrow> \<not> valued (option_map ops m) t"
  by (induction ops m rule: option_map.induct) (simp_all add: add_names_plain)

lemma parse_loop_no_values:
  assumes "\<And>s. \<not> valued om s" and "\<forall>q \<in> set opts. optionReg q" and "\<not> optionReg x"
  shows "parse_loop om False (opts @ x # rest) = concat (map expand_arg opts) @ x # rest"
proof -
  have none: "\<not> list_ex (valued om) ss" for ss using assms(1) by (simp add: list_ex_iff)
  show ?thesis using assms(2,3) by (induction opts) (simp_all add: expand_arg_def none assms(1))
qed

lemmas sftp_app_defs = chgrp_app_def chmod_app_def chown_app_def df_app_def get_app_def lls_app_def lmkdir_app_def
  ls_app_def mkdir_app_def put_app_def rename_app_def rm_app_def rmdir_app_def symlink_app_def

lemma builtin_simps [simp]:
  "ap_Name (builtin n u a fs) = n" "ap_Flags (builtin n u a fs) = map (\<lambda>f. (f, OtherFlag)) fs"
  by (simp_all add: builtin_def)

lemma sftp_flags_plain: "app \<in> set sftp_apps \<Longrightarrow> \<forall>(n, k) \<in> set (ap_Flags app). \<not> takes_string k"
proof -
  have "list_all (\<lambda>app. list_all (\<lambda>(n, k). \<not> takes_string k) (ap_Flags app)) sftp_apps" by code_simp
  then show "app \<in> set sftp_apps \<Longrightarrow> \<forall>(n, k) \<in> set (ap_Flags app). \<not> takes_string k" by (auto simp: list_all_iff)
qed

lemma sftp_ParseArgs:
  assumes "app \<in> set sftp_apps" and "\<forall>q \<in> set opts. optionReg q" and "\<not> optionReg x"
  shows "ParseArgs (ap_Flags app) (cmd # opts @ x # rest) = Done (cmd # concat (map expand_arg opts) @ x # rest)"
proof -
  have "\<not> valued (option_map (ap_Flags app) Map.empty) s" for s
    by (rule option_map_plain [OF sftp_flags_plain [OF assms(1)]]) (simp add: valued_def)
  then show ?thesis using parse_loop_no_values assms(2,3) by (simp add: ParseArgs_def)
qed

definition arity :: "string \<Rightarrow> nat" where
  "arity cmd = (if cmd = ''mkdir'' \<or> cmd = ''rm'' then 1 else 2)"

definition parallel_commands :: "string list" where
  "parallel_commands = [''chgrp'', ''chmod'', ''chown'', ''mkdir'', ''rename'', ''rm'', ''symlink'']"

lemma with_two_hosts: "with_two act cx clients = Done rs \<Longrightarrow> map fst rs = (if length (cx_args cx) = 2 then map cl_server clients else [])"
  by (auto simp: with_two_def on_hosts_all numeral_2_eq_2 length_Suc_conv split: list.splits)

lemma with_one_hosts: "with_one act cx clients = Done rs \<Longrightarrow> map fst rs = (if length (cx_args cx) = 1 then map cl_server clients else [])"
  by (auto simp: with_one_def on_hosts_all length_Suc_conv split: list.splits)

lemma change_action_hosts:
  assumes "cmd \<in> set parallel_commands" and "change_action re walked cmd cx clients = Done rs"
  shows "map fst rs = (if length (cx_args cx) = arity cmd then map cl_server clients else [])"
proof -
  have "cmd = ''chgrp'' \<or> cmd = ''chmod'' \<or> cmd = ''chown'' \<or> cmd = ''mkdir'' \<or> cmd = ''rename'' \<or> cmd = ''rm'' \<or> cmd = ''symlink''"
    using assms(1) by (simp add: parallel_commands_def)
  then show ?thesis
    using assms(2)
    by (elim disjE; simp add: change_action_def arity_def chgrpAction_def chmodAction_def chownAction_def mkdirAction_def
        renameAction_def rmAction_def symlinkAction_def with_two_hosts with_one_hosts)
qed

lemma parallel_dispatch:
  assumes "cmd \<in> set parallel_commands"
  shows "Executor (cmd # args) = Done (CmdAction cmd (cmd # args))"
  using assms by (auto simp: parallel_commands_def Executor_def go_index_def)

lemma parallel_app:
  assumes "cmd \<in> set parallel_commands"
  obtains app where "app \<in> set sftp_apps" "find (\<lambda>a. ap_Name a = cmd) sftp_apps = Some app"
proof -
  have "set parallel_commands \<subseteq> set (map ap_Name sftp_apps)" by code_simp
  then have "\<exists>app \<in> set sftp_apps. ap_Name app = cmd" using assms by auto
  then have "find (\<lambda>a. ap_Name a = cmd) sftp_apps \<noteq> None" by (auto simp: find_None_iff)
  then show ?thesis using that by (force simp: find_Some_iff)
qed

section \<open>Properties\<close>

text \<open>A command that changes the hosts: the options in front of its first operand are split, the
  words behind it are left alone; with the number of operands it needs it works on every host, in
  their order, and with any other number on none.\<close>

theorem change_command_hosts:
  assumes "cmd \<in> set parallel_commands" and "\<forall>q \<in> set opts. optionReg q" and "\<not> optionReg x"
    and "\<forall>app. ap_Name app = cmd \<longrightarrow> cli app (cmd # concat (map expand_arg opts) @ x # rest) = Some cx" and "cx_args cx = x # rest"
    and "change_line cli re walked (cmd # opts @ x # rest) clients = Done rs"
  shows "map fst rs = (if length (x # rest) = arity cmd then map cl_server clients else [])"
proof -
  obtain app where app: "app \<in> set sftp_apps" "find (\<lambda>a. ap_Name a = cmd) sftp_apps = Some app"
    using parallel_app [OF assms(1)] .
  then have "ap_Name app = cmd" by (auto simp: find_Some_iff)
  then have "run_app cli app (cmd # opts @ x # rest) = Done (Some cx)"
    using assms(4) by (simp add: run_app_def sftp_ParseArgs [OF app(1) assms(2,3)])
  then have "change_action re walked cmd cx clients = Done rs"
    using assms(6) by (simp add: change_line_def parallel_dispatch [OF assms(1)] app(2))
  from change_action_hosts [OF assms(1) this] show ?thesis using assms(5) by simp
qed

definition demo_host :: remote where
  "demo_host = \<lparr>re_readlink = Map.empty, re_lstat = Map.empty, re_read = Map.empty, re_ok = (\<lambda>_. True)\<rparr>"

lemma change_command_hosts_witness:
  "\<exists>rs. change_line (\<lambda>app as. Some \<lparr>cx_bool = (\<lambda>n. n = ''p''), cx_args = [''d'']\<rparr>) (\<lambda>_. demo_host) (\<lambda>_ _. [])
      (''mkdir'' # [''-p''] @ ''d'' # []) [new_client ''web'', new_client ''db''] = Done rs
    \<and> map fst rs = [''web'', ''db'']"
proof -
  let ?cx = "\<lparr>cx_bool = (\<lambda>n. n = ''p''), cx_args = [''d'']\<rparr>"
  have c: "''mkdir'' \<in> set parallel_commands" by (simp add: parallel_commands_def)
  have o: "optionReg ''-p''" "\<not> optionReg ''d''" by (simp_all add: optionReg_def)
  obtain app where app: "app \<in> set sftp_apps" "find (\<lambda>a. ap_Name a = ''mkdir'') sftp_apps = Some app"
    using parallel_app [OF c] .
  have "ParseArgs (ap_Flags app) (''mkdir'' # [''-p''] @ ''d'' # []) = Done (''mkdir'' # concat (map expand_arg [''-p'']) @ ''d'' # [])"
    by (rule sftp_ParseArgs [OF app(1)]) (use o in simp_all)
  then obtain rs where rs: "change_line (\<lambda>app as. Some ?cx) (\<lambda>_. demo_host) (\<lambda>_ _. [])
      (''mkdir'' # [''-p''] @ ''d'' # []) [new_client ''web'', new_client ''db''] = Done rs"
    by (simp add: change_line_def parallel_dispatch [OF c] app(2) run_app_def change_action_def mkdirAction_def with_one_def)
  have "map fst rs = map cl_server [new_client ''web'', new_client ''db'']"
    using change_command_hosts [OF c _ o(2) _ _ rs, of ?cx] o(1) by (simp add: arity_def)
  then show ?thesis using rs by (intro exI [of _ rs]) (simp add: new_client_def)
qed

end
