(* ===== verification/App_Main.thy ===== *)
theory App_Main
  imports App Sftp_Cmd
begin

text \<open>
  src/cmd/bssh/main.go and src/app: the program from its command line to the start of a run, a copy or
  an sftp shell. \<open>main\<close> chooses the application, splits its short options and gives the words to
  the command-line library; the actions read the configuration, expand the hosts and ask the menu.
\<close>

section \<open>The applications\<close>

definition host_flags :: "(string \<times> flag_kind) list" where
  "host_flags = [(''host,H'', StringSliceFlag), (''cnf,c'', StringFlag)]"

definition lssh_app :: cli_app where
  "lssh_app = \<lparr>ap_Name = ''bssh'', ap_Usage = ''TUI list select and parallel ssh client command.'', ap_ArgsUsage = [],
     ap_Flags = host_flags
       @ [(''L'', StringFlag), (''R'', StringFlag), (''D'', StringFlag),
          (''w'', OtherFlag), (''W'', OtherFlag), (''not-execute,N'', OtherFlag), (''x11,X'', OtherFlag), (''term,t'', OtherFlag),
          (''parallel,p'', OtherFlag), (''localrc'', OtherFlag), (''not-localrc'', OtherFlag), (''pshell,s'', OtherFlag),
          (''list,l'', OtherFlag), (''help,h'', OtherFlag)],
     ap_HideHelp = True, ap_HideVersion = False\<rparr>"

definition lscp_app :: cli_app where
  "lscp_app = \<lparr>ap_Name = ''bssh scp'', ap_Usage = ''TUI list select and parallel scp client command.'', ap_ArgsUsage = [],
     ap_Flags = host_flags @ [(''help,h'', OtherFlag)], ap_HideHelp = True, ap_HideVersion = False\<rparr>"

definition lsftp_app :: cli_app where
  "lsftp_app = \<lparr>ap_Name = ''bssh ftp'', ap_Usage = ''TUI list select and parallel sftp client command.'', ap_ArgsUsage = [],
     ap_Flags = host_flags @ [(''help,h'', OtherFlag)], ap_HideHelp = True, ap_HideVersion = False\<rparr>"

definition app_of :: "command \<Rightarrow> cli_app" where
  "app_of cmd = (case cmd of Lssh \<Rightarrow> lssh_app | Lscp \<Rightarrow> lscp_app | Lsftp \<Rightarrow> lsftp_app)"

text \<open>\<open>main\<close>: the application and the words it runs on. \<open>rest\<close> is what the first parser
  (pflag, with the options \<open>-H\<close> and \<open>-c\<close>) leaves of the arguments.\<close>

definition main_words :: "string \<Rightarrow> string list \<Rightarrow> string list \<Rightarrow> (command \<times> string list) outcome" where
  "main_words prog args rest =
     (let (cmd, as) = main_command prog args rest
      in obind (ParseArgs (ap_Flags (app_of cmd)) as) (\<lambda>ws. Done (cmd, ws)))"

text \<open>\<open>CheckHelpFlag\<close>\<close>

definition CheckHelpFlag :: "bool \<Rightarrow> unit outcome" where
  "CheckHelpFlag help = (if help then Exit 0 else Done ())"

section \<open>The actions\<close>

text \<open>The hosts and the names for the menu from \<open>ExpandHosts\<close>: candidates replace the names.\<close>

definition hosts_names :: "string list + string list \<Rightarrow> string list \<Rightarrow> string list \<times> string list" where
  "hosts_names expanded names = (case expanded of Inl searchNames \<Rightarrow> ([], searchNames) | Inr hosts \<Rightarrow> (hosts, names))"

text \<open>\<open>lsshAction\<close>: the run to start, \<open>None\<close> while the menu waits. \<open>expand\<close> is the result
  of \<open>ExpandHosts\<close> on the configuration and \<open>menu\<close> the server menu. \<open>processListFlag\<close>
  prints the names and ends the program.\<close>

definition processListFlag :: "bool \<Rightarrow> unit outcome" where
  "processListFlag listed = (if listed then Exit 0 else Done ())"

definition lsshAction ::
  "bool \<Rightarrow> bool \<Rightarrow> cli_flags \<Rightarrow> (string list + string list) outcome \<Rightarrow> string list
   \<Rightarrow> (string \<Rightarrow> string list \<Rightarrow> bool \<Rightarrow> string list option outcome) \<Rightarrow> (run_opts \<times> string) option outcome" where
  "lsshAction help listed c expand names menu =
     obind (CheckHelpFlag help) (\<lambda>_. obind expand (\<lambda>r.
       let (hosts, names') = hosts_names r names in
       obind (processListFlag listed) (\<lambda>_.
       obind (parseSelected menu ''bssh>>'' hosts names' (parseMultiFlag c)) (\<lambda>sel.
         Done (map_option (lssh_run c) sel)))))"

definition lsftpAction ::
  "bool \<Rightarrow> (string list + string list) outcome \<Rightarrow> string list
   \<Rightarrow> (string \<Rightarrow> string list \<Rightarrow> bool \<Rightarrow> string list option outcome) \<Rightarrow> string list option outcome" where
  "lsftpAction help expand names menu =
     obind (CheckHelpFlag help) (\<lambda>_. obind expand (\<lambda>r.
       let (hosts, names') = hosts_names r names in parseSelected menu ''bssh ftp>>'' hosts names' True))"

text \<open>\<open>lscpAction\<close>: the options behind the first words go to \<open>ExpandHosts\<close>, the rest are the paths.\<close>

definition lscpAction ::
  "bool \<Rightarrow> (arg_option list \<Rightarrow> (string list + string list) outcome) \<Rightarrow> string list
   \<Rightarrow> (string \<Rightarrow> string list \<Rightarrow> bool \<Rightarrow> string list option outcome) \<Rightarrow> (string \<Rightarrow> string) \<Rightarrow> (string \<Rightarrow> bool)
   \<Rightarrow> string list \<Rightarrow> (scp_info \<times> scp_info) option outcome" where
  "lscpAction help expand names menu fullPath exists words =
     obind (CheckHelpFlag help) (\<lambda>_.
       let (args, argOptions) = ParseMoreOptions words in
       if length args < 2 then Exit 1
       else obind (expand argOptions) (\<lambda>r.
         let (hosts, names') = hosts_names r names
         in lscp_infos menu fullPath exists hosts names' args))"

text \<open>\<open>printFromTo\<close>, the two lines on stderr; \<open>show_paths\<close> prints a list of paths.\<close>

definition printFromTo :: "(string list \<Rightarrow> string) \<Rightarrow> bool \<Rightarrow> scp_info \<Rightarrow> scp_info \<Rightarrow> bool \<Rightarrow> string list" where
  "printFromTo show_paths isFromInRemote src dst isToRemote =
     [(if \<not> isFromInRemote then ''From local:'' else ''From remote('' @ str_join (si_Server src) '','' @ ''):'') @ show_paths (si_Path src) @ [newline],
      (if \<not> isToRemote then ''To   local:'' else ''To   remote('' @ str_join (si_Server dst) '','' @ ''):'') @ show_paths (si_Path dst) @ [newline]]"

section \<open>Facts\<close>

lemma split_no_comma: "c \<notin> set s \<Longrightarrow> split_on c s = [s]"
  using split_on_join [of "[s]" c] by simp

text \<open>\<open>-H\<close> takes a value in every application.\<close>

lemma host_valued: "valued (option_map (ap_Flags (app_of cmd)) Map.empty) ''-H''"
proof -
  have "option_map (ap_Flags (app_of cmd)) Map.empty ''-H'' = Some StringSliceFlag"
    by (cases cmd; simp add: app_of_def lssh_app_def lscp_app_def lsftp_app_def host_flags_def option_key_def)
  then show ?thesis by (simp add: valued_def)
qed

section \<open>Properties\<close>

text \<open>C14 A remote command behind a host option is torn apart: the option takes a value, after which the
  split of short options never stops, so \<open>main\<close> hands every combined option of the remote command
  to the library as single ones, and with it the command that the hosts run.\<close>

theorem remote_command_torn:
  assumes "words \<noteq> []" and "hd words \<notin> {''scp'', ''ftp'', ''ssh''}"
  shows "main_words prog (''-H'' # host # words) words
    = Done (Lssh, prog # ''-H'' # expand_arg host @ concat (map expand_arg words))"
proof -
  obtain w ws where w: "words = w # ws" using assms(1) by (cases words) auto
  have cmd: "main_command prog (''-H'' # host # words) words = (Lssh, prog # ''-H'' # host # words)"
    using assms(2) by (simp add: main_command_def w)
  have h: "optionReg ''-H''" "\<not> parseReg ''-H''"
    by (simp_all add: optionReg_def parseReg_def to_runes_def runes_ascii ascii_def)
  have "ParseArgs (ap_Flags (app_of Lssh)) (prog # ''-H'' # host # words) = Done (prog # ''-H'' # concat (map expand_arg (host # words)))"
    by (rule valued_option_never_ends [OF h host_valued])
  then show ?thesis by (simp add: main_words_def cmd)
qed

lemma remote_command_torn_witness:
  "main_words ''bssh'' [''-H'', ''web1'', ''tar'', ''-xzf'', ''a.tgz''] [''tar'', ''-xzf'', ''a.tgz'']
   = Done (Lssh, [''bssh'', ''-H'', ''web1'', ''tar'', ''-x'', ''-z'', ''-f'', ''a.tgz''])"
  by (subst remote_command_torn)
    (simp_all add: expand_arg_def parseReg_def short_opts_def to_runes_def runes_ascii ascii_def byte_def)

text \<open>Hosts that are named and known start a run without a menu, whatever events would come.\<close>

lemma named_hosts_no_menu:
  assumes "expand = Done (Inr hosts)" and "hosts \<noteq> []" and "\<not> help" and "\<not> listed"
  shows "lsshAction help listed c expand names menu = Done (Some (lssh_run c hosts))"
  using assms by (simp add: lsshAction_def CheckHelpFlag_def hosts_names_def processListFlag_def parseSelected_def)

end
