(* ===== verification/Conf_Files.thy ===== *)
theory Conf_Files
  imports Conf Output Scp
begin

text \<open>
  The files around the program: reading and writing of the configuration (src/conf/conf.go,
  src/ssh/run.go), the helpers of src/common, src/internal/util and src/internal/tmpjson on files and
  structs, and the copying of a file with its progress (src/output/output.go). The file system is an
  argument.
\<close>

section \<open>Structs and maps (common.go)\<close>

text \<open>A struct as the list of its fields: the name, whether it is exported, and the value. Setting a
  field that is missing or not exported panics.\<close>

type_synonym 'v struct_val = "(string \<times> bool \<times> 'v) list"

definition StructToMap :: "'v struct_val \<Rightarrow> (string \<times> 'v) list" where
  "StructToMap val = map (\<lambda>(n, e, v). (n, v)) (filter (\<lambda>(n, e, v). e) val)"

definition set_field :: "string \<Rightarrow> 'v \<Rightarrow> 'v struct_val \<Rightarrow> 'v struct_val outcome" where
  "set_field name elem val =
     (if \<exists>f \<in> set val. fst f = name \<and> fst (snd f)
      then Done (map (\<lambda>(n, e, v). (n, e, if n = name then elem else v)) val)
      else Panic)"

fun MapToStruct :: "(string \<times> 'v) list \<Rightarrow> 'v struct_val \<Rightarrow> 'v struct_val outcome" where
  "MapToStruct [] val = Done val"
| "MapToStruct ((name, elem) # es) val = obind (set_field name elem val) (MapToStruct es)"

section \<open>Small helpers (common.go, elf.go)\<close>

text \<open>\<open>GetFilesBase64\<close>: the files with a line end behind each; the error of the first one that
  cannot be read.\<close>

fun join_files :: "(string \<Rightarrow> string + string) \<Rightarrow> string list \<Rightarrow> string + string" where
  "join_files read_at [] = Inr []"
| "join_files read_at (p # ps) =
     (case read_at p of
        Inl e \<Rightarrow> Inl e
      | Inr content \<Rightarrow> (case join_files read_at ps of Inl e \<Rightarrow> Inl e | Inr rest \<Rightarrow> Inr (content @ newline # rest)))"

definition GetFilesBase64 :: "(string \<Rightarrow> string) \<Rightarrow> (string \<Rightarrow> string) \<Rightarrow> (string \<Rightarrow> string + string) \<Rightarrow> string list \<Rightarrow> string + string" where
  "GetFilesBase64 base64 fullPath read_at paths = map_sum id base64 (join_files (\<lambda>p. read_at (fullPath p)) paths)"

text \<open>\<open>RandomString\<close> on the drawn numbers; \<open>NewSHA1Hash\<close> draws 32 without an argument.\<close>

definition RandomString :: "string \<Rightarrow> (nat \<Rightarrow> nat) \<Rightarrow> nat \<Rightarrow> string" where
  "RandomString characters intn n = map (\<lambda>i. characters ! (intn i mod length characters)) [0..<n]"

definition NewSHA1Hash :: "(string \<Rightarrow> string) \<Rightarrow> string \<Rightarrow> (nat \<Rightarrow> nat) \<Rightarrow> nat list \<Rightarrow> string" where
  "NewSHA1Hash sha1hex characters intn ns =
     sha1hex (RandomString characters intn (case ns of [] \<Rightarrow> 32 | n # _ \<Rightarrow> n))"

text \<open>\<open>CreateRateLimit\<close>: the rate of the reader, none without a positive limit; a limit that cannot
  be parsed ends the program.\<close>

definition CreateRateLimit :: "(string + int) \<Rightarrow> int option outcome" where
  "CreateRateLimit env = (case env of Inl e \<Rightarrow> Exit 1 | Inr n \<Rightarrow> Done (if n \<le> 0 then None else Some n))"

section \<open>Files (util.go, tmpjson.go, run.go)\<close>

definition OpenBrowser :: "string \<Rightarrow> string \<Rightarrow> string list option" where
  "OpenBrowser goos url =
     (if goos = ''linux'' then Some [''xdg-open'', url]
      else if goos = ''windows'' then Some [''rundll32'', ''url.dll,FileProtocolHandler'', url]
      else if goos = ''darwin'' then Some [''open'', url]
      else None)"

definition WriteJSONFile :: "('v \<Rightarrow> string + string) \<Rightarrow> (string \<Rightarrow> string option) \<Rightarrow> 'v \<Rightarrow> string option" where
  "WriteJSONFile marshal writeErr v =
     (case marshal v of
        Inl e \<Rightarrow> Some (''marshal: '' @ e)
      | Inr d \<Rightarrow> (case writeErr d of Some e \<Rightarrow> Some (''write: '' @ e) | None \<Rightarrow> None))"

definition ReadJSONFile :: "string \<Rightarrow> (string \<Rightarrow> string + string) \<Rightarrow> (string \<Rightarrow> string + 'v) \<Rightarrow> string + 'v" where
  "ReadJSONFile name read_at unmarshal =
     (case read_at name of
        Inl e \<Rightarrow> Inl (''read '' @ name @ '': '' @ e)
      | Inr d \<Rightarrow> (case unmarshal d of Inl e \<Rightarrow> Inl (''unmarshal '' @ name @ '': '' @ e) | Inr v \<Rightarrow> Inr v))"

definition tmp_file :: "string \<Rightarrow> string \<Rightarrow> string" where
  "tmp_file tempDir name = path_join [tempDir, name]"

text \<open>\<open>writeConfContent\<close> replaces an existing file and keeps its mode.\<close>

definition readConfContent :: "(string \<Rightarrow> string) \<Rightarrow> (string \<Rightarrow> (string \<times> nat) option) \<Rightarrow> string \<Rightarrow> string option" where
  "readConfContent expandHome fs confPath = map_option fst (fs (expandHome confPath))"

definition writeConfContent ::
  "(string \<Rightarrow> string) \<Rightarrow> (string \<Rightarrow> (string \<times> nat) option) \<Rightarrow> string \<Rightarrow> string \<Rightarrow> (string \<Rightarrow> (string \<times> nat) option) option" where
  "writeConfContent expandHome fs confPath content =
     (case fs (expandHome confPath) of
        None \<Rightarrow> None
      | Some (old, mode) \<Rightarrow> Some (fs(expandHome confPath \<mapsto> (content, mode))))"

section \<open>The configuration file (conf.go)\<close>

text \<open>\<open>checkConfPath\<close>: without a file the template is written and the program ends.\<close>

definition checkConfPath :: "(string \<Rightarrow> string \<times> bool) \<Rightarrow> string \<Rightarrow> string \<Rightarrow> string outcome \<times> file_op list" where
  "checkConfPath isExist initBsshToml confPath0 =
     (let (confPath, exists) = isExist confPath0 in
      if exists then (Done confPath, [])
      else (Exit 0, [MkdirAll (path_dir confPath), WriteFile confPath initBsshToml]))"

text \<open>\<open>appendIncludePaths\<close>: \<open>md5\<close> gives the key for a time and a path.\<close>

definition appendIncludePaths ::
  "(string \<Rightarrow> string) \<Rightarrow> string \<Rightarrow> (string \<Rightarrow> string) \<Rightarrow> string list \<Rightarrow> (string \<rightharpoonup> string) \<Rightarrow> (string \<rightharpoonup> string)" where
  "appendIncludePaths md5 unixTime expandHome paths include =
     foldl (\<lambda>m p. m(md5 (str_join [unixTime, p] ''_'') \<mapsto> expandHome p)) include paths"

text \<open>\<open>AppendFile\<close> on the content of the file (\<open>None\<close> when it does not exist).\<close>

definition AppendFile :: "string option \<Rightarrow> string \<Rightarrow> string" where
  "AppendFile content line = (case content of Some s \<Rightarrow> s | None \<Rightarrow> []) @ line @ [newline]"

definition server_table :: "(string \<Rightarrow> server_config) \<Rightarrow> string list \<Rightarrow> (nat \<times> string \<times> string \<times> string) list" where
  "server_table server names =
     map (\<lambda>(i, name). let v = server name in
            (Suc i, name, sc_User v @ ''@'' @ sc_Addr v @ '':'' @ sc_Port v, sc_Note v))
       (zip [0..<length names] names)"

section \<open>Copying with progress (output.go)\<close>

text \<open>\<open>ProgressPrinter\<close> reads through a reader that writes what it reads to the target: each read
  gives bytes and how it ended. The result is what the target got, the progress, whether the bar is
  completed, and the error; \<open>None\<close> while the reader has not come to an end.\<close>

datatype chunk_end = ReadOk | ReadEOF | ReadFailed string

record progress =
  pg_target :: string
  pg_sum :: nat
  pg_completed :: bool
  pg_err :: "string option"

fun progress_loop :: "(string \<times> chunk_end) list \<Rightarrow> string \<Rightarrow> progress option" where
  "progress_loop [] target = None"
| "progress_loop ((b, e) # rs) target =
     (case e of
        ReadOk \<Rightarrow> progress_loop rs (target @ b)
      | ReadEOF \<Rightarrow> Some \<lparr>pg_target = target @ b, pg_sum = length (target @ b), pg_completed = True, pg_err = None\<rparr>
      | ReadFailed err \<Rightarrow>
          Some \<lparr>pg_target = target @ b, pg_sum = length (target @ b), pg_completed = False, pg_err = Some err\<rparr>)"

text \<open>The names in front of the bar: the prompt with several hosts, and the path without blanks around
  it.\<close>

definition progress_labels :: "out_conf \<Rightarrow> string \<Rightarrow> string \<times> string" where
  "progress_labels ot path = (if length (o_ServerList ot) > 1 then GetPrompt ot else [], trim_space path)"

definition ProgressPrinter :: "(string \<times> chunk_end) list \<Rightarrow> progress option" where
  "ProgressPrinter reads = progress_loop reads []"

section \<open>Commands and uploads of the explorer (shell.go)\<close>

definition execCmd :: "(string + 's) \<Rightarrow> ('s \<Rightarrow> string \<Rightarrow> string + string) \<Rightarrow> string \<Rightarrow> string + string" where
  "execCmd session run cmd = (case session of Inl e \<Rightarrow> Inl e | Inr s \<Rightarrow> run s cmd)"

definition SftpUpload :: "(file_op \<Rightarrow> bool) \<Rightarrow> string \<Rightarrow> string \<Rightarrow> file_op list \<times> bool" where
  "SftpUpload ok remote content = run_ops ok [OpenFile remote, WriteFile remote content]"

text \<open>\<open>InitFileStash\<close> up to its server: the two uploads, and the port it asks for.\<close>

definition InitFileStash_uploads :: "(file_op \<Rightarrow> bool) \<Rightarrow> string \<Rightarrow> string \<Rightarrow> file_op list \<times> bool" where
  "InitFileStash_uploads ok pingHosts apiSh =
     (case SftpUpload ok ''.linuxdash_ping_hosts'' pingHosts of
        (ops, False) \<Rightarrow> (ops, False)
      | (ops, True) \<Rightarrow> (case SftpUpload ok ''.linuxdash_json_api.sh'' apiSh of (ops', r) \<Rightarrow> (ops @ ops', r)))"

definition stash_port :: "int \<Rightarrow> int" where
  "stash_port port = (if port = 0 then 8333 else port)"

text \<open>\<open>InitFileStash\<close>: the error of the sftp client or of an upload, or the port \<open>started\<close> says
  the explorer listens on; a build without the explorer gives the port back.\<close>

definition InitFileStash ::
  "string option \<Rightarrow> (file_op \<Rightarrow> bool) \<Rightarrow> string \<Rightarrow> string \<Rightarrow> (int \<Rightarrow> int) \<Rightarrow> int \<Rightarrow> file_op list \<times> int \<times> bool" where
  "InitFileStash clientErr ok pingHosts apiSh started port =
     (if clientErr \<noteq> None then ([], 0, False)
      else case InitFileStash_uploads ok pingHosts apiSh of
             (ops, True) \<Rightarrow> (ops, started (stash_port port), True)
           | (ops, False) \<Rightarrow> (ops, 0, False))"

definition InitFileStash_none :: "int \<Rightarrow> int \<times> bool" where
  "InitFileStash_none port = (port, True)"

text \<open>\<open>openWebExplorer\<close>: the browser on the page of the files, not of the working directory.\<close>

definition openWebExplorer :: "string \<Rightarrow> int \<Rightarrow> string list option" where
  "openWebExplorer goos port = OpenBrowser goos (''http:'' @ [slash, slash] @ ''127.0.0.1:'' @ itoa port @ slash # ''files'')"

text \<open>\<open>UnmarshalText\<close> of a \<open>TomlDuration\<close>: the duration is also set, to zero, on an error.\<close>

definition UnmarshalText :: "(string \<Rightarrow> string + int) \<Rightarrow> string \<Rightarrow> int \<times> string option" where
  "UnmarshalText parseDuration text =
     (case parseDuration text of Inl e \<Rightarrow> (0, Some e) | Inr d \<Rightarrow> (d, None))"

section \<open>Facts\<close>

text \<open>Without an error the port is the explorer's, and both files were uploaded.\<close>

lemma InitFileStash_ok:
  "InitFileStash clientErr ok pingHosts apiSh started port = (ops, p, True) \<Longrightarrow>
   p = started (stash_port port) \<and> InitFileStash_uploads ok pingHosts apiSh = (ops, True)"
  by (auto simp: InitFileStash_def split: if_splits prod.splits bool.splits)

lemma set_field_same:
  assumes "distinct (map fst val)" and "(n, True, v) \<in> set val"
  shows "set_field n v val = Done val"
proof -
  have "map (\<lambda>(n', e, w). (n', e, if n' = n then v else w)) val = val"
    using assms eq_key_imp_eq_value [OF assms(1)] by (intro map_idI) fastforce
  then show ?thesis using assms(2) by (force simp: set_field_def)
qed

lemma MapToStruct_same:
  "distinct (map fst val) \<Longrightarrow> (\<forall>(n, v) \<in> set es. (n, True, v) \<in> set val) \<Longrightarrow> MapToStruct es val = Done val"
  by (induction es) (auto simp: set_field_same)

text \<open>The reads before the first that is not fine.\<close>

lemma progress_ok: "progress_loop (map (\<lambda>b. (b, ReadOk)) bs @ rs) target = progress_loop rs (target @ concat bs)"
  by (induction bs arbitrary: target) simp_all

lemma host_lines_append:
  assumes "content = [] \<or> last content = newline" and "newline \<notin> set l"
  shows "host_lines (content @ l @ [newline]) = host_lines content @ host_lines l"
proof -
  have one: "host_lines (l @ [newline]) = host_lines l"
    using assms(2) split_on_line [of newline l "[]"] by (simp add: host_lines_def trim_space_ascii ascii_def)
  show ?thesis
  proof (cases content rule: rev_cases)
    case (snoc c x)
    then have c: "content = c @ newline # []" using assms(1) by simp
    have "host_lines (c @ newline # (l @ [newline])) = host_lines c @ host_lines (l @ [newline])"
      by (simp only: host_lines_def split_on_line map_append filter_append)
    moreover have "host_lines content = host_lines c"
      using split_on_line [of newline c "[]"] by (simp add: c host_lines_def trim_space_ascii ascii_def)
    ultimately show ?thesis using c one by simp
  qed (simp add: one, simp add: host_lines_def trim_space_ascii ascii_def)
qed

section \<open>Properties\<close>

text \<open>A file is copied whole or the copy is an error: when the reads give the parts of a content and
  end at its end, the target has the content, the bar is completed and there is no error; when a read
  fails, the target has the parts up to it, the error is returned and the bar stays open.\<close>

theorem copy_whole_or_error:
  "ProgressPrinter (map (\<lambda>b. (b, ReadOk)) bs @ (b, ReadEOF) # rs) =
     Some \<lparr>pg_target = concat bs @ b, pg_sum = length (concat bs @ b), pg_completed = True, pg_err = None\<rparr>
   \<and> ProgressPrinter (map (\<lambda>b. (b, ReadOk)) bs @ (b, ReadFailed e) # rs) =
     Some \<lparr>pg_target = concat bs @ b, pg_sum = length (concat bs @ b), pg_completed = False, pg_err = Some e\<rparr>"
  by (simp add: ProgressPrinter_def progress_ok)

text \<open>The map of a struct sets it to itself.\<close>

theorem struct_round_trip:
  assumes "distinct (map fst val)"
  shows "MapToStruct (StructToMap val) val = Done val"
  using assms by (intro MapToStruct_same) (auto simp: StructToMap_def)

text \<open>C39 A temporary host comes back: a line appended to the file of hosts is loaded by the next run,
  beside all the hosts that were there.\<close>

theorem temp_host_round_trip:
  assumes "content = [] \<or> last content = newline" and "newline \<notin> set line"
    and "trim_space line \<noteq> []" and "\<not> has_prefix (trim_space line) ''#''"
  shows "c_tempHosts (loadTempHosts confPath (Some (AppendFile (Some content) line)) cf2) =
      insert (trim_space line) (c_tempHosts (loadTempHosts confPath (Some content) cf2))
    \<and> trim_space line \<in> set (c_Hosts (loadTempHosts confPath (Some (AppendFile (Some content) line)) cf2))"
proof -
  have "host_lines line = [trim_space line]"
    using assms(2-4) by (simp add: host_lines_def split_on_absent)
  then have "host_lines (AppendFile (Some content) line) = host_lines content @ [trim_space line]"
    using host_lines_append [OF assms(1,2)] by (simp add: AppendFile_def)
  then show ?thesis by (simp add: loadTempHosts_def)
qed

lemma struct_round_trip_witness:
  "MapToStruct (StructToMap [(''Addr'', True, ''h''), (''idx'', False, ''z''), (''User'', True, ''u'')])
     [(''Addr'', True, ''h''), (''idx'', False, ''z''), (''User'', True, ''u'')]
   = Done [(''Addr'', True, ''h''), (''idx'', False, ''z''), (''User'', True, ''u'')]"
  by (rule struct_round_trip) simp

lemma temp_host_round_trip_witness:
  "''u@h id=web'' \<in> set (c_Hosts (loadTempHosts ''conf.toml'' (Some (AppendFile (Some (''a'' @ [newline])) ''u@h id=web'')) demo_config))"
proof -
  have trim: "trim_space ''u@h id=web'' = ''u@h id=web''"
    by (simp add: trim_space_ascii ascii_def space_char_def)
  have "trim_space ''u@h id=web'' \<in> set (c_Hosts (loadTempHosts ''conf.toml'' (Some (AppendFile (Some (''a'' @ [newline])) ''u@h id=web'')) demo_config))"
    by (rule conjunct2 [OF temp_host_round_trip]) (simp_all add: newline_def trim has_prefix_def)
  then show ?thesis by (simp only: trim)
qed

end
