(* ===== verification/Spec2Isabelle.thy ===== *)
theory Spec2Isabelle
  imports Go_Strings Go_Machine Go_Path Common List_View Conf_Types Conf Conf_OpenSSH Ssh_Route
    Ssh_Auth Ssh_Shell Output Sshlib_Net Sshlib_Term Sshlib_Conn Sshlib_Session
    Scp Ssh_Keys List_Text List_Pick App Sftp Pshell
    Sshlib_Cred Sshlib_Known Sshlib_Down Sshlib_Stream Ssh_Dial Ssh_Cmd Ssh_HostInfo Pshell_Run Pshell_Kill Sftp_List Sftp_Cmd App_Main Conf_Files
begin

text \<open>
  Verification library of bssh, an ssh client with a list of servers in the terminal, parallel
  commands, copies, an sftp shell and a parallel shell (src/, written in Go).

  THE PROGRAM. \<open>main\<close> (src/cmd/bssh/main.go) picks one of three applications (src/app): ssh, scp or
  ftp. Each reads the configuration (src/conf), expands the hosts of the command line, asks the list
  in the terminal (src/list) when there are none, and starts a run (src/ssh), a copy (src/scp) or an
  sftp shell (src/sftp). All three register the methods of authentication of the chosen servers and
  their proxies (src/ssh/auth.go, run.go), find the route through the proxies and dial along it
  (src/ssh/connect.go), and work on connections of src/sshlib, whose terminal captures the output of
  hidden commands, moves files through the terminal, writes logs and forwards ports. src/output
  prints the lines of several hosts behind prompts; src/common and src/check are shared helpers.

  THE THEORIES, in the order of their imports. A definition has the name of the function or type it
  models (with a suffix or prefix where Isabelle has the name already); a method is a function of the
  fields it uses.

  Prelude.
  \<open>Go_Strings\<close>: the value of a call that may stop the program (\<open>outcome\<close>: \<open>Done\<close>, \<open>Panic\<close>, \<open>Exit\<close>),
  indexing and slicing with Go's panics, UTF-8, and the functions of strings, strconv, bufio and
  unicode that bssh uses. \<open>Go_Path\<close>: path/filepath on Unix. \<open>Go_Machine\<close>: event loops (\<open>mrun\<close>) with
  the locale \<open>machine\<close>, and goroutines as step relations with the locales \<open>stepping\<close> (a kept
  property) and \<open>ranked\<close> (bounded runs).
  \<open>Common\<close>: src/common/common.go and src/check; the locale \<open>dedup\<close> is the contract of the two loops
  that drop duplicates.

  Configuration.
  \<open>Conf_Types\<close>: the records of src/conf and the merge of a server with the common settings.
  \<open>Conf\<close>: templates, direct hosts, includes, groups, the search of hosts, \<open>ReadConf\<close>.
  \<open>Conf_OpenSSH\<close>: servers from an OpenSSH configuration. \<open>Conf_Files\<close>: the files around the program
  (temporary hosts, includes, conversions between structs and maps, copies with progress).

  The list in the terminal.
  \<open>List_View\<close>: the state \<open>info\<close>, the operations and the event loop as the step \<open>key_step\<close>.
  \<open>List_Text\<close>: the layout of the rows and the highlighted keywords. \<open>List_Pick\<close>: what a session of
  the list can return.

  Connections.
  \<open>Ssh_Route\<close>: the proxy route and the dialers. \<open>Ssh_Auth\<close>: the registration of authentication
  methods (the locale \<open>registrar\<close> is the contract of the registering steps). \<open>Ssh_Shell\<close>: shell
  mode and the parts of command mode, \<open>Ssh_Cmd\<close>: the whole of command mode. \<open>Ssh_Dial\<close>: the dialers as
  traces, and the connection from the chain of proxies to the target. \<open>Ssh_HostInfo\<close>: the
  stored information about the hosts, with several programs on its file. \<open>Ssh_Keys\<close>: typed keys.
  \<open>Sshlib_Conn\<close>: settings of a connection. \<open>Sshlib_Known\<close>: known hosts. \<open>Sshlib_Cred\<close>: signers, agents
  and tokens. \<open>Sshlib_Net\<close>: bridges, X11 authority, accept loops. \<open>Sshlib_Stream\<close>: copying between
  connections and dialing through proxies. \<open>Sshlib_Session\<close>: the actions of a session.
  \<open>Sshlib_Term\<close>: the capturing terminal, local commands, keep-alive, log, uploads.
  \<open>Sshlib_Down\<close>: downloads with the base64 decoder.

  Commands.
  \<open>Output\<close>: prompts and the line printer. \<open>Scp\<close>: copies as the operations on files. \<open>Sftp\<close>,
  \<open>Sftp_List\<close>, \<open>Sftp_Cmd\<close>: the sftp shell, its listings, and its commands as applications.
  \<open>Pshell\<close>, \<open>Pshell_Run\<close>: the parallel shell. \<open>Pshell_Kill\<close>: its interrupts, the goroutines of
  the executor with their channels (\<open>sig_fire\<close> is the effect of an event, \<open>sig_step\<close> the relation). \<open>App\<close>, \<open>App_Main\<close>: menus, options, the three
  applications and \<open>main\<close>.

  STATE. A Go struct is a record with a prefix per type (\<open>sc_\<close> for ServerConfig, \<open>c_\<close> for Config);
  a Go map is a function into options, and a range over it takes the order of its keys as an argument.
  State that several functions change is passed on: the cache of methods in \<open>auth_state\<close>, the list in
  \<open>info\<close>, the clients of the sftp shell as a list, the terminal as \<open>term_sys\<close>. Goroutines are either
  independent (each with its own operations, as in the copies) or a step relation over a record that
  holds the place of each of them (\<open>term_step\<close>, \<open>dl_step\<close>, \<open>forward_step\<close>, \<open>prompt_step\<close>,
  \<open>resize_step\<close>, \<open>sig_step\<close>). Errors are
  values of a sum type, the end of the program is \<open>Exit\<close>, a run-time panic is \<open>Panic\<close>.

  WHAT IS SHOWN. The list: the state stays well-formed under every event of the keyboard, the cursor
  stays on a row, Enter returns the highlighted row, the menus return only what they listed, and the
  few events that can panic. Configuration: every server comes from the file and keeps its settings,
  the groups hold exactly the servers that name them, the search does not depend on the order of the
  map, and what a template or an OpenSSH section loses. Connections: the route is the chain of
  proxies from the first to dial, when it does not end, which methods a connection gets, when
  questions are asked, and what a changed host key does to the file. Terminal: a captured response is
  delivered whole however it is cut, the states in which the terminal is frozen for ever, the log
  refines the list of complete lines, an upload sends the file, and a download keeps its order, ends,
  and can lose its last bytes. Copies and the sftp shell: every file lands at its place, several
  servers do not share a directory, the hosts share one working directory, a recursive removal leaves
  nothing, a command reaches every host or none. Parallel shell: which lines parse and end, whose
  output is lost, that the goroutines of a line come back exactly when the executor as a function does,
  that an interrupt of a statement with a built-in command always ends the program, and that the
  interrupt of a later statement can be lost. Command mode: when it panics, and that it waits for what
  it started. Host information: what a session stores, and what two programs lose. Command line: what happens to the words of a remote command. Theorems that show a
  defect are listed as findings in the manifest.

  LOOPS. Structural recursion or a measure wherever the code ends. Three loops of the code need not
  end and are partial functions whose \<open>None\<close> is not returning: the route over the proxies
  (\<open>route_loop\<close>), the registration of methods along it (\<open>createAuthMethodMapForServer\<close>), and the
  parser of statements (\<open>parse_stmt\<close>); theorems say when they return. No fuel is used. A loop that
  waits for events takes the list of the events that come; at its end the result says that it still
  waits. Numbers are unbounded where the code only counts, 64-bit words for the space of a file
  system, and explicit bounds for strconv; times are milliseconds.

  PARAMETERS. Code outside the repository is an argument: the TOML decoder, hostparse, the PBE codec,
  kevinburke/ssh_config, golang.org/x/crypto/ssh with knownhosts and agent, the sftp client, PKCS11,
  pflag and urfave/cli, termbox and runewidth, mvdan.cc/sh, text/template, MD5 and SHA-1, the network,
  the file systems, the clock and the answers of the user.

  NOT MODELLED. The cryptography and the protocols, what the terminal does with the cells and escape
  sequences, the layout of tabwriter beyond the one of the list, the progress bars and the rate
  limit (they only slow the copies down), the file explorer started beside a shell (a third-party
  server), help texts and the texts of the default scripts, the signal handler of a question about a
  host key, the constants of src/misc (written out where they are used), the package documentation, and
  the programs under src/sshlib/_example, which call \<open>CreateClient\<close> with too few arguments and so have no
  meaning beside this package. A buffered writer is modelled for files that
  fit its buffer.
\<close>

section \<open>Configuration and authentication\<close>

text \<open>C8 The hosts of a template with several hosts cannot use their password: the entry is stored
  under the template's name and a number (or id), its ID is the template's name, the password is
  registered under the former and the connection looks under the latter. No authentication method
  is left for the connection although the password is in the configuration.\<close>

theorem template_hosts_lose_password:
  assumes "parseConfigServers parse (createServerConfigFromHost sp ef) es setCommon Map.empty = Done m'"
    and "distinct (map fst es)" and "[] \<notin> set (map fst es)"
    and "m' k = Some c" and "k \<notin> set (map fst es)"
    and "sc_Pass c \<noteq> []" and "sc_Key c = []" and "sc_Proxy c = []" and "sc_ProxyCommand c = []"
    and "st_servers r = m'" and "CreateAuthMethodMap env px enum [k] r = Some (Done r')"
  shows "connect_methods r' c = [] \<and> methods_of (serverAuthMethodMap r') k \<noteq> []"
proof -
  from parse_origin [OF assms(1-4)] have "sc_ID c \<in> set (map fst es)"
    using assms(5) by (force simp: from_plain_def)
  then have "sc_ID c \<noteq> k" using assms(5) by auto
  then show ?thesis
    using password_lost_when_id_differs [of r k c env px enum r'] assms by simp
qed

text \<open>A template of two hosts, parsed and prepared for a connection to the second one.\<close>

lemma template_hosts_lose_password_witness:
  "\<exists>m' c r'. parseConfigServers demo_parse (createServerConfigFromHost (\<lambda>s. [s]) Done) demo_entries zero_server Map.empty = Done m'
     \<and> m' ''web2'' = Some c \<and> CreateAuthMethodMap demo_env Map.empty (\<lambda>_. []) [''web2''] (demo_run m') = Some (Done r')
     \<and> connect_methods r' c = []"
proof -
  obtain m' c where m: "parseConfigServers demo_parse (createServerConfigFromHost (\<lambda>s. [s]) Done) demo_entries zero_server Map.empty = Done m'"
      "m' ''web2'' = Some c" and c: "sc_Pass c = ''x9''" "sc_Key c = []" "sc_Proxy c = []" "sc_ProxyCommand c = []" "sc_Passes c = []"
    using demo_servers by blast
  have run: "\<exists>r'. CreateAuthMethodMap demo_env Map.empty (\<lambda>_. []) [''web2''] (demo_run m') = Some (Done r')"
    by (rule demo_auth [where c = c]) (use m c in \<open>simp_all\<close>)
  then obtain r' where r': "CreateAuthMethodMap demo_env Map.empty (\<lambda>_. []) [''web2''] (demo_run m') = Some (Done r')"
    by blast
  have "connect_methods r' c = []"
    by (rule conjunct1 [OF template_hosts_lose_password [OF m(1) demo_entries_keys m(2) _ _ _ _ _ _ r']])
      (use c in \<open>simp_all add: demo_entries_def demo_run_def\<close>)
  with m r' show ?thesis by blast
qed

section \<open>OpenSSH configuration and forwards\<close>

text \<open>C35 A \<open>RemoteForward\<close> of an OpenSSH configuration is started as a local forward: the
  addresses are stored where those of \<open>LocalForward\<close> are, the mode stays empty, and an empty
  mode means a local forward when the shell starts its forwards.\<close>

theorem openssh_remote_forward_runs_local:
  assumes "get host ''RemoteForward'' = a @ '' '' @ b" and "CHR '' '' \<notin> set a" and "a \<noteq> []" and "b \<noteq> []"
  shows "portForwarding (snd (createServerConfig get host ele)) = [TCPLocalForward (forward_addr a) (forward_addr b)]"
proof -
  have "forward_addr x \<noteq> []" if "x \<noteq> []" for x using that by (simp add: forward_addr_def split: option.split)
  then show ?thesis
    using createServerConfig_remote [of get host a b ele] createServerConfig_mode [of get host ele] assms
    by (simp add: portForwarding_def mode_forward_def)
qed

lemma openssh_remote_forward_runs_local_witness:
  "portForwarding (snd (createServerConfig
      (\<lambda>h k. if k = ''RemoteForward'' then ''web:x '' @ ''db:y'' else []) ''web'' ''ele'')) = 
    [TCPLocalForward (forward_addr ''web:x'') (forward_addr ''db:y'')]"
  by (rule openssh_remote_forward_runs_local) simp_all

end
